(* ===== verification/FW_Prelude.thy ===== *)
theory FW_Prelude
  imports Main "HOL-Library.Word"
begin

unbundle bit_operations_syntax

text \<open>
  Shared vocabulary of the development: the machine integers of the Rust code, the
  \<open>io::ErrorKind\<close> values its I/O returns, sums as results, and the generic facts on
  lists, options and words that several components use.

  A Rust \<open>Result<T, E>\<close> is the sum type \<open>'e + 't\<close> with \<open>Inl\<close> for \<open>Err\<close> and \<open>Inr\<close>
  for \<open>Ok\<close>. An \<open>io::Error\<close> is represented by its kind: the message text an error
  carries only reaches the log. Strings and paths are byte strings (\<open>char list\<close>).
\<close>

section \<open>Machine integers and results\<close>

type_synonym u8 = "8 word"
type_synonym u16 = "16 word"
type_synonym u32 = "32 word"
type_synonym u64 = "64 word"
type_synonym bytes = "u8 list"

datatype io_kind =
    BrokenPipe
  | UnexpectedEof
  | ConnectionReset
  | ConnectionAborted
  | NotConnected
  | WouldBlock
  | TimedOut
  | Interrupted
  | InvalidData
  | InvalidInput
  | NotFound
  | PermissionDenied
  | OtherKind

type_synonym 'a io_result = "io_kind + 'a"

definition is_ok :: "'e + 'a \<Rightarrow> bool" where
  "is_ok r = (case r of Inl _ \<Rightarrow> False | Inr _ \<Rightarrow> True)"

definition map_err :: "('e \<Rightarrow> 'f) \<Rightarrow> 'e + 'a \<Rightarrow> 'f + 'a" where
  "map_err f r = (case r of Inl e \<Rightarrow> Inl (f e) | Inr x \<Rightarrow> Inr x)"

text \<open>\<open>collect\<close> of an iterator of results into a result of a vector: the first error wins.\<close>

fun collect_results :: "('e + 'a) list \<Rightarrow> 'e + 'a list" where
  "collect_results [] = Inr []"
| "collect_results (Inl e # rs) = Inl e"
| "collect_results (Inr x # rs) = map_sum id (Cons x) (collect_results rs)"

section \<open>Rule collections\<close>

named_theorems fw_split \<open>case splits of the model's results\<close>
named_theorems fw_path \<open>rewrite rules on paths and their components\<close>
named_theorems fw_wire \<open>rewrite rules on byte-level encodings\<close>

lemmas result_splits [fw_split] = sum.splits option.splits prod.splits if_splits

section \<open>Results\<close>

lemma is_ok_simps [simp]: "is_ok (Inr x)" "\<not> is_ok (Inl e)"
  by (simp_all add: is_ok_def)

lemma is_ok_iff: "is_ok r \<longleftrightarrow> (\<exists>x. r = Inr x)"
  by (cases r) auto

lemma map_err_simps [simp]: "map_err f (Inl e) = Inl (f e)" "map_err f (Inr x) = Inr x"
  by (simp_all add: map_err_def)

lemma collect_results_Inr [simp]: "collect_results (map Inr xs) = Inr xs"
  by (induction xs) auto

lemma collect_results_ok_iff:
  "collect_results rs = Inr xs \<longleftrightarrow> rs = map Inr xs"
proof (induction rs arbitrary: xs)
  case Nil
  then show ?case by auto
next
  case (Cons r rs)
  then show ?case
    by (cases r; cases xs; cases "collect_results rs") auto
qed

lemma collect_results_error:
  "collect_results rs = Inl e \<Longrightarrow> \<exists>as bs. rs = map Inr as @ Inl e # bs"
proof (induction rs)
  case Nil
  then show ?case by simp
next
  case (Cons r rs)
  show ?case
  proof (cases r)
    case (Inl a)
    with Cons.prems have "r # rs = map Inr [] @ Inl e # rs" by simp
    then show ?thesis by blast
  next
    case (Inr a)
    with Cons.prems have "collect_results rs = Inl e"
      by (cases "collect_results rs") auto
    then obtain as bs where "rs = map Inr as @ Inl e # bs"
      using Cons.IH by blast
    with Inr have "r # rs = map Inr (a # as) @ Inl e # bs" by simp
    then show ?thesis by blast
  qed
qed

section \<open>Searching a list\<close>

text \<open>\<open>iter().find(p)\<close> is HOL's \<open>List.find\<close>.\<close>

lemma find_None_iff_all: "List.find P xs = None \<longleftrightarrow> (\<forall>x \<in> set xs. \<not> P x)"
  by (auto simp: find_None_iff)

lemma find_SomeD: "List.find P xs = Some x \<Longrightarrow> P x \<and> x \<in> set xs"
  by (auto simp: find_Some_iff)

lemma find_append: "List.find P (xs @ ys) = (case List.find P xs of None \<Rightarrow> List.find P ys | Some x \<Rightarrow> Some x)"
  by (induction xs) auto

section \<open>Machines\<close>

text \<open>
  The contract shared by every component that is driven by a sequence of operations: an
  invariant on the state that each operation keeps. The client lemmas are about whole
  runs; each component supplies its step function and proves the law once.
\<close>

locale machine =
  fixes step :: "'s \<Rightarrow> 'e \<Rightarrow> 's"
    and inv :: "'s \<Rightarrow> bool"
  assumes inv_step: "inv s \<Longrightarrow> inv (step s e)"
begin

lemma inv_run: "inv s \<Longrightarrow> inv (foldl step s es)"
  by (induction es arbitrary: s) (auto intro: inv_step)

lemma inv_run_prefix: "inv s \<Longrightarrow> inv (foldl step s (take n es))"
  by (rule inv_run)

end

text \<open>A machine with an output measure that no step takes back.\<close>

locale monotone_machine = machine step inv
  for step :: "'s \<Rightarrow> 'e \<Rightarrow> 's" and inv :: "'s \<Rightarrow> bool" +
  fixes level :: "'s \<Rightarrow> 'm::preorder"
  assumes level_step: "inv s \<Longrightarrow> level s \<le> level (step s e)"
begin

lemma level_run: "inv s \<Longrightarrow> level s \<le> level (foldl step s es)"
proof (induction es arbitrary: s)
  case Nil
  then show ?case by simp
next
  case (Cons e es)
  have "level s \<le> level (step s e)"
    using Cons.prems by (rule level_step)
  also have "\<dots> \<le> level (foldl step (step s e) es)"
    using Cons.prems by (intro Cons.IH inv_step)
  finally show ?case by simp
qed

lemma level_run_le:
  assumes "inv s" and "m \<le> n" 
  shows "level (foldl step s (take m es)) \<le> level (foldl step s (take n es))"
proof -
  have "take n es = take m es @ drop m (take n es)"
    using assms(2) by (metis append_take_drop_id min.absorb1 take_take)
  then have "foldl step s (take n es) = foldl step (foldl step s (take m es)) (drop m (take n es))"
    by (metis foldl_append)
  then show ?thesis
    using level_run [OF inv_run [OF assms(1)]] by simp
qed

end

end
