(* ===== verification/FW_Path.thy ===== *)
theory FW_Path
  imports FW_Prelude "HOL-Library.Sublist" "HOL-Library.List_Lexorder" "HOL-Library.Char_ord"
begin

text \<open>
  Rust's \<open>std::path\<close> on Unix, as far as the daemon relies on it. A path is the byte string
  it was built from; \<open>==\<close>, \<open>starts_with\<close>, \<open>strip_prefix\<close> and the order of a
  \<open>BTreeMap<PathBuf, _>\<close> all look at its components: a leading slash is the component
  \<open>RootDir\<close>, empty parts and dots inside the path vanish, a leading dot of a relative path
  is \<open>CurDir\<close>. \<open>strip_prefix\<close> and \<open>parent\<close> return a slice of the original bytes, so the parts
  are kept next to the component each of them stands for.
\<close>

section \<open>Components\<close>

type_synonym path = string

datatype component = RootDir | CurDir | ParentDir | Normal string

type_synonym tagged = "string \<times> component option"

fun split_slash :: "string \<Rightarrow> string list" where
  "split_slash [] = [[]]"
| "split_slash (c # cs) =
     (if c = CHR ''/'' then [] # split_slash cs
      else (case split_slash cs of [] \<Rightarrow> [[c]] | w # ws \<Rightarrow> (c # w) # ws))"

fun join_slash :: "string list \<Rightarrow> string" where
  "join_slash [] = []"
| "join_slash [w] = w"
| "join_slash (w # v # ws) = w @ CHR ''/'' # join_slash (v # ws)"

definition has_root :: "path \<Rightarrow> bool" where
  "has_root p = (case p of [] \<Rightarrow> False | c # _ \<Rightarrow> c = CHR ''/'')"

definition part_component :: "string \<Rightarrow> component option" where
  "part_component s =
     (if s = [] \<or> s = ''.'' then None
      else if s = ''..'' then Some ParentDir else Some (Normal s))"

definition first_component :: "path \<Rightarrow> string \<Rightarrow> component option" where
  "first_component p w =
     (if has_root p then Some RootDir
      else if w = ''.'' then Some CurDir else part_component w)"

definition tag_part :: "string \<Rightarrow> tagged" where
  "tag_part s = (s, part_component s)"

definition tagged_parts :: "path \<Rightarrow> tagged list" where
  "tagged_parts p =
     (case split_slash p of
        [] \<Rightarrow> []
      | w # ws \<Rightarrow> (w, first_component p w) # map tag_part ws)"

definition components :: "path \<Rightarrow> component list" where
  "components p = List.map_filter snd (tagged_parts p)"

text \<open>The bytes of a run of parts; the root alone is written as a slash.\<close>

definition untag :: "tagged list \<Rightarrow> path" where
  "untag ts = (if map snd ts = [Some RootDir] then ''/'' else join_slash (map fst ts))"

definition trim_right :: "tagged list \<Rightarrow> tagged list" where
  "trim_right ts = rev (dropWhile (\<lambda>t. snd t = None) (rev ts))"

definition trim_left :: "tagged list \<Rightarrow> tagged list" where
  "trim_left ts = dropWhile (\<lambda>t. snd t = None) ts"

fun drop_components :: "component list \<Rightarrow> tagged list \<Rightarrow> tagged list option" where
  "drop_components [] ts = Some ts"
| "drop_components (c # cs) [] = None"
| "drop_components (c # cs) ((w, None) # ts) = drop_components (c # cs) ts"
| "drop_components (c # cs) ((w, Some d) # ts) =
     (if c = d then drop_components cs ts else None)"

section \<open>The operations\<close>

definition path_eq :: "path \<Rightarrow> path \<Rightarrow> bool" where
  "path_eq p q = (components p = components q)"

definition starts_with :: "path \<Rightarrow> path \<Rightarrow> bool" where
  "starts_with p base = prefix (components base) (components p)"

definition strip_prefix :: "path \<Rightarrow> path \<Rightarrow> path option" where
  "strip_prefix p base =
     map_option (\<lambda>ts. untag (trim_left (trim_right ts)))
       (drop_components (components base) (tagged_parts p))"

definition path_join :: "path \<Rightarrow> path \<Rightarrow> path" where
  "path_join p q =
     (if has_root q then q
      else if p = [] \<or> last p = CHR ''/'' then p @ q else p @ CHR ''/'' # q)"

definition file_name :: "path \<Rightarrow> string option" where
  "file_name p = (case rev (components p) of Normal s # _ \<Rightarrow> Some s | _ \<Rightarrow> None)"

definition parent :: "path \<Rightarrow> path option" where
  "parent p =
     (case rev (trim_right (tagged_parts p)) of
        [] \<Rightarrow> None
      | (w, c) # ts \<Rightarrow>
          if c = Some RootDir then None else Some (untag (trim_right (rev ts))))"

text \<open>What the kernel hands out as the name of a directory entry.\<close>

definition plain_name :: "string \<Rightarrow> bool" where
  "plain_name n \<longleftrightarrow> n \<noteq> [] \<and> n \<noteq> ''.'' \<and> n \<noteq> ''..'' \<and> CHR ''/'' \<notin> set n"

section \<open>The order of components\<close>

fun component_rank :: "component \<Rightarrow> nat" where
  "component_rank RootDir = 0"
| "component_rank CurDir = 1"
| "component_rank ParentDir = 2"
| "component_rank (Normal s) = 3"

fun component_text :: "component \<Rightarrow> string" where
  "component_text (Normal s) = s"
| "component_text _ = []"

lemma component_eq_iff:
  "c = d \<longleftrightarrow> component_rank c = component_rank d \<and> component_text c = component_text d"
  by (cases c; cases d) auto

instantiation component :: linorder
begin

definition less_eq_component :: "component \<Rightarrow> component \<Rightarrow> bool" where
  "less_eq_component c d \<longleftrightarrow>
     component_rank c < component_rank d \<or>
     component_rank c = component_rank d \<and> component_text c \<le> component_text d"

definition less_component :: "component \<Rightarrow> component \<Rightarrow> bool" where
  "less_component c d \<longleftrightarrow> c \<le> d \<and> c \<noteq> (d :: component)"

instance
proof
  fix x y z :: component
  show "(x < y) = (x \<le> y \<and> \<not> y \<le> x)"
    by (auto simp: less_component_def less_eq_component_def component_eq_iff)
  show "x \<le> x"
    by (simp add: less_eq_component_def)
  show "x \<le> y \<Longrightarrow> y \<le> z \<Longrightarrow> x \<le> z"
    by (auto simp: less_eq_component_def)
  show "x \<le> y \<Longrightarrow> y \<le> x \<Longrightarrow> x = y"
    by (auto simp: less_eq_component_def component_eq_iff)
  show "x \<le> y \<or> y \<le> x"
    by (auto simp: less_eq_component_def)
qed

end

section \<open>Parts and components\<close>

lemma split_slash_ne [simp]: "split_slash p \<noteq> []"
  by (induction p) (auto split: list.splits)

lemma split_slash_append: "split_slash (d @ CHR ''/'' # s) = split_slash d @ split_slash s"
  by (induction d) (auto split: list.splits)

lemma split_slash_plain: "CHR ''/'' \<notin> set n \<Longrightarrow> split_slash n = [n]"
  by (induction n) auto

lemma join_split [simp]: "join_slash (split_slash p) = p"
proof (induction p)
  case Nil
  then show ?case by simp
next
  case (Cons c p)
  then show ?case
    by (cases "split_slash p"; cases "tl (split_slash p)") auto
qed

lemma split_slash_no_slash: "w \<in> set (split_slash p) \<Longrightarrow> CHR ''/'' \<notin> set w"
  by (induction p arbitrary: w) (auto split: if_splits list.splits)

lemma tagged_parts_append:
  assumes "d \<noteq> []"
  shows "tagged_parts (d @ CHR ''/'' # s) = tagged_parts d @ map tag_part (split_slash s)"
proof -
  obtain w ws where "split_slash d = w # ws"
    by (cases "split_slash d") auto
  moreover have "has_root (d @ CHR ''/'' # s) = has_root d"
    using assms by (cases d) (auto simp: has_root_def)
  ultimately show ?thesis
    by (simp add: tagged_parts_def split_slash_append first_component_def)
qed

lemma tagged_parts_root: "tagged_parts (CHR ''/'' # s) = ([], Some RootDir) # map tag_part (split_slash s)"
  by (simp add: tagged_parts_def first_component_def has_root_def)

lemma map_filter_append: "List.map_filter f (xs @ ys) = List.map_filter f xs @ List.map_filter f ys"
  by (simp add: map_filter_def)

lemma components_append:
  assumes "d \<noteq> []"
  shows "components (d @ CHR ''/'' # s) = components d @ List.map_filter part_component (split_slash s)"
proof -
  have "List.map_filter snd (map tag_part ws) = List.map_filter part_component ws" for ws
    by (induction ws) (auto simp: map_filter_def tag_part_def)
  then show ?thesis
    by (simp add: components_def tagged_parts_append [OF assms] map_filter_append)
qed

lemma components_root:
  "components (CHR ''/'' # s) = RootDir # List.map_filter part_component (split_slash s)"
proof -
  have "List.map_filter snd (map tag_part ws) = List.map_filter part_component ws" for ws
    by (induction ws) (auto simp: map_filter_def tag_part_def)
  then show ?thesis
    by (simp add: components_def tagged_parts_root map_filter_simps)
qed

lemma components_plain:
  "plain_name n \<Longrightarrow> components n = [Normal n]"
  by (cases n)
    (auto simp: plain_name_def components_def tagged_parts_def split_slash_plain
      first_component_def has_root_def part_component_def map_filter_simps split: if_splits)

lemma split_slash_plain_name: "plain_name n \<Longrightarrow> split_slash n = [n]"
  by (simp add: plain_name_def split_slash_plain)

lemma components_join [fw_path]:
  assumes "plain_name n"
  shows "components (path_join d n) = components d @ [Normal n]"
proof -
  have n: "List.map_filter part_component (split_slash n) = [Normal n]"
    using assms
    by (auto simp: split_slash_plain_name part_component_def plain_name_def map_filter_simps)
  have r: "\<not> has_root n"
    using assms by (cases n) (auto simp: has_root_def plain_name_def)
  show ?thesis
  proof (cases "d = []")
    case True
    then show ?thesis
      using r assms by (simp add: path_join_def components_plain)
        (simp add: components_def tagged_parts_def first_component_def has_root_def
          part_component_def map_filter_simps)
  next
    case False
    show ?thesis
    proof (cases "last d = CHR ''/''")
      case True
      then obtain d' where d: "d = d' @ [CHR ''/'']"
        using False by (metis append_butlast_last_id)
      have "List.map_filter part_component (split_slash []) = []"
        by (simp add: part_component_def map_filter_simps)
      then show ?thesis
        using d r n components_append [of d' "[]"] components_append [of d' n]
          components_root [of "[]"] components_root [of n]
        by (cases "d' = []") (simp_all add: path_join_def)
    next
      case False
      then show ?thesis
        using \<open>d \<noteq> []\<close> r n by (simp add: path_join_def components_append)
    qed
  qed
qed

lemma length_path_join:
  assumes "plain_name n"
  shows "length d < length (path_join d n)"
proof -
  have "\<not> has_root n" "n \<noteq> []"
    using assms by (cases n; auto simp: has_root_def plain_name_def)+
  then show ?thesis by (auto simp: path_join_def)
qed

section \<open>Prefixes\<close>

lemma path_eq_refl [simp]: "path_eq p p"
  by (simp add: path_eq_def)

lemma path_eq_sym: "path_eq p q \<Longrightarrow> path_eq q p"
  by (simp add: path_eq_def)

lemma path_eq_trans: "path_eq p q \<Longrightarrow> path_eq q r \<Longrightarrow> path_eq p r"
  by (simp add: path_eq_def)

lemma starts_with_refl [simp]: "starts_with p p"
  by (simp add: starts_with_def)

lemma starts_with_trans: "starts_with p q \<Longrightarrow> starts_with q r \<Longrightarrow> starts_with p r"
  unfolding starts_with_def by (rule prefix_order.trans)

lemma starts_with_antisym: "starts_with p q \<Longrightarrow> starts_with q p \<Longrightarrow> path_eq p q"
  unfolding starts_with_def path_eq_def by (rule prefix_order.antisym)

lemma path_eq_starts_with: "path_eq p q \<Longrightarrow> starts_with p q"
  by (simp add: path_eq_def starts_with_def)

lemma starts_with_join [fw_path]: "plain_name n \<Longrightarrow> starts_with (path_join d n) d"
  by (simp add: starts_with_def components_join)

lemma starts_with_join_iff:
  "plain_name n \<Longrightarrow>
   starts_with (path_join d n) b \<longleftrightarrow> starts_with d b \<or> components b = components d @ [Normal n]"
  by (auto simp: starts_with_def components_join)

text \<open>Both prefixes of one path: one of them is a prefix of the other.\<close>

lemma starts_with_linear:
  "starts_with p a \<Longrightarrow> starts_with p b \<Longrightarrow> starts_with a b \<or> starts_with b a"
  unfolding starts_with_def by (rule prefix_same_cases) auto

lemma drop_components_Some_iff:
  "(\<exists>r. drop_components cs ts = Some r) \<longleftrightarrow> prefix cs (List.map_filter snd ts)"
  by (induction cs ts rule: drop_components.induct) (auto simp: map_filter_simps)

lemma strip_prefix_None_iff: "strip_prefix p base = None \<longleftrightarrow> \<not> starts_with p base"
  using drop_components_Some_iff [of "components base" "tagged_parts p"]
  by (cases "drop_components (components base) (tagged_parts p)")
    (auto simp: strip_prefix_def starts_with_def components_def)

lemma drop_components_append:
  "List.map_filter snd ts = cs \<Longrightarrow>
   \<exists>us. drop_components cs (ts @ rs) = Some (us @ rs) \<and> (\<forall>u \<in> set us. snd u = None)"
proof (induction cs ts rule: drop_components.induct)
  case (1 ts)
  then have "\<forall>u \<in> set ts. snd u = None"
    by (induction ts) (auto simp: map_filter_simps split: option.splits)
  then show ?case by auto
next
  case (2 c cs)
  then show ?case by (simp add: map_filter_simps)
next
  case (3 c cs w ts)
  then show ?case by (simp add: map_filter_simps)
next
  case (4 c cs w d ts)
  then show ?case by (simp add: map_filter_simps)
qed

lemma tagged_parts_join:
  assumes "plain_name n"
  shows "\<exists>ts. tagged_parts (path_join d n) = ts @ [(n, Some (Normal n))] \<and>
              List.map_filter snd ts = components d"
proof -
  have tag: "map tag_part (split_slash n) = [(n, Some (Normal n))]"
    using assms
    by (auto simp: split_slash_plain_name tag_part_def part_component_def plain_name_def)
  have r: "\<not> has_root n" "n \<noteq> []" "n \<noteq> ''.''"
    using assms by (cases n; auto simp: has_root_def plain_name_def)+
  have e: "components [] = []"
    by (simp add: components_def tagged_parts_def first_component_def has_root_def
        part_component_def map_filter_simps)
  consider (empty) "d = []" | (slash) d' where "d = d' @ [CHR ''/'']"
    | (other) "d \<noteq> []" "last d \<noteq> CHR ''/''"
    by (metis append_butlast_last_id)
  then show ?thesis
  proof cases
    case empty
    have "tagged_parts n = [] @ [(n, Some (Normal n))]"
      using assms r
      by (auto simp: tagged_parts_def split_slash_plain_name first_component_def
          part_component_def plain_name_def)
    then show ?thesis
      using empty r e by (auto simp: path_join_def map_filter_simps)
  next
    case slash
    show ?thesis
    proof (cases "d' = []")
      case True
      then show ?thesis
        using slash r tag components_root [of "[]"]
        by (auto simp: path_join_def tagged_parts_root part_component_def map_filter_simps)
    next
      case False
      have "List.map_filter snd (tagged_parts d') = components d"
        using False slash components_append [of d' "[]"]
        by (simp add: components_def part_component_def map_filter_simps)
      then show ?thesis
        using False slash r tag tagged_parts_append [OF False, of n]
        by (auto simp: path_join_def)
    qed
  next
    case other
    then show ?thesis
      using r tag tagged_parts_append [of d n]
      by (auto simp: path_join_def components_def)
  qed
qed

lemma strip_prefix_join [fw_path]:
  assumes "plain_name n"
  shows "strip_prefix (path_join d n) d = Some n"
proof -
  obtain ts where ts: "tagged_parts (path_join d n) = ts @ [(n, Some (Normal n))]"
    and "List.map_filter snd ts = components d"
    using tagged_parts_join [OF assms] by blast
  then obtain us where us: "drop_components (components d) (ts @ [(n, Some (Normal n))])
      = Some (us @ [(n, Some (Normal n))])" and none: "\<forall>u \<in> set us. snd u = None"
    using drop_components_append by blast
  have "dropWhile (\<lambda>t. snd t = None) (us @ [(n, Some (Normal n))]) = [(n, Some (Normal n))]"
    using none by simp
  then show ?thesis
    using us ts by (simp add: strip_prefix_def trim_right_def trim_left_def untag_def)
qed

lemma file_name_join [fw_path]: "plain_name n \<Longrightarrow> file_name (path_join d n) = Some n"
  by (simp add: file_name_def components_join)

lemma path_join_inj_components:
  "plain_name m \<Longrightarrow> plain_name n \<Longrightarrow>
   components (path_join d m) = components (path_join e n) \<longleftrightarrow> components d = components e \<and> m = n"
  by (auto simp: components_join)

end
