(* ===== verification/FW_Text.thy ===== *)
theory FW_Text
  imports FW_Prelude "HOL-Library.Sublist"
begin

text \<open>
  Text as the Rust standard library handles it: the lossy UTF-8 decoding behind
  \<open>Path::display().to_string()\<close>, \<open>to_string_lossy\<close> and \<open>from_utf8_lossy\<close>, decimal
  rendering and parsing of integers, \<open>trim\<close> and \<open>str::split\<close>. A Rust \<open>String\<close> is the
  list of its UTF-8 bytes.
\<close>

section \<open>Lossy UTF-8\<close>

abbreviation byte :: "char \<Rightarrow> nat" where
  "byte c \<equiv> of_char c"

definition in_range :: "nat \<Rightarrow> nat \<Rightarrow> string \<Rightarrow> bool" where
  "in_range lo hi s = (case s of [] \<Rightarrow> False | c # _ \<Rightarrow> lo \<le> byte c \<and> byte c \<le> hi)"

abbreviation continuation :: "string \<Rightarrow> bool" where
  "continuation s \<equiv> in_range 128 191 s"

text \<open>
  One step of the decoder on a non-empty rest: whether a well-formed character starts there,
  and how many bytes it has; otherwise the length of the maximal prefix of a character,
  which is what one replacement character stands for.
\<close>

definition second_ok :: "nat \<Rightarrow> string \<Rightarrow> bool" where
  "second_ok b s =
     (if b = 224 then in_range 160 191 s
      else if b = 237 then in_range 128 159 s
      else if b = 240 then in_range 144 191 s
      else if b = 244 then in_range 128 143 s
      else continuation s)"

definition utf8_step :: "string \<Rightarrow> bool \<times> nat" where
  "utf8_step s =
     (case s of [] \<Rightarrow> (True, 0)
      | c # r \<Rightarrow>
        (let b = byte c in
         if b < 128 then (True, 1)
         else if 194 \<le> b \<and> b \<le> 223 then (if second_ok b r then (True, 2) else (False, 1))
         else if 224 \<le> b \<and> b \<le> 239 then
           (if \<not> second_ok b r then (False, 1)
            else if \<not> continuation (drop 1 r) then (False, 2) else (True, 3))
         else if 240 \<le> b \<and> b \<le> 244 then
           (if \<not> second_ok b r then (False, 1)
            else if \<not> continuation (drop 1 r) then (False, 2)
            else if \<not> continuation (drop 2 r) then (False, 3) else (True, 4))
         else (False, 1)))"

text \<open>U+FFFD in UTF-8.\<close>

definition replacement :: string where
  "replacement = [CHR 0xEF, CHR 0xBF, CHR 0xBD]"

lemma utf8_step_pos: "s \<noteq> [] \<Longrightarrow> 0 < snd (utf8_step s)"
  by (auto simp: utf8_step_def Let_def split: list.splits)

function from_utf8_lossy :: "string \<Rightarrow> string" where
  "from_utf8_lossy s =
     (if s = [] then []
      else (let (ok, k) = utf8_step s in
            (if ok then take k s else replacement) @ from_utf8_lossy (drop k s)))"
  by pat_completeness auto
termination
proof (relation "measure length")
  fix s :: string and x :: "bool \<times> nat" and ok :: bool and k :: nat
  assume "s \<noteq> []" and "x = utf8_step s" and "(ok, k) = x"
  then have "0 < k" using utf8_step_pos [of s] by (metis snd_conv)
  with \<open>s \<noteq> []\<close> show "(drop k s, s) \<in> measure length" by (cases s) auto
qed auto

declare from_utf8_lossy.simps [simp del]

function valid_utf8 :: "string \<Rightarrow> bool" where
  "valid_utf8 s =
     (if s = [] then True
      else (let (ok, k) = utf8_step s in ok \<and> valid_utf8 (drop k s)))"
  by pat_completeness auto
termination
proof (relation "measure length")
  fix s :: string and x :: "bool \<times> nat" and ok :: bool and k :: nat
  assume "s \<noteq> []" and "x = utf8_step s" and "(ok, k) = x"
  then have "0 < k" using utf8_step_pos [of s] by (metis snd_conv)
  with \<open>s \<noteq> []\<close> show "(drop k s, s) \<in> measure length" by (cases s) auto
qed auto

declare valid_utf8.simps [simp del]

text \<open>\<open>p.display().to_string()\<close>\<close>

definition display :: "string \<Rightarrow> string" where
  "display p = from_utf8_lossy p"

lemma utf8_step_length: "utf8_step s = (True, k) \<Longrightarrow> k \<le> length s"
  by (auto simp: utf8_step_def second_ok_def in_range_def Let_def
      split: list.splits if_splits)

lemma utf8_step_append:
  assumes "utf8_step s = (True, k)" and "s \<noteq> []"
  shows "utf8_step (s @ t) = (True, k)"
  using assms
  by (cases s)
    (auto simp: utf8_step_def second_ok_def in_range_def Let_def drop_Cons'
      split: list.splits if_splits)

lemma valid_utf8_Nil [simp]: "valid_utf8 []"
  by (simp add: valid_utf8.simps)

lemma from_utf8_lossy_Nil [simp]: "from_utf8_lossy [] = []"
  by (simp add: from_utf8_lossy.simps)

lemma from_utf8_lossy_valid: "valid_utf8 s \<Longrightarrow> from_utf8_lossy s = s"
proof (induction s rule: from_utf8_lossy.induct)
  case (1 s)
  show ?case
  proof (cases "s = []")
    case True
    then show ?thesis by simp
  next
    case False
    obtain ok k where step: "utf8_step s = (ok, k)" by fastforce
    with "1.prems" False have "ok" "valid_utf8 (drop k s)"
      by (subst (asm) valid_utf8.simps, simp)+
    then show ?thesis
      using "1.IH" [OF False step [symmetric] refl] step False
      by (subst from_utf8_lossy.simps) simp
  qed
qed

lemma valid_utf8_append:
  "valid_utf8 s \<Longrightarrow> valid_utf8 t \<Longrightarrow> valid_utf8 (s @ t)"
proof (induction s rule: valid_utf8.induct)
  case (1 s)
  show ?case
  proof (cases "s = []")
    case True
    then show ?thesis using "1.prems" by simp
  next
    case False
    obtain ok k where step: "utf8_step s = (ok, k)" by fastforce
    with "1.prems"(1) False have ok: "ok" "valid_utf8 (drop k s)"
      by (subst (asm) valid_utf8.simps, simp)+
    have k: "k \<le> length s" and st: "utf8_step (s @ t) = (True, k)"
      using ok step utf8_step_length utf8_step_append False by auto
    have "valid_utf8 (drop k s @ t)"
      using "1.IH" [OF False step [symmetric] refl] ok "1.prems" by simp
    then show ?thesis
      using False st k by (subst valid_utf8.simps) simp
  qed
qed

lemma in_range_take: "0 < n \<Longrightarrow> in_range lo hi (take n r) = in_range lo hi r"
  by (cases r; cases n) (auto simp: in_range_def)

lemma second_ok_take: "0 < n \<Longrightarrow> second_ok b (take n r) = second_ok b r"
  by (simp add: second_ok_def in_range_take)

lemma utf8_step_take:
  assumes "utf8_step s = (True, k)"
  shows "utf8_step (take k s) = (True, k)"
proof (cases s)
  case Nil
  with assms show ?thesis by (simp add: utf8_step_def)
next
  case (Cons c r)
  with assms show ?thesis
    by (auto simp: utf8_step_def Let_def take_Cons' drop_take in_range_take second_ok_take
        split: if_splits)
qed

lemma valid_utf8_single:
  assumes "utf8_step s = (True, k)"
  shows "valid_utf8 (take k s)"
  using utf8_step_take [OF assms] utf8_step_length [OF assms]
  by (subst valid_utf8.simps) auto

lemma valid_utf8_replacement: "valid_utf8 replacement"
  by code_simp

lemma valid_utf8_lossy: "valid_utf8 (from_utf8_lossy s)"
proof (induction s rule: from_utf8_lossy.induct)
  case (1 s)
  show ?case
  proof (cases "s = []")
    case True
    then show ?thesis by simp
  next
    case False
    obtain ok k where step: "utf8_step s = (ok, k)" by fastforce
    have "valid_utf8 (if ok then take k s else replacement)"
      using step valid_utf8_single valid_utf8_replacement by auto
    moreover have "valid_utf8 (from_utf8_lossy (drop k s))"
      using "1.IH" False step by metis
    ultimately show ?thesis
      using False step by (subst from_utf8_lossy.simps) (auto intro: valid_utf8_append)
  qed
qed

lemma from_utf8_lossy_idem: "from_utf8_lossy (from_utf8_lossy s) = from_utf8_lossy s"
  by (rule from_utf8_lossy_valid [OF valid_utf8_lossy])

definition ascii :: "string \<Rightarrow> bool" where
  "ascii s = list_all (\<lambda>c. byte c < 128) s"

lemma ascii_valid_utf8: "ascii s \<Longrightarrow> valid_utf8 s"
proof (induction s)
  case Nil
  then show ?case by simp
next
  case (Cons c s)
  then show ?case
    by (subst valid_utf8.simps) (simp add: ascii_def utf8_step_def)
qed

lemma display_ascii [simp]: "ascii p \<Longrightarrow> display p = p"
  by (simp add: display_def from_utf8_lossy_valid ascii_valid_utf8)

section \<open>Decimal integers\<close>

definition digit_char :: "nat \<Rightarrow> char" where
  "digit_char d = char_of (48 + d)"

function show_nat :: "nat \<Rightarrow> string" where
  "show_nat n = (if n < 10 then [digit_char n] else show_nat (n div 10) @ [digit_char (n mod 10)])"
  by pat_completeness auto
termination
  by (relation "measure id") auto

declare show_nat.simps [simp del]

definition is_digit :: "char \<Rightarrow> bool" where
  "is_digit c \<longleftrightarrow> 48 \<le> byte c \<and> byte c \<le> 57"

definition digit_val :: "char \<Rightarrow> nat" where
  "digit_val c = byte c - 48"

text \<open>The digits of \<open>from_str_radix\<close>: at least one digit, nothing else.\<close>

definition parse_digits :: "string \<Rightarrow> nat option" where
  "parse_digits s =
     (if s \<noteq> [] \<and> list_all is_digit s
      then Some (foldl (\<lambda>n c. 10 * n + digit_val c) 0 s) else None)"

text \<open>
  \<open>str::parse\<close> for an unsigned type of the given width and for a signed one: one leading plus
  is accepted, a minus for signed types only, a value out of range is an error.
\<close>

definition parse_unsigned :: "nat \<Rightarrow> string \<Rightarrow> nat option" where
  "parse_unsigned w s =
     (let ds = (case s of [] \<Rightarrow> [] | c # r \<Rightarrow> if c = CHR ''+'' then r else s)
      in (case parse_digits ds of None \<Rightarrow> None
          | Some n \<Rightarrow> if n < 2 ^ w then Some n else None))"

definition parse_signed :: "nat \<Rightarrow> string \<Rightarrow> int option" where
  "parse_signed w s =
     (case s of [] \<Rightarrow> None
      | c # r \<Rightarrow>
        if c = CHR ''-'' then
          (case parse_digits r of None \<Rightarrow> None
           | Some n \<Rightarrow> if n \<le> 2 ^ (w - 1) then Some (- int n) else None)
        else
          (case parse_digits (if c = CHR ''+'' then r else s) of None \<Rightarrow> None
           | Some n \<Rightarrow> if n < 2 ^ (w - 1) then Some (int n) else None))"

lemma byte_digit_char: "d < 10 \<Longrightarrow> byte (digit_char d) = 48 + d"
  by (simp add: digit_char_def)

lemma is_digit_digit_char [simp]: "d < 10 \<Longrightarrow> is_digit (digit_char d)"
  by (simp add: is_digit_def byte_digit_char)

lemma digit_val_digit_char [simp]: "d < 10 \<Longrightarrow> digit_val (digit_char d) = d"
  by (simp add: digit_val_def byte_digit_char)

lemma show_nat_ne [simp]: "show_nat n \<noteq> []"
  by (subst show_nat.simps) simp

lemma show_nat_digits: "list_all is_digit (show_nat n)"
proof (induction n rule: show_nat.induct)
  case (1 n)
  then show ?case by (subst show_nat.simps) simp
qed

lemma show_nat_value: "foldl (\<lambda>n c. 10 * n + digit_val c) 0 (show_nat n) = n"
proof (induction n rule: show_nat.induct)
  case (1 n)
  then show ?case by (subst show_nat.simps) simp
qed

lemma parse_digits_show: "parse_digits (show_nat n) = Some n"
  by (simp add: parse_digits_def show_nat_digits show_nat_value)

lemma show_nat_head: "hd (show_nat n) \<noteq> CHR ''+'' \<and> hd (show_nat n) \<noteq> CHR ''-''"
proof -
  have "is_digit (hd (show_nat n))"
    using show_nat_digits [of n] by (cases "show_nat n") auto
  then show ?thesis by (auto simp: is_digit_def)
qed

lemma parse_unsigned_show: "parse_unsigned w (show_nat n) = (if n < 2 ^ w then Some n else None)"
  using parse_digits_show [of n] show_nat_head [of n]
  by (cases "show_nat n") (auto simp: parse_unsigned_def)

lemma parse_signed_show:
  "parse_signed w (show_nat n) = (if n < 2 ^ (w - 1) then Some (int n) else None)"
  using parse_digits_show [of n] show_nat_head [of n]
  by (cases "show_nat n") (auto simp: parse_signed_def)

lemma show_nat_inj: "show_nat m = show_nat n \<longleftrightarrow> m = n"
  by (metis show_nat_value)

lemma digit_ascii: "is_digit c \<Longrightarrow> byte c < 128"
  by (simp add: is_digit_def)

lemma show_nat_ascii [simp]: "ascii (show_nat n)"
  using show_nat_digits [of n] by (auto simp: ascii_def list_all_iff digit_ascii)

section \<open>Whitespace and splitting\<close>

definition newline :: string where "newline = [CHR 0x0A]"

text \<open>The characters of the Unicode property \<open>White_Space\<close>, which \<open>trim\<close> and \<open>trim_end\<close> remove.\<close>

definition spaces :: "string list" where
  "spaces =
     map (\<lambda>b. [char_of b]) [10, 9, 11, 12, 13, 32 :: nat] @
     map (\<lambda>b. [CHR 0xC2, char_of b]) [133, 160 :: nat] @
     [[CHR 0xE1, CHR 0x9A, CHR 0x80], [CHR 0xE2, CHR 0x81, CHR 0x9F], [CHR 0xE3, CHR 0x80, CHR 0x80]] @
     map (\<lambda>b. [CHR 0xE2, CHR 0x80, char_of b])
       [128, 129, 130, 131, 132, 133, 134, 135, 136, 137, 138, 168, 169, 175 :: nat]"

lemma spaces_props: "list_all (\<lambda>w. w \<noteq> [] \<and> \<not> is_digit (hd w) \<and> \<not> is_digit (last w)) spaces"
  by code_simp

lemma find_space_ne: "List.find P spaces = Some w \<Longrightarrow> w \<noteq> []"
  using spaces_props by (auto simp: list_all_iff dest: find_SomeD)

function trim_start :: "string \<Rightarrow> string" where
  "trim_start s =
     (case List.find (\<lambda>w. prefix w s) spaces of
        None \<Rightarrow> s
      | Some w \<Rightarrow> trim_start (drop (length w) s))"
  by pat_completeness auto
termination
proof (relation "measure length")
  fix s w
  assume "List.find (\<lambda>w. prefix w s) spaces = Some w"
  then have "w \<noteq> []" and "prefix w s"
    by (auto dest: find_space_ne find_SomeD)
  then show "(drop (length w) s, s) \<in> measure length"
    using prefix_length_le by (cases s) (auto simp: neq_Nil_conv)
qed simp

function trim_end :: "string \<Rightarrow> string" where
  "trim_end s =
     (case List.find (\<lambda>w. suffix w s) spaces of
        None \<Rightarrow> s
      | Some w \<Rightarrow> trim_end (take (length s - length w) s))"
  by pat_completeness auto
termination
proof (relation "measure length")
  fix s w
  assume "List.find (\<lambda>w. suffix w s) spaces = Some w"
  then have "w \<noteq> []" and "suffix w s"
    by (auto dest: find_space_ne find_SomeD)
  then show "(take (length s - length w) s, s) \<in> measure length"
    using suffix_length_le by (cases s) (auto simp: neq_Nil_conv)
qed simp

declare trim_start.simps [simp del] trim_end.simps [simp del]

definition trim :: "string \<Rightarrow> string" where
  "trim s = trim_end (trim_start s)"

fun split_on :: "'a \<Rightarrow> 'a list \<Rightarrow> 'a list list" where
  "split_on x [] = [[]]"
| "split_on x (y # ys) =
     (if x = y then [] # split_on x ys
      else (case split_on x ys of [] \<Rightarrow> [[y]] | w # ws \<Rightarrow> (y # w) # ws))"

fun join_with :: "string \<Rightarrow> string list \<Rightarrow> string" where
  "join_with sep [] = []"
| "join_with sep [w] = w"
| "join_with sep (w # v # ws) = w @ sep @ join_with sep (v # ws)"

text \<open>Digits are left alone, and the line end after them is taken away.\<close>

lemma trim_start_digit:
  assumes "s \<noteq> []" and "is_digit (hd s)"
  shows "trim_start s = s"
proof -
  have "\<not> prefix w s" if "w \<in> set spaces" for w
    using that assms spaces_props by (auto simp: list_all_iff prefix_def)
  then have "List.find (\<lambda>w. prefix w s) spaces = None"
    by (simp add: find_None_iff_all)
  then show ?thesis by (subst trim_start.simps) simp
qed

lemma trim_end_digit:
  assumes "s \<noteq> []" and "is_digit (last s)"
  shows "trim_end s = s"
proof -
  have "\<not> suffix w s" if "w \<in> set spaces" for w
    using that assms spaces_props by (auto simp: list_all_iff suffix_def)
  then have "List.find (\<lambda>w. suffix w s) spaces = None"
    by (simp add: find_None_iff_all)
  then show ?thesis by (subst trim_end.simps) simp
qed

lemma find_suffix_newline: "List.find (\<lambda>w. suffix w (s @ newline)) spaces = Some newline"
proof -
  have "spaces = newline # tl spaces"
    by code_simp
  then show ?thesis
    by (metis find.simps(2) suffixI)
qed

lemma trim_newline:
  assumes "s \<noteq> []" and "list_all is_digit s"
  shows "trim (s @ newline) = s"
proof -
  have ends: "is_digit (hd s)" "is_digit (last s)"
    using assms by (auto simp: list_all_iff)
  have "trim_start (s @ newline) = s @ newline"
    using ends assms(1) by (intro trim_start_digit) auto
  moreover have "trim_end (s @ newline) = trim_end s"
    by (subst trim_end.simps) (simp add: find_suffix_newline)
  ultimately show ?thesis
    using trim_end_digit [OF assms(1) ends(2)] by (simp add: trim_def)
qed

lemma split_on_ne [simp]: "split_on x ys \<noteq> []"
  by (induction ys) (auto split: list.splits)

lemma split_on_member: "w \<in> set (split_on x ys) \<Longrightarrow> x \<notin> set w"
  by (induction ys arbitrary: w) (auto split: if_splits list.splits)

section \<open>Characters\<close>

text \<open>\<open>chars().count()\<close> and \<open>chars().take(n)\<close>: a character is a byte with the bytes that continue it.\<close>

definition continues :: "char \<Rightarrow> bool" where
  "continues c \<longleftrightarrow> 128 \<le> byte c \<and> byte c \<le> 191"

definition char_count :: "string \<Rightarrow> nat" where
  "char_count s = length (filter (\<lambda>c. \<not> continues c) s)"

fun take_chars :: "nat \<Rightarrow> string \<Rightarrow> string" where
  "take_chars n [] = []"
| "take_chars n (c # s) =
     (if continues c then c # take_chars n s
      else (case n of 0 \<Rightarrow> [] | Suc m \<Rightarrow> c # take_chars m s))"

lemma char_count_append [simp]: "char_count (s @ t) = char_count s + char_count t"
  by (simp add: char_count_def)

lemma take_chars_prefix: "prefix (take_chars n s) s"
  by (induction n s rule: take_chars.induct) (auto split: nat.splits)

lemma char_count_take_chars: "char_count (take_chars n s) = min n (char_count s)"
  by (induction n s rule: take_chars.induct) (auto simp: char_count_def split: nat.splits)

lemma char_count_ascii: "ascii s \<Longrightarrow> char_count s = length s"
  by (induction s) (auto simp: char_count_def continues_def ascii_def)

end
