(* ===== verification/FW_Files.thy ===== *)
theory FW_Files
  imports FW_Path FW_Text
begin

text \<open>
  The files of \<open>std::fs\<close> that the programs read and replace. A file map gives the content of
  each file by the components of its path. A write that is made in several steps is modelled
  by the list of file maps the disk passes through, so that a crash, or a reader in another
  process, may see any of them.
\<close>

section \<open>File maps\<close>

type_synonym file_map = "component list \<Rightarrow> string option"

definition read_to_string :: "file_map \<Rightarrow> path \<Rightarrow> string io_result" where
  "read_to_string fm p =
     (case fm (components p) of
        None \<Rightarrow> Inl NotFound
      | Some t \<Rightarrow> if valid_utf8 t then Inr t else Inl InvalidData)"

definition put_file :: "path \<Rightarrow> string \<Rightarrow> file_map \<Rightarrow> file_map" where
  "put_file p t fm = fm(components p \<mapsto> t)"

definition rename_file :: "path \<Rightarrow> path \<Rightarrow> file_map \<Rightarrow> file_map" where
  "rename_file p q fm =
     (if components p = components q then fm
      else fm(components p := None, components q := fm (components p)))"

text \<open>
  What the kernel answers to the calls of one write: the file may not be created, the data may
  be cut short, or everything may be written.
\<close>

datatype write_outcome =
    CreateFails io_kind
  | WriteFails nat io_kind
  | WriteOk

text \<open>\<open>fs::write\<close> truncates the file, then appends the data; every prefix can be seen.\<close>

definition write_states :: "path \<Rightarrow> string \<Rightarrow> nat \<Rightarrow> file_map \<Rightarrow> file_map list" where
  "write_states p t k fm = map (\<lambda>i. put_file p (take i t) fm) [0..<Suc k]"

definition fs_write :: "write_outcome \<Rightarrow> path \<Rightarrow> string \<Rightarrow> file_map \<Rightarrow> unit io_result \<times> file_map list" where
  "fs_write w p t fm =
     (case w of
        CreateFails e \<Rightarrow> (Inl e, [])
      | WriteFails k e \<Rightarrow> (Inl e, write_states p t (min k (length t)) fm)
      | WriteOk \<Rightarrow> (Inr (), write_states p t (length t) fm))"

lemma write_states_ne [simp]: "write_states p t k fm \<noteq> []"
  by (simp add: write_states_def)

lemma last_write_states [simp]: "last (write_states p t k fm) = put_file p (take k t) fm"
  by (simp add: write_states_def)

lemma write_states_other:
  "st \<in> set (write_states p t k fm) \<Longrightarrow> c \<noteq> components p \<Longrightarrow> st c = fm c"
  by (auto simp: write_states_def put_file_def)

lemma fs_write_other:
  "st \<in> set (snd (fs_write w p t fm)) \<Longrightarrow> c \<noteq> components p \<Longrightarrow> st c = fm c"
  by (auto simp: fs_write_def dest: write_states_other split: write_outcome.splits)

lemma read_put_same: "valid_utf8 t \<Longrightarrow> read_to_string (put_file p t fm) p = Inr t"
  by (simp add: read_to_string_def put_file_def)

lemma read_to_string_cong: "fm (components p) = fm' (components p) \<Longrightarrow>
  read_to_string fm p = read_to_string fm' p"
  by (simp add: read_to_string_def)

end
