(* ===== verification/FW_Rules.thy ===== *)
theory FW_Rules
  imports FW_Files
begin

text \<open>
  The learned rules (\<open>filewall-rules/src/lib.rs\<close>): the rule schema, the matcher, the
  deny-wins evaluation, the allocation of stable ids, and the store in \<open>rules.toml\<close> with
  its atomic replacement. The TOML encoder and decoder are parameters.
\<close>

section \<open>Rules and the rule set\<close>

datatype rule_action = RuleAllow | RuleDeny

datatype object_kind = KindFile | KindTree

record learned_rule =
  lr_id :: u64
  lr_created_unix :: u64
  lr_action :: rule_action
  lr_exe :: string
  lr_object :: path
  lr_object_kind :: object_kind
  lr_cwd :: "string option"

record rules =
  rs_next_id :: u64
  rs_rules :: "learned_rule list"

definition rules_default :: rules where
  "rules_default = \<lparr>rs_next_id = 0, rs_rules = []\<rparr>"

section \<open>Matching and evaluation\<close>

definition rule_matches :: "learned_rule \<Rightarrow> path \<Rightarrow> string \<Rightarrow> string option \<Rightarrow> bool" where
  "rule_matches r path exe cwd =
     (if lr_exe r \<noteq> exe then False
      else
        (let object_ok =
           (case lr_object_kind r of
              KindFile \<Rightarrow> path_eq path (lr_object r)
            | KindTree \<Rightarrow> starts_with path (lr_object r))
         in if \<not> object_ok then False
            else (case lr_cwd r of None \<Rightarrow> True | Some rule_cwd \<Rightarrow> cwd = Some rule_cwd)))"

fun evaluate_loop :: "bool \<Rightarrow> learned_rule list \<Rightarrow> path \<Rightarrow> string \<Rightarrow> string option \<Rightarrow> rule_action option" where
  "evaluate_loop allow [] path exe cwd = (if allow then Some RuleAllow else None)"
| "evaluate_loop allow (r # rs) path exe cwd =
     (if rule_matches r path exe cwd
      then (case lr_action r of
              RuleDeny \<Rightarrow> Some RuleDeny
            | RuleAllow \<Rightarrow> evaluate_loop True rs path exe cwd)
      else evaluate_loop allow rs path exe cwd)"

definition rules_evaluate :: "rules \<Rightarrow> path \<Rightarrow> string \<Rightarrow> string option \<Rightarrow> rule_action option" where
  "rules_evaluate rs path exe cwd = evaluate_loop False (rs_rules rs) path exe cwd"

section \<open>Stable ids\<close>

definition alloc_id :: "rules \<Rightarrow> u64 \<times> rules" where
  "alloc_id rs = (let id = max (rs_next_id rs) 1 in (id, rs\<lparr>rs_next_id := id + 1\<rparr>))"

definition rules_push :: "learned_rule \<Rightarrow> rules \<Rightarrow> rules" where
  "rules_push rule rs =
     (let (id, rs') = alloc_id rs
      in rs'\<lparr>rs_rules := rs_rules rs' @ [rule\<lparr>lr_id := id\<rparr>]\<rparr>)"

fun backfill_loop :: "u64 \<Rightarrow> learned_rule list \<Rightarrow> u64 \<times> learned_rule list" where
  "backfill_loop next [] = (next, [])"
| "backfill_loop next (r # rs) =
     (if lr_id r = 0
      then (let (next', rs') = backfill_loop (next + 1) rs in (next', r\<lparr>lr_id := next\<rparr> # rs'))
      else (let (next', rs') = backfill_loop next rs in (next', r # rs')))"

definition max_id :: "learned_rule list \<Rightarrow> u64" where
  "max_id rs = foldl max 0 (map lr_id rs)"

definition backfill_ids :: "rules \<Rightarrow> rules" where
  "backfill_ids rs =
     (let next = max (rs_next_id rs) (max_id (rs_rules rs) + 1);
          (next', rs') = backfill_loop next (rs_rules rs)
      in \<lparr>rs_next_id = next', rs_rules = rs'\<rparr>)"

section \<open>The store\<close>

definition rules_load :: "(string \<Rightarrow> rules option) \<Rightarrow> file_map \<Rightarrow> path \<Rightarrow> rules" where
  "rules_load from_toml fm path =
     (case read_to_string fm path of
        Inl _ \<Rightarrow> rules_default
      | Inr text \<Rightarrow>
          (case from_toml text of
             Some rs \<Rightarrow> backfill_ids rs
           | None \<Rightarrow> rules_default))"

text \<open>The answers of the kernel and of the clock during one \<open>save_atomic\<close>.\<close>

record save_env =
  se_mkdir :: "io_kind option"
  se_write :: write_outcome
  se_rename :: "io_kind option"
  se_pid :: u32
  se_secs :: u64
  se_nanos :: u32

definition tmp_name :: "save_env \<Rightarrow> string" where
  "tmp_name env =
     ''.rules.'' @ show_nat (unat (se_pid env)) @ ''.'' @ show_nat (unat (se_secs env)) @ ''.'' @
     show_nat (unat (se_nanos env)) @ ''.tmp''"

definition save_dir :: "path \<Rightarrow> path" where
  "save_dir path = (case parent path of None \<Rightarrow> ''.'' | Some d \<Rightarrow> d)"

definition save_tmp :: "save_env \<Rightarrow> path \<Rightarrow> path" where
  "save_tmp env path = path_join (save_dir path) (tmp_name env)"

text \<open>
  The result, and the file maps the disk passes through, the last of which is the one the call
  leaves behind (none: the disk was not touched).
\<close>

definition save_atomic ::
    "(rules \<Rightarrow> string option) \<Rightarrow> save_env \<Rightarrow> rules \<Rightarrow> path \<Rightarrow> file_map \<Rightarrow> unit io_result \<times> file_map list" where
  "save_atomic to_toml env rs path fm =
     (case to_toml rs of
        None \<Rightarrow> (Inl InvalidData, [])
      | Some body \<Rightarrow>
          (case se_mkdir env of
             Some e \<Rightarrow> (Inl e, [])
           | None \<Rightarrow>
               (let tmp = save_tmp env path;
                    (written, states) = fs_write (se_write env) tmp body fm
                in (case written of
                      Inl e \<Rightarrow> (Inl e, states)
                    | Inr _ \<Rightarrow>
                        (case se_rename env of
                           Some e \<Rightarrow> (Inl e, states)
                         | None \<Rightarrow> (Inr (), states @ [rename_file tmp path (last states)]))))))"

definition after_save :: "unit io_result \<times> file_map list \<Rightarrow> file_map \<Rightarrow> file_map" where
  "after_save r fm = (if snd r = [] then fm else last (snd r))"

section \<open>The well-formed rule sets\<close>

definition rules_inv :: "rules \<Rightarrow> bool" where
  "rules_inv rs \<longleftrightarrow>
     distinct (map lr_id (rs_rules rs)) \<and>
     (\<forall>r \<in> set (rs_rules rs). lr_id r \<noteq> 0 \<and> lr_id r < rs_next_id rs)"

text \<open>Room for \<open>n\<close> more ids before the 64-bit counter would wrap.\<close>

definition id_room :: "nat \<Rightarrow> rules \<Rightarrow> bool" where
  "id_room n rs \<longleftrightarrow> unat (max (rs_next_id rs) 1) + n < 2 ^ 64"

definition unassigned :: "learned_rule list \<Rightarrow> nat" where
  "unassigned rs = length (filter (\<lambda>r. lr_id r = 0) rs)"

section \<open>Matching and evaluation: lemmas\<close>

lemma rule_matches_iff:
  "rule_matches r path exe cwd \<longleftrightarrow>
     lr_exe r = exe \<and>
     (case lr_object_kind r of
        KindFile \<Rightarrow> path_eq path (lr_object r)
      | KindTree \<Rightarrow> starts_with path (lr_object r)) \<and>
     (lr_cwd r = None \<or> lr_cwd r = cwd)"
  by (cases "lr_object_kind r") (auto simp: rule_matches_def split: option.splits)

lemma rule_matches_path_eq:
  "path_eq p q \<Longrightarrow> rule_matches r p exe cwd = rule_matches r q exe cwd"
  by (cases "lr_object_kind r") (simp_all add: rule_matches_iff path_eq_def starts_with_def)

lemma rule_matches_id [simp]: "rule_matches (r\<lparr>lr_id := i\<rparr>) path exe cwd = rule_matches r path exe cwd"
  by (cases "lr_object_kind r") (simp_all add: rule_matches_iff)

lemma evaluate_loop_spec:
  "evaluate_loop allow rs path exe cwd =
     (if \<exists>r \<in> set rs. rule_matches r path exe cwd \<and> lr_action r = RuleDeny then Some RuleDeny
      else if allow \<or> (\<exists>r \<in> set rs. rule_matches r path exe cwd) then Some RuleAllow
      else None)"
proof (induction rs arbitrary: allow)
  case Nil
  then show ?case by simp
next
  case (Cons r rs)
  then show ?case by (cases "lr_action r") auto
qed

lemma rules_evaluate_spec:
  "rules_evaluate rs path exe cwd =
     (if \<exists>r \<in> set (rs_rules rs). rule_matches r path exe cwd \<and> lr_action r = RuleDeny
      then Some RuleDeny
      else if \<exists>r \<in> set (rs_rules rs). rule_matches r path exe cwd then Some RuleAllow
      else None)"
  by (simp add: rules_evaluate_def evaluate_loop_spec)

lemma rules_evaluate_cong:
  assumes "\<And>r. rule_matches r path exe cwd \<Longrightarrow>
             r \<in> set (rs_rules rs) \<longleftrightarrow> r \<in> set (rs_rules rs')"
  shows "rules_evaluate rs path exe cwd = rules_evaluate rs' path exe cwd"
  using assms unfolding rules_evaluate_spec by (auto cong: if_cong) 

section \<open>Ids: lemmas\<close>

lemma max_id_ge: "r \<in> set rs \<Longrightarrow> lr_id r \<le> max_id rs"
proof -
  have ge: "a \<le> foldl max a xs" for a :: u64 and xs
    by (induction xs arbitrary: a) (auto, metis dual_order.trans max.cobounded1)
  have "x \<in> set xs \<Longrightarrow> x \<le> foldl max a xs" for a x :: u64 and xs
  proof (induction xs arbitrary: a)
    case Nil
    then show ?case by simp
  next
    case (Cons y ys)
    then show ?case using ge [of "max a y" ys] by auto
  qed
  then show "r \<in> set rs \<Longrightarrow> ?thesis"
    by (simp add: max_id_def)
qed

lemma u64_suc: "unat (w :: u64) + 1 < 2 ^ 64 \<Longrightarrow> unat (w + 1) = unat w + 1"
  by (simp add: unat_word_ariths)

lemma rules_push_simps:
  "rs_rules (rules_push r rs) = rs_rules rs @ [r\<lparr>lr_id := max (rs_next_id rs) 1\<rparr>]"
  "rs_next_id (rules_push r rs) = max (rs_next_id rs) 1 + 1"
  by (simp_all add: rules_push_def alloc_id_def Let_def)

lemma rules_inv_default [simp]: "rules_inv rules_default"
  by (simp add: rules_inv_def rules_default_def)

lemma fresh_id_next:
  "id_room 1 rs \<Longrightarrow> max (rs_next_id rs) 1 < rs_next_id (rules_push r rs)"
  by (simp add: id_room_def rules_push_simps word_less_nat_alt u64_suc)

lemma rules_inv_push:
  assumes "rules_inv rs" and "id_room 1 rs"
  shows "rules_inv (rules_push r rs)"
proof -
  let ?id = "max (rs_next_id rs) 1"
  have next_: "?id < rs_next_id (rules_push r rs)"
    using assms(2) by (rule fresh_id_next)
  have "?id \<noteq> 0"
    by (metis max.cobounded2 word_le_0_iff zero_neq_one)
  moreover have "\<forall>q \<in> set (rs_rules rs). lr_id q < ?id"
    using assms(1) by (auto simp: rules_inv_def less_max_iff_disj)
  moreover from this have "?id \<notin> lr_id ` set (rs_rules rs)"
    using order.irrefl by fastforce
  moreover have "\<forall>q \<in> set (rs_rules rs). lr_id q < rs_next_id (rules_push r rs)"
    using calculation(2) next_ by (blast intro: order.strict_trans)
  ultimately show ?thesis
    using assms(1) next_ by (auto simp: rules_inv_def rules_push_simps)
qed

lemma backfill_loop_zero [simp]:
  "lr_id r = 0 \<Longrightarrow> fst (backfill_loop n (r # rs)) = fst (backfill_loop (n + 1) rs)"
  "lr_id r = 0 \<Longrightarrow> snd (backfill_loop n (r # rs)) = r\<lparr>lr_id := n\<rparr> # snd (backfill_loop (n + 1) rs)"
  by (simp_all add: case_prod_beta Let_def)

lemma backfill_loop_nonzero [simp]:
  "lr_id r \<noteq> 0 \<Longrightarrow> fst (backfill_loop n (r # rs)) = fst (backfill_loop n rs)"
  "lr_id r \<noteq> 0 \<Longrightarrow> snd (backfill_loop n (r # rs)) = r # snd (backfill_loop n rs)"
  by (simp_all add: case_prod_beta Let_def)

declare backfill_loop.simps(2) [simp del]


lemma backfill_next:
  "unat next + unassigned rs < 2 ^ 64 \<Longrightarrow>
   unat (fst (backfill_loop next rs)) = unat next + unassigned rs"
proof (induction rs arbitrary: "next")
  case Nil
  then show ?case by (simp add: unassigned_def)
next
  case (Cons r rs)
  then show ?case
    using Cons.IH [of "next + 1"] u64_suc [of "next"]
    by (cases "lr_id r = 0") (auto simp: unassigned_def)
qed

lemma backfill_shape:
  "list_all2 (\<lambda>r r'. r' = r\<lparr>lr_id := lr_id r'\<rparr> \<and> (lr_id r \<noteq> 0 \<longrightarrow> r' = r)) rs
     (snd (backfill_loop next rs))"
proof (induction rs arbitrary: "next")
  case Nil
  then show ?case by simp
next
  case (Cons r rs)
  then show ?case by (cases "lr_id r = 0") auto
qed

lemma backfill_ids_source:
  assumes "unat next + unassigned rs < 2 ^ 64" and "q \<in> set (snd (backfill_loop next rs))"
  shows "(\<exists>r \<in> set rs. lr_id r \<noteq> 0 \<and> lr_id q = lr_id r) \<or>
         next \<le> lr_id q \<and> lr_id q < fst (backfill_loop next rs)"
  using assms
proof (induction rs arbitrary: "next")
  case Nil
  then show ?case by simp
next
  case (Cons r rs)
  show ?case
  proof (cases "lr_id r = 0")
    case True
    have room: "unat (next + 1) + unassigned rs < 2 ^ 64" and suc: "next < next + 1"
      using Cons.prems(1) True u64_suc [of "next"]
      by (auto simp: unassigned_def word_less_nat_alt)
    have top: "next < fst (backfill_loop (next + 1) rs)"
      using suc backfill_next [OF room] by (simp add: word_less_nat_alt)
    from Cons.prems(2) True consider "lr_id q = next" | "q \<in> set (snd (backfill_loop (next + 1) rs))"
      by (auto)
    then show ?thesis
    proof cases
      case 1
      then show ?thesis using True top by (auto)
    next
      case 2
      then show ?thesis
        using Cons.IH [OF room 2] True suc by (auto)
    qed
  next
    case False
    then show ?thesis
      using Cons.IH [of "next"] Cons.prems by (auto simp: unassigned_def)
  qed
qed

lemma backfill_distinct:
  assumes "unat next + unassigned rs < 2 ^ 64"
    and "\<forall>r \<in> set rs. lr_id r < next"
    and "distinct (map lr_id (filter (\<lambda>r. lr_id r \<noteq> 0) rs))"
  shows "distinct (map lr_id (snd (backfill_loop next rs)))"
  using assms
proof (induction rs arbitrary: "next")
  case Nil
  then show ?case by simp
next
  case (Cons r rs)
  show ?case
  proof (cases "lr_id r = 0")
    case True
    have room: "unat (next + 1) + unassigned rs < 2 ^ 64" and suc: "next < next + 1"
      using Cons.prems(1) True u64_suc [of "next"]
      by (auto simp: unassigned_def word_less_nat_alt)
    have small: "\<forall>q \<in> set rs. lr_id q < next + 1"
      using Cons.prems(2) suc by (auto intro: order.strict_trans)
    have "lr_id q \<noteq> next" if "q \<in> set (snd (backfill_loop (next + 1) rs))" for q
      using backfill_ids_source [OF room that] Cons.prems(2) suc by auto
    moreover have "distinct (map lr_id (snd (backfill_loop (next + 1) rs)))"
      using Cons.IH [OF room small] Cons.prems(3) True by simp
    ultimately show ?thesis
      using True by (auto)
  next
    case False
    have room: "unat next + unassigned rs < 2 ^ 64"
      using Cons.prems(1) False by (simp add: unassigned_def)
    have "\<forall>q \<in> set (snd (backfill_loop next rs)). lr_id q \<noteq> lr_id r"
    proof
      fix q
      assume "q \<in> set (snd (backfill_loop next rs))"
      then show "lr_id q \<noteq> lr_id r"
        using backfill_ids_source [OF room, of q] Cons.prems(2,3) False by force
    qed
    moreover have "distinct (map lr_id (snd (backfill_loop next rs)))"
      using Cons.IH [OF room] Cons.prems(2,3) False by simp
    ultimately show ?thesis
      using False by (auto)
  qed
qed

lemma backfill_loop_assigned:
  "\<forall>r \<in> set rs. lr_id r \<noteq> 0 \<Longrightarrow> backfill_loop next rs = (next, rs)"
  by (induction rs) (auto simp: backfill_loop.simps(2))

definition backfill_start :: "rules \<Rightarrow> u64" where
  "backfill_start rs = max (rs_next_id rs) (max_id (rs_rules rs) + 1)"

text \<open>The largest id leaves room above it, and so does the counter.\<close>

definition backfill_room :: "rules \<Rightarrow> bool" where
  "backfill_room rs \<longleftrightarrow>
     unat (max_id (rs_rules rs)) + 1 + unassigned (rs_rules rs) < 2 ^ 64 \<and>
     unat (rs_next_id rs) + unassigned (rs_rules rs) < 2 ^ 64"

lemma backfill_ids_eq:
  "backfill_ids rs =
     \<lparr>rs_next_id = fst (backfill_loop (backfill_start rs) (rs_rules rs)),
      rs_rules = snd (backfill_loop (backfill_start rs) (rs_rules rs))\<rparr>"
  by (simp add: backfill_ids_def backfill_start_def case_prod_beta Let_def)

lemma backfill_start_room:
  assumes "backfill_room rs"
  shows "unat (backfill_start rs) + unassigned (rs_rules rs) < 2 ^ 64"
    and "r \<in> set (rs_rules rs) \<Longrightarrow> lr_id r < backfill_start rs"
    and "backfill_start rs \<noteq> 0"
proof -
  let ?m = "max_id (rs_rules rs)"
  have m: "unat (?m + 1) = unat ?m + 1"
    using assms by (intro u64_suc) (simp add: backfill_room_def)
  then show "unat (backfill_start rs) + unassigned (rs_rules rs) < 2 ^ 64"
    using assms by (simp add: backfill_room_def backfill_start_def max_def)
  have le: "?m + 1 \<le> backfill_start rs"
    by (simp add: backfill_start_def)
  then show "backfill_start rs \<noteq> 0"
    using m by (auto simp: word_le_nat_alt)
  assume "r \<in> set (rs_rules rs)"
  then have "lr_id r \<le> ?m" by (rule max_id_ge)
  then show "lr_id r < backfill_start rs"
    using m le by (simp add: word_le_nat_alt word_less_nat_alt)
qed

lemma rules_inv_backfill:
  assumes "backfill_room rs"
    and "distinct (map lr_id (filter (\<lambda>r. lr_id r \<noteq> 0) (rs_rules rs)))"
  shows "rules_inv (backfill_ids rs)"
proof -
  let ?s = "backfill_start rs" and ?rs = "rs_rules rs"
  note start = backfill_start_room [OF assms(1)]
  have top: "?s \<le> fst (backfill_loop ?s ?rs)"
    using backfill_next [OF start(1)] by (simp add: word_le_nat_alt)
  have "lr_id q \<noteq> 0 \<and> lr_id q < fst (backfill_loop ?s ?rs)"
    if "q \<in> set (snd (backfill_loop ?s ?rs))" for q
    using backfill_ids_source [OF start(1) that] start(2,3) top
    by (force simp: word_le_nat_alt word_less_nat_alt unat_eq_0)
  then show ?thesis
    using backfill_distinct [OF start(1) _ assms(2)] start(2)
    by (simp add: rules_inv_def backfill_ids_eq)
qed

lemma backfill_idle:
  assumes "rules_inv rs" and "rs_next_id rs \<noteq> 0"
  shows "backfill_ids rs = rs"
proof -
  have "lr_id r \<noteq> 0 \<and> lr_id r < rs_next_id rs" if "r \<in> set (rs_rules rs)" for r
    using assms(1) that by (simp add: rules_inv_def)
  moreover have "max_id (rs_rules rs) < rs_next_id rs"
  proof -
    have "foldl max a xs < n" if "a < n" "\<forall>x \<in> set xs. x < n" for a n :: u64 and xs
      using that by (induction xs arbitrary: a) auto
    then show ?thesis
      using assms(2) calculation by (simp add: max_id_def word_neq_0_conv)
  qed
  then have "max_id (rs_rules rs) + 1 \<le> rs_next_id rs"
    by (rule inc_le)
  ultimately show ?thesis
    by (simp add: backfill_ids_eq backfill_loop_assigned backfill_start_def max_absorb1)
qed

lemma backfill_next_nonzero:
  assumes "backfill_room rs"
  shows "rs_next_id (backfill_ids rs) \<noteq> 0"
  using backfill_next [OF backfill_start_room(1) [OF assms]] backfill_start_room(3) [OF assms]
  by (auto simp: backfill_ids_eq unat_eq_0)


section \<open>The store: lemmas\<close>

lemma plain_tmp_name: "plain_name (tmp_name env)"
proof -
  have "is_digit c \<Longrightarrow> c \<noteq> CHR ''/''" for c
    by (auto simp: is_digit_def)
  then have "CHR ''/'' \<notin> set (show_nat n)" for n
    using show_nat_digits [of n] by (auto simp: list_all_iff)
  then show ?thesis
    by (simp add: plain_name_def tmp_name_def)
qed

lemma components_save_tmp:
  "components (save_tmp env path) = components (save_dir path) @ [Normal (tmp_name env)]"
  by (simp add: save_tmp_def components_join plain_tmp_name)

lemma save_tmp_apart:
  assumes "file_name path \<noteq> Some (tmp_name env)"
  shows "components (save_tmp env path) \<noteq> components path"
proof
  assume "components (save_tmp env path) = components path"
  then have "file_name path = file_name (save_tmp env path)"
    by (simp add: file_name_def)
  also have "\<dots> = Some (tmp_name env)"
    by (simp add: save_tmp_def file_name_join plain_tmp_name)
  finally show False using assms by simp
qed

lemma save_atomic_cases:
  obtains (no_write) e where "save_atomic to_toml env rs path fm = (Inl e, [])"
    | (failed) e w body where "to_toml rs = Some body" and
        "save_atomic to_toml env rs path fm = (Inl e, snd (fs_write w (save_tmp env path) body fm))"
    | (saved) body where "to_toml rs = Some body" and
        "save_atomic to_toml env rs path fm =
           (Inr (), write_states (save_tmp env path) body (length body) fm @
             [rename_file (save_tmp env path) path (put_file (save_tmp env path) body fm)])"
proof (cases "to_toml rs")
  case None
  then show ?thesis by (auto simp: save_atomic_def intro: no_write)
next
  case (Some body)
  note body = this
  show ?thesis
  proof (cases "se_mkdir env")
    case (Some e)
    with body show ?thesis by (auto simp: save_atomic_def intro: no_write)
  next
    case None
    show ?thesis
    proof (cases "se_write env")
      case WriteOk
      show ?thesis
      proof (cases "se_rename env")
        case (Some e)
        with WriteOk None body show ?thesis
          by (intro failed [of body e WriteOk]) (simp_all add: save_atomic_def fs_write_def Let_def)
      next
        case none: None
        with WriteOk None body show ?thesis
          by (intro saved [of body]) (simp_all add: save_atomic_def fs_write_def Let_def)
      qed
    next
      case (CreateFails e)
      with None body show ?thesis
        by (intro failed [of body e "se_write env"])
          (simp_all add: save_atomic_def fs_write_def Let_def)
    next
      case (WriteFails k e)
      with None body show ?thesis
        by (intro failed [of body e "se_write env"])
          (simp_all add: save_atomic_def fs_write_def Let_def)
    qed
  qed
qed

lemma save_states:
  assumes apart: "file_name path \<noteq> Some (tmp_name env)"
    and st: "st \<in> set (snd (save_atomic to_toml env rs path fm))"
  shows "st (components path) = fm (components path) \<or>
         to_toml rs \<noteq> None \<and> st (components path) = to_toml rs"
    and "c \<noteq> components path \<Longrightarrow> c \<noteq> components (save_tmp env path) \<Longrightarrow> st c = fm c"
proof -
  note neq = save_tmp_apart [OF apart] save_tmp_apart [OF apart, symmetric]
  have "(st (components path) = fm (components path) \<or>
         to_toml rs \<noteq> None \<and> st (components path) = to_toml rs) \<and>
        (c \<noteq> components path \<longrightarrow> c \<noteq> components (save_tmp env path) \<longrightarrow> st c = fm c)"
  proof (cases rule: save_atomic_cases [of to_toml env rs path fm])
    case (no_write e)
    with st show ?thesis by simp
  next
    case (failed e w body)
    then have "st c = fm c" if "c \<noteq> components (save_tmp env path)" for c
      using that st by (simp add: fs_write_other)
    with neq show ?thesis by simp
  next
    case (saved body)
    with st neq show ?thesis
      by (auto simp: rename_file_def put_file_def dest: write_states_other)
  qed
  then show "st (components path) = fm (components path) \<or>
         to_toml rs \<noteq> None \<and> st (components path) = to_toml rs"
    and "c \<noteq> components path \<Longrightarrow> c \<noteq> components (save_tmp env path) \<Longrightarrow> st c = fm c"
    by blast+
qed

lemma save_result:
  assumes "file_name path \<noteq> Some (tmp_name env)"
  shows "after_save (save_atomic to_toml env rs path fm) fm (components path) =
     (if is_ok (fst (save_atomic to_toml env rs path fm)) then to_toml rs
      else fm (components path))"
proof -
  note neq = save_tmp_apart [OF assms] save_tmp_apart [OF assms, symmetric]
  show ?thesis
  proof (cases rule: save_atomic_cases [of to_toml env rs path fm])
    case (no_write e)
    then show ?thesis by (simp add: after_save_def)
  next
    case (failed e w body)
    have "after_save (save_atomic to_toml env rs path fm) fm (components path) = fm (components path)"
      using failed neq by (auto simp: after_save_def intro!: fs_write_other [OF last_in_set])
    then show ?thesis using failed by simp
  next
    case (saved body)
    with neq show ?thesis
      by (auto simp: after_save_def rename_file_def put_file_def)
  qed
qed

lemma load_after_save:
  assumes "file_name path \<noteq> Some (tmp_name env)"
    and "fst (save_atomic to_toml env rs path fm) = Inr ()"
    and "to_toml rs = Some body" and "from_toml body = Some rs" and "valid_utf8 body"
    and "rules_inv rs" and "rs_next_id rs \<noteq> 0"
  shows "rules_load from_toml (after_save (save_atomic to_toml env rs path fm) fm) path = rs"
  using save_result [OF assms(1), of to_toml rs fm] assms(2-)
  by (simp add: rules_load_def read_to_string_def backfill_idle)

section \<open>Properties\<close>

definition demo_rule :: "u64 \<Rightarrow> rule_action \<Rightarrow> path \<Rightarrow> object_kind \<Rightarrow> learned_rule" where
  "demo_rule i act obj kind =
     \<lparr>lr_id = i, lr_created_unix = 0, lr_action = act, lr_exe = ''/bin/cat'', lr_object = obj,
      lr_object_kind = kind, lr_cwd = None\<rparr>"

definition demo_save_env :: save_env where
  "demo_save_env = \<lparr>se_mkdir = None, se_write = WriteOk, se_rename = None, se_pid = 7, se_secs = 1,
     se_nanos = 2\<rparr>"

text \<open>
  The verdict of a rule set is deny as soon as one matching rule denies, else allow as soon as
  one matches, else none; so it does not depend on the order of the rules or on repetitions.
\<close>

theorem deny_wins_in_any_order:
  "rules_evaluate rs path exe cwd =
     (if \<exists>r \<in> set (rs_rules rs). rule_matches r path exe cwd \<and> lr_action r = RuleDeny
      then Some RuleDeny
      else if \<exists>r \<in> set (rs_rules rs). rule_matches r path exe cwd then Some RuleAllow else None) \<and>
   rules_evaluate (rs\<lparr>rs_rules := rev (rs_rules rs)\<rparr>) path exe cwd = rules_evaluate rs path exe cwd \<and>
   rules_evaluate (rs\<lparr>rs_rules := remdups (rs_rules rs)\<rparr>) path exe cwd = rules_evaluate rs path exe cwd"
  by (auto simp: rules_evaluate_spec)

text \<open>
  Adding a rule to a well-formed set keeps it well-formed (ids non-zero, distinct, below the
  counter), gives the rule an id no rule has or had, and leaves the other rules as they are, as
  long as the 64-bit counter has room.
\<close>

theorem push_allocates_fresh_id:
  assumes "rules_inv rs" and "id_room 1 rs"
  shows "rules_inv (rules_push r rs) \<and> rs_next_id rs < rs_next_id (rules_push r rs) \<and>
    (\<exists>q. rs_rules (rules_push r rs) = rs_rules rs @ [q] \<and> q = r\<lparr>lr_id := lr_id q\<rparr> \<and>
       rs_next_id rs \<le> lr_id q \<and> lr_id q \<notin> lr_id ` set (rs_rules rs))"
proof (intro conjI exI)
  show inv: "rules_inv (rules_push r rs)"
    by (rule rules_inv_push [OF assms])
  show "rs_next_id rs < rs_next_id (rules_push r rs)"
    using fresh_id_next [OF assms(2)] by (simp add: less_max_iff_disj max_less_iff_conj)
  show "rs_rules (rules_push r rs) = rs_rules rs @ [r\<lparr>lr_id := max (rs_next_id rs) 1\<rparr>]"
    by (rule rules_push_simps)
  show "lr_id (r\<lparr>lr_id := max (rs_next_id rs) 1\<rparr>) \<notin> lr_id ` set (rs_rules rs)"
    using inv by (simp add: rules_inv_def rules_push_simps)
qed simp_all

theorem push_allocates_fresh_id_witness:
  "rules_inv (rules_push (demo_rule 0 RuleDeny ''/a'' KindFile)
     (rules_push (demo_rule 0 RuleAllow ''/a'' KindTree) rules_default))"
proof -
  have room: "id_room 1 (rules_push (demo_rule 0 RuleAllow ''/a'' KindTree) rules_default)"
    by (simp add: id_room_def rules_push_simps rules_default_def)
  have "rules_inv (rules_push (demo_rule 0 RuleAllow ''/a'' KindTree) rules_default)"
    by (simp add: rules_inv_def rules_push_simps rules_default_def)
  from push_allocates_fresh_id [OF this room] show ?thesis by blast
qed

text \<open>
  C27: backfilling gives every rule without an id one of its own: the result is well-formed when
  the ids that were there are distinct and the counter has room, the rules stay the same apart
  from their ids, assigned ids are kept, and backfilling again changes nothing.
\<close>

theorem backfill_assigns_ids:
  assumes "backfill_room rs" and "distinct (map lr_id (filter (\<lambda>r. lr_id r \<noteq> 0) (rs_rules rs)))"
  shows "rules_inv (backfill_ids rs) \<and> backfill_ids (backfill_ids rs) = backfill_ids rs \<and>
    list_all2 (\<lambda>r q. q = r\<lparr>lr_id := lr_id q\<rparr> \<and> (lr_id r \<noteq> 0 \<longrightarrow> q = r))
      (rs_rules rs) (rs_rules (backfill_ids rs))"
proof (intro conjI)
  show inv: "rules_inv (backfill_ids rs)"
    by (rule rules_inv_backfill [OF assms])
  show "backfill_ids (backfill_ids rs) = backfill_ids rs"
    using inv backfill_next_nonzero [OF assms(1)] by (rule backfill_idle)
  have "list_all2 (\<lambda>r q. q = r\<lparr>lr_id := lr_id q\<rparr> \<and> (lr_id r \<noteq> 0 \<longrightarrow> q = r))
      rs' (snd (backfill_loop n rs'))" for n rs'
  proof (induction rs' arbitrary: n)
    case (Cons r rs')
    then show ?case by (cases "lr_id r = 0") (simp_all add: Let_def case_prod_beta)
  qed simp
  then show "list_all2 (\<lambda>r q. q = r\<lparr>lr_id := lr_id q\<rparr> \<and> (lr_id r \<noteq> 0 \<longrightarrow> q = r))
      (rs_rules rs) (rs_rules (backfill_ids rs))"
    by (simp add: backfill_ids_eq)
qed

theorem backfill_assigns_ids_witness:
  "rules_inv (backfill_ids \<lparr>rs_next_id = 0,
     rs_rules = [demo_rule 5 RuleAllow ''/a'' KindFile, demo_rule 0 RuleDeny ''/b'' KindTree]\<rparr>)"
  using backfill_assigns_ids [of "\<lparr>rs_next_id = 0,
     rs_rules = [demo_rule 5 RuleAllow ''/a'' KindFile, demo_rule 0 RuleDeny ''/b'' KindTree]\<rparr>"]
  by (simp add: backfill_room_def unassigned_def max_id_def demo_rule_def)

text \<open>
  C8: whatever happens during a save (a failing call, a short write, a crash after any step), the
  rule file holds its old content or the complete new one, and no other file but the temporary one
  is touched; the new content is there at the end exactly when the save reports success.
\<close>

theorem save_is_atomic:
  assumes "file_name path \<noteq> Some (tmp_name env)"
  shows "(\<forall>st \<in> set (snd (save_atomic to_toml env rs path fm)).
      st (components path) \<in> {fm (components path), to_toml rs} \<and>
      (\<forall>c. c \<noteq> components path \<and> c \<noteq> components (save_tmp env path) \<longrightarrow> st c = fm c)) \<and>
    after_save (save_atomic to_toml env rs path fm) fm (components path) =
      (if is_ok (fst (save_atomic to_toml env rs path fm)) then to_toml rs else fm (components path))"
  using save_states [OF assms] save_result [OF assms] by auto

theorem save_is_atomic_witness:
  "after_save (save_atomic (\<lambda>_. Some ''new'') demo_save_env rules_default ''/r.toml''
     (\<lambda>c. if c = [RootDir, Normal ''r.toml''] then Some ''old'' else None))
     (\<lambda>c. if c = [RootDir, Normal ''r.toml''] then Some ''old'' else None)
     (components ''/r.toml'') = Some ''new''"
proof -
  have name: "file_name ''/r.toml'' \<noteq> Some (tmp_name demo_save_env)"
    by (simp add: tmp_name_def) code_simp
  have ok: "is_ok (fst (save_atomic (\<lambda>_. Some ''new'') demo_save_env rules_default ''/r.toml'' fm))" for fm
    by (simp add: save_atomic_def demo_save_env_def fs_write_def Let_def)
  show ?thesis
    using save_is_atomic [OF name, of "\<lambda>_. Some ''new''" rules_default] ok by simp
qed

text \<open>
  A saved rule set is read back as it was, when the TOML library reads back what it wrote, the
  set is well-formed and has been given ids.
\<close>

theorem saved_rules_load_back:
  assumes "file_name path \<noteq> Some (tmp_name env)"
    and "fst (save_atomic to_toml env rs path fm) = Inr ()"
    and "\<And>body. to_toml rs = Some body \<Longrightarrow> from_toml body = Some rs \<and> valid_utf8 body"
    and "rules_inv rs" and "rs_next_id rs \<noteq> 0"
  shows "rules_load from_toml (after_save (save_atomic to_toml env rs path fm) fm) path = rs"
proof -
  obtain body where "to_toml rs = Some body"
    using assms(2) by (cases "to_toml rs") (simp_all add: save_atomic_def)
  then show ?thesis
    using load_after_save [OF assms(1,2)] assms(3-5) by blast
qed

theorem saved_rules_load_back_witness:
  "rules_load (\<lambda>_. Some (rules_push (demo_rule 0 RuleDeny ''/a'' KindFile) rules_default))
     (after_save (save_atomic (\<lambda>_. Some ''x'') demo_save_env
        (rules_push (demo_rule 0 RuleDeny ''/a'' KindFile) rules_default) ''/r.toml'' (\<lambda>_. None)) (\<lambda>_. None))
     ''/r.toml'' = rules_push (demo_rule 0 RuleDeny ''/a'' KindFile) rules_default"
proof (rule saved_rules_load_back)
  show "file_name ''/r.toml'' \<noteq> Some (tmp_name demo_save_env)"
    by (simp add: tmp_name_def) code_simp
  show "fst (save_atomic (\<lambda>_. Some ''x'') demo_save_env
        (rules_push (demo_rule 0 RuleDeny ''/a'' KindFile) rules_default) ''/r.toml'' (\<lambda>_. None)) = Inr ()"
    by (simp add: save_atomic_def demo_save_env_def fs_write_def Let_def)
  show "rules_inv (rules_push (demo_rule 0 RuleDeny ''/a'' KindFile) rules_default)"
    by (simp add: rules_inv_def rules_push_simps rules_default_def)
qed (simp_all add: rules_push_simps rules_default_def ascii_valid_utf8 ascii_def)

end
