(* ===== verification/FW_Policy.thy ===== *)
theory FW_Policy
  imports FW_Rules
begin

text \<open>
  The policy logic (\<open>filewalld/src/policy.rs\<close>): watches with their compiled globs, the routing of
  an access to the watch that covers it, the combination of the configured outcome with the
  verdict of the learned rules, and the rule an "Always" answer records. The glob library is a
  parameter: a record of the functions the code calls.
\<close>

section \<open>The glob library\<close>

record ('g, 's) glob_api =
  gl_new :: "string \<Rightarrow> string + 'g"   \<comment> \<open>build a glob, the separator taken literally\<close>
  gl_set :: "'g list \<Rightarrow> string + 's"  \<comment> \<open>\<open>GlobSetBuilder::build\<close>\<close>
  gl_match :: "'s \<Rightarrow> string \<Rightarrow> bool" \<comment> \<open>\<open>GlobSet::is_match\<close>\<close>
  gl_empty :: "'s \<Rightarrow> bool"          \<comment> \<open>\<open>GlobSet::is_empty\<close>\<close>

section \<open>Actions and outcomes\<close>

datatype action = ActPrompt | ActAllow | ActDeny

datatype outcome = OutAllow | OutPrompt | OutDeny

definition outcome_of_action :: "action \<Rightarrow> outcome" where
  "outcome_of_action a =
     (case a of ActPrompt \<Rightarrow> OutPrompt | ActAllow \<Rightarrow> OutAllow | ActDeny \<Rightarrow> OutDeny)"

fun combine :: "outcome \<Rightarrow> rule_action option \<Rightarrow> outcome" where
  "combine cfg (Some RuleDeny) = OutDeny"
| "combine OutDeny learned = OutDeny"
| "combine cfg (Some RuleAllow) = OutAllow"
| "combine OutAllow learned = OutAllow"
| "combine OutPrompt None = OutPrompt"

section \<open>Watches\<close>

record 's watch_policy =
  wp_root :: path
  wp_allow :: 's
  wp_default_action :: action
  wp_learn_object :: object_kind
  wp_learn_cwd :: bool
  wp_exclude :: 's
  wp_include :: 's
  wp_recursive :: bool

fun str_contains :: "string \<Rightarrow> string \<Rightarrow> bool" where
  "str_contains needle [] = (needle = [])"
| "str_contains needle (c # s) = (prefix needle (c # s) \<or> str_contains needle s)"

definition pattern_is_deep :: "string \<Rightarrow> bool" where
  "pattern_is_deep pat \<longleftrightarrow> str_contains ''**'' pat \<or> str_contains ''/'' pat"

definition build_globs :: "('g, 's) glob_api \<Rightarrow> string list \<Rightarrow> string + 'g list" where
  "build_globs api pats = collect_results (map (gl_new api) pats)"

definition watch_policy_new ::
    "('g, 's) glob_api \<Rightarrow> path \<Rightarrow> string list \<Rightarrow> action \<Rightarrow> object_kind \<Rightarrow> bool \<Rightarrow>
     string list \<Rightarrow> string list \<Rightarrow> string + 's watch_policy" where
  "watch_policy_new api root allow_patterns default_action learn_object learn_cwd
       exclude_patterns patterns =
     (case build_globs api allow_patterns of Inl e \<Rightarrow> Inl e | Inr builder \<Rightarrow>
      (case build_globs api exclude_patterns of Inl e \<Rightarrow> Inl e | Inr exclude \<Rightarrow>
      (case build_globs api patterns of Inl e \<Rightarrow> Inl e | Inr incl \<Rightarrow>
       (let recursive = (patterns = [] \<or> list_ex pattern_is_deep patterns) in
        (case gl_set api builder of Inl e \<Rightarrow> Inl e | Inr allow_set \<Rightarrow>
        (case gl_set api exclude of Inl e \<Rightarrow> Inl e | Inr exclude_set \<Rightarrow>
        (case gl_set api incl of Inl e \<Rightarrow> Inl e | Inr include_set \<Rightarrow>
           Inr \<lparr>wp_root = root, wp_allow = allow_set, wp_default_action = default_action,
                wp_learn_object = learn_object, wp_learn_cwd = learn_cwd,
                wp_exclude = exclude_set, wp_include = include_set,
                wp_recursive = recursive\<rparr>)))))))"

definition always_target :: "'s watch_policy \<Rightarrow> path \<Rightarrow> path \<times> object_kind" where
  "always_target w path =
     (case wp_learn_object w of
        KindTree \<Rightarrow> (wp_root w, KindTree)
      | KindFile \<Rightarrow> (path, KindFile))"

text \<open>The clock: seconds since the epoch, zero before it.\<close>

definition now_unix :: "int \<Rightarrow> u64" where
  "now_unix clock = (if clock < 0 then 0 else of_int clock)"

definition watch_learned_rule ::
    "int \<Rightarrow> 's watch_policy \<Rightarrow> rule_action \<Rightarrow> string \<Rightarrow> path \<Rightarrow> string option \<Rightarrow> learned_rule" where
  "watch_learned_rule clock w act exe path cwd =
     (let (object, kind) = always_target w path
      in \<lparr>lr_id = 0, lr_created_unix = now_unix clock, lr_action = act, lr_exe = exe,
          lr_object = object, lr_object_kind = kind,
          lr_cwd = (if wp_learn_cwd w then cwd else None)\<rparr>)"

definition covers :: "'s watch_policy \<Rightarrow> path \<Rightarrow> bool" where
  "covers w path = starts_with path (wp_root w)"

definition is_excluded :: "('g, 's) glob_api \<Rightarrow> 's watch_policy \<Rightarrow> path \<Rightarrow> bool" where
  "is_excluded api w path = gl_match api (wp_exclude w) path"

definition is_included :: "('g, 's) glob_api \<Rightarrow> 's watch_policy \<Rightarrow> path \<Rightarrow> bool" where
  "is_included api w path =
     (if gl_empty api (wp_include w) then True
      else (case strip_prefix path (wp_root w) of
              Some rel \<Rightarrow> gl_match api (wp_include w) rel
            | None \<Rightarrow> False))"

definition watch_evaluate :: "('g, 's) glob_api \<Rightarrow> 's watch_policy \<Rightarrow> string \<Rightarrow> outcome" where
  "watch_evaluate api w exe =
     (if gl_match api (wp_allow w) exe then OutAllow else outcome_of_action (wp_default_action w))"

section \<open>The policy\<close>

record 's policy =
  po_watches :: "'s watch_policy list"

definition covering_watch :: "'s policy \<Rightarrow> path \<Rightarrow> 's watch_policy option" where
  "covering_watch p path = List.find (\<lambda>w. covers w path) (po_watches p)"

definition policy_evaluate :: "('g, 's) glob_api \<Rightarrow> 's policy \<Rightarrow> path \<Rightarrow> string \<Rightarrow> outcome" where
  "policy_evaluate api p path exe =
     (case covering_watch p path of
        Some w \<Rightarrow> watch_evaluate api w exe
      | None \<Rightarrow> OutAllow)"

section \<open>The specification of a decision\<close>

text \<open>
  A decision is taken by votes: the configuration casts one (a configured "prompt" is no vote),
  every matching learned rule casts one; one deny is enough to deny, else one allow to allow.
\<close>

datatype vote = VoteAllow | VoteDeny

definition config_vote :: "outcome \<Rightarrow> vote list" where
  "config_vote out = (case out of OutAllow \<Rightarrow> [VoteAllow] | OutDeny \<Rightarrow> [VoteDeny] | OutPrompt \<Rightarrow> [])"

definition rule_vote :: "learned_rule \<Rightarrow> vote" where
  "rule_vote r = (case lr_action r of RuleAllow \<Rightarrow> VoteAllow | RuleDeny \<Rightarrow> VoteDeny)"

definition rule_votes :: "rules \<Rightarrow> path \<Rightarrow> string \<Rightarrow> string option \<Rightarrow> vote list" where
  "rule_votes rs path exe cwd =
     map rule_vote (filter (\<lambda>r. rule_matches r path exe cwd) (rs_rules rs))"

definition tally :: "vote list \<Rightarrow> outcome" where
  "tally votes =
     (if VoteDeny \<in> set votes then OutDeny
      else if VoteAllow \<in> set votes then OutAllow else OutPrompt)"

section \<open>Lemmas\<close>

lemma combine_iff:
  "combine cfg learned = OutDeny \<longleftrightarrow> cfg = OutDeny \<or> learned = Some RuleDeny"
  "combine cfg learned = OutPrompt \<longleftrightarrow> cfg = OutPrompt \<and> learned = None"
  "combine cfg learned = OutAllow \<longleftrightarrow>
     cfg \<noteq> OutDeny \<and> learned \<noteq> Some RuleDeny \<and> (cfg = OutAllow \<or> learned = Some RuleAllow)"
  by (cases "(cfg, learned)" rule: combine.cases; simp)+

lemma tally_append: "tally (as @ bs) = tally (bs @ as)"
  by (simp add: tally_def disj_commute)

lemma tally_cong: "set as = set bs \<Longrightarrow> tally as = tally bs"
  by (simp add: tally_def)

lemma rule_vote_iff:
  "rule_vote r = VoteDeny \<longleftrightarrow> lr_action r = RuleDeny"
  "rule_vote r = VoteAllow \<longleftrightarrow> lr_action r = RuleAllow"
  by (cases "lr_action r"; simp add: rule_vote_def)+

lemma rule_votes_iff:
  "v \<in> set (rule_votes rs path exe cwd) \<longleftrightarrow>
     (\<exists>r \<in> set (rs_rules rs). rule_matches r path exe cwd \<and> rule_vote r = v)"
  by (auto simp: rule_votes_def)

lemma rule_votes_deny:
  "VoteDeny \<in> set (rule_votes rs path exe cwd) \<longleftrightarrow> rules_evaluate rs path exe cwd = Some RuleDeny"
  by (auto simp: rule_votes_iff rule_vote_iff rules_evaluate_spec)

lemma rule_votes_allow:
  assumes "VoteDeny \<notin> set (rule_votes rs path exe cwd)"
  shows "VoteAllow \<in> set (rule_votes rs path exe cwd) \<longleftrightarrow>
         rules_evaluate rs path exe cwd = Some RuleAllow"
  using assms rule_action.exhaust
  by (auto simp: rule_votes_iff rule_vote_iff rules_evaluate_spec)

lemma combine_tally:
  "combine cfg (rules_evaluate rs path exe cwd) = tally (config_vote cfg @ rule_votes rs path exe cwd)"
proof -
  let ?v = "rules_evaluate rs path exe cwd"
  have d: "VoteDeny \<in> set (rule_votes rs path exe cwd) \<longleftrightarrow> ?v = Some RuleDeny"
    by (rule rule_votes_deny)
  have a: "VoteAllow \<in> set (rule_votes rs path exe cwd) \<longleftrightarrow> ?v = Some RuleAllow"
    if "?v \<noteq> Some RuleDeny"
    using rule_votes_allow d that by blast
  show ?thesis
    using d a by (cases cfg; cases ?v; cases "the ?v") (auto simp: tally_def config_vote_def)
qed

lemma covering_watch_Some:
  "covering_watch p path = Some w \<Longrightarrow> w \<in> set (po_watches p) \<and> starts_with path (wp_root w)"
  by (auto simp: covering_watch_def covers_def dest: find_SomeD)

lemma covering_watch_None:
  "covering_watch p path = None \<longleftrightarrow> (\<forall>w \<in> set (po_watches p). \<not> starts_with path (wp_root w))"
  by (auto simp: covering_watch_def covers_def find_None_iff)

lemma covering_watch_first:
  "po_watches p = ws @ w # vs \<Longrightarrow> covers w path \<Longrightarrow> \<forall>v \<in> set ws. \<not> covers v path \<Longrightarrow>
   covering_watch p path = Some w"
proof -
  assume a: "po_watches p = ws @ w # vs" "covers w path" "\<forall>v \<in> set ws. \<not> covers v path"
  then have "List.find (\<lambda>w. covers w path) ws = None"
    by (auto simp: find_None_iff)
  with a show ?thesis by (simp add: covering_watch_def find_append)
qed

lemma always_target_simps:
  "wp_learn_object w = KindTree \<Longrightarrow> always_target w path = (wp_root w, KindTree)"
  "wp_learn_object w = KindFile \<Longrightarrow> always_target w path = (path, KindFile)"
  by (simp_all add: always_target_def)

lemma learned_rule_object:
  "lr_object (watch_learned_rule clock w act exe path cwd) = fst (always_target w path)"
  "lr_object_kind (watch_learned_rule clock w act exe path cwd) = snd (always_target w path)"
  "lr_action (watch_learned_rule clock w act exe path cwd) = act"
  "lr_exe (watch_learned_rule clock w act exe path cwd) = exe"
  "lr_cwd (watch_learned_rule clock w act exe path cwd) = (if wp_learn_cwd w then cwd else None)"
  by (simp_all add: watch_learned_rule_def case_prod_beta)

text \<open>A rule learned from an access applies to that access.\<close>

lemma learned_rule_matches:
  assumes "covers w path"
  shows "rule_matches (watch_learned_rule clock w act exe path cwd) path exe cwd"
proof (cases "wp_learn_object w")
  case KindFile
  then show ?thesis
    by (simp add: rule_matches_iff learned_rule_object always_target_simps)
next
  case KindTree
  then show ?thesis
    using assms by (simp add: rule_matches_iff learned_rule_object always_target_simps covers_def)
qed

text \<open>It applies to nothing outside the watch: other programs, other trees.\<close>

lemma learned_rule_scope:
  assumes "covers w path"
    and "rule_matches (watch_learned_rule clock w act exe path cwd) path' exe' cwd'"
  shows "exe' = exe" and "covers w path'"
    and "wp_learn_object w = KindFile \<Longrightarrow> path_eq path' path"
    and "wp_learn_cwd w \<Longrightarrow> cwd \<noteq> None \<Longrightarrow> cwd' = cwd"
proof -
  show "exe' = exe"
    using assms(2) by (simp add: rule_matches_iff learned_rule_object)
  show file_only: "wp_learn_object w = KindFile \<Longrightarrow> path_eq path' path"
    using assms(2) by (simp add: rule_matches_iff learned_rule_object always_target_simps)
  show "covers w path'"
  proof (cases "wp_learn_object w")
    case KindFile
    then show ?thesis
      using assms(1) file_only by (auto simp: covers_def path_eq_def starts_with_def)
  next
    case KindTree
    then show ?thesis
      using assms(2)
      by (simp add: rule_matches_iff learned_rule_object always_target_simps covers_def)
  qed
  show "wp_learn_cwd w \<Longrightarrow> cwd \<noteq> None \<Longrightarrow> cwd' = cwd"
    using assms(2) by (auto simp: rule_matches_iff learned_rule_object)
qed

text \<open>A new rule that matches settles an access no rule matched before.\<close>

lemma evaluate_push:
  assumes "rules_evaluate rs path exe cwd = None" and "rule_matches r path exe cwd"
  shows "rules_evaluate (rules_push r rs) path exe cwd = Some (lr_action r)"
proof -
  have "\<not> rule_matches q path exe cwd" if "q \<in> set (rs_rules rs)" for q
    using assms(1) that by (auto simp: rules_evaluate_spec split: if_splits)
  then show ?thesis
    using assms(2)
    by (cases "lr_action r") (auto simp: rules_evaluate_spec rules_push_simps)
qed

lemma evaluate_push_other:
  assumes "\<not> rule_matches r path exe cwd"
  shows "rules_evaluate (rules_push r rs) path exe cwd = rules_evaluate rs path exe cwd"
  using assms by (auto simp: rules_evaluate_spec rules_push_simps)

lemma str_contains_sublist: "str_contains n s \<longleftrightarrow> (\<exists>a b. s = a @ n @ b)"
proof (induction s)
  case Nil
  then show ?case by auto
next
  case (Cons c s)
  have "(\<exists>a b. c # s = a @ n @ b) \<longleftrightarrow> prefix n (c # s) \<or> (\<exists>a b. s = a @ n @ b)"
    unfolding prefix_def by (metis append_Cons append_Nil list.exhaust list.inject)
  with Cons show ?case by simp
qed

lemma pattern_is_deep_slash: "CHR ''/'' \<in> set p \<Longrightarrow> pattern_is_deep p"
  by (auto simp: pattern_is_deep_def str_contains_sublist in_set_conv_decomp)

lemma watch_policy_new_fields:
  assumes "watch_policy_new api root allow act obj lcwd excl pats = Inr w"
  shows "wp_root w = root" "wp_default_action w = act" "wp_learn_object w = obj"
    "wp_learn_cwd w = lcwd" "wp_recursive w \<longleftrightarrow> pats = [] \<or> (\<exists>p \<in> set pats. pattern_is_deep p)"
    "\<exists>gs. build_globs api allow = Inr gs \<and> gl_set api gs = Inr (wp_allow w)"
    "\<exists>gs. build_globs api excl = Inr gs \<and> gl_set api gs = Inr (wp_exclude w)"
    "\<exists>gs. build_globs api pats = Inr gs \<and> gl_set api gs = Inr (wp_include w)"
  using assms
  by (auto simp: watch_policy_new_def Let_def list_ex_iff split: sum.splits)

lemma build_globs_error_iff:
  "(\<exists>e. build_globs api pats = Inl e) \<longleftrightarrow> (\<exists>p \<in> set pats. \<exists>e. gl_new api p = Inl e)"
proof -
  have "(\<exists>xs. map (gl_new api) pats = map Inr xs) \<longleftrightarrow> (\<forall>p \<in> set pats. \<exists>g. gl_new api p = Inr g)"
    by (induction pats) (auto simp: Cons_eq_map_conv)
  then have "(\<exists>xs. build_globs api pats = Inr xs) \<longleftrightarrow> (\<forall>p \<in> set pats. \<exists>g. gl_new api p = Inr g)"
    by (simp add: build_globs_def collect_results_ok_iff)
  then show ?thesis
    by (metis Inl_Inr_False sum.exhaust)
qed

section \<open>Properties\<close>

definition demo_watch :: "path \<Rightarrow> object_kind \<Rightarrow> bool \<Rightarrow> unit watch_policy" where
  "demo_watch root obj lcwd =
     \<lparr>wp_root = root, wp_allow = (), wp_default_action = ActPrompt, wp_learn_object = obj,
      wp_learn_cwd = lcwd, wp_exclude = (), wp_include = (), wp_recursive = True\<rparr>"

text \<open>
  C7: the decision of the code (the configured outcome combined with the verdict of the rules) is
  the vote count of the specification: one deny of the configuration or of any matching rule denies;
  else one allow allows; else the user is asked.
\<close>

theorem decision_refines_vote:
  "combine (policy_evaluate api p path exe) (rules_evaluate rs path exe cwd) =
     tally (config_vote (policy_evaluate api p path exe) @ rule_votes rs path exe cwd)"
  by (rule combine_tally)

text \<open>
  C28: the rule an "Always" answer records applies to the access it was recorded for, and to nothing
  else than the watch it came from: the same program, inside the watch, only that file unless the
  watch learns trees, and only from the same directory when the watch pins it.
\<close>

theorem learned_rule_fits_its_access:
  assumes "covers w path"
  shows "rule_matches (watch_learned_rule clock w act exe path cwd) path exe cwd \<and>
    (\<forall>path' exe' cwd'. rule_matches (watch_learned_rule clock w act exe path cwd) path' exe' cwd' \<longrightarrow>
       exe' = exe \<and> covers w path' \<and>
       (wp_learn_object w = KindFile \<longrightarrow> path_eq path' path) \<and>
       (wp_learn_cwd w \<and> cwd \<noteq> None \<longrightarrow> cwd' = cwd))"
proof (intro conjI allI impI)
  show "rule_matches (watch_learned_rule clock w act exe path cwd) path exe cwd"
    by (rule learned_rule_matches [OF assms])
qed (use learned_rule_scope [OF assms] in auto)

theorem learned_rule_fits_its_access_witness:
  "rule_matches (watch_learned_rule 0 (demo_watch ''/h'' KindFile True) RuleAllow ''/bin/cat'' ''/h/k''
     (Some ''/w'')) ''/h/k'' ''/bin/cat'' (Some ''/w'') \<and>
   \<not> rule_matches (watch_learned_rule 0 (demo_watch ''/h'' KindFile True) RuleAllow ''/bin/cat'' ''/h/k''
     (Some ''/w'')) ''/h/k'' ''/bin/cat'' (Some ''/v'')"
proof -
  have "covers (demo_watch ''/h'' KindFile True) ''/h/k''"
    by (simp add: demo_watch_def) code_simp
  from learned_rule_fits_its_access [OF this, of 0 RuleAllow "''/bin/cat''" "Some ''/w''"]
  show ?thesis by (auto simp: demo_watch_def)
qed

text \<open>
  An access is judged by the first watch, in the order of the configuration, whose root is a
  prefix of the path by whole components; an access no watch covers is allowed by the policy.
\<close>

theorem first_covering_watch_decides:
  "(\<forall>ws w vs. po_watches p = ws @ w # vs \<and> starts_with path (wp_root w) \<and>
      (\<forall>v \<in> set ws. \<not> starts_with path (wp_root v)) \<longrightarrow>
      policy_evaluate api p path exe =
        (if gl_match api (wp_allow w) exe then OutAllow else outcome_of_action (wp_default_action w))) \<and>
   ((\<forall>w \<in> set (po_watches p). \<not> starts_with path (wp_root w)) \<longrightarrow>
      policy_evaluate api p path exe = OutAllow)"
proof (intro conjI allI impI)
  fix ws w vs
  assume "po_watches p = ws @ w # vs \<and> starts_with path (wp_root w) \<and>
      (\<forall>v \<in> set ws. \<not> starts_with path (wp_root v))"
  then have "covering_watch p path = Some w"
    by (intro covering_watch_first [of p ws w vs]) (auto simp: covers_def)
  then show "policy_evaluate api p path exe =
        (if gl_match api (wp_allow w) exe then OutAllow else outcome_of_action (wp_default_action w))"
    by (simp add: policy_evaluate_def watch_evaluate_def)
next
  assume "\<forall>w \<in> set (po_watches p). \<not> starts_with path (wp_root w)"
  then show "policy_evaluate api p path exe = OutAllow"
    using covering_watch_None [of p path] by (simp add: policy_evaluate_def)
qed

theorem first_covering_watch_decides_witness:
  "policy_evaluate \<lparr>gl_new = Inr, gl_set = (\<lambda>_. Inr ()), gl_match = (\<lambda>_ _. False), gl_empty = (\<lambda>_. True)\<rparr>
     \<lparr>po_watches = [demo_watch ''/h'' KindFile True, demo_watch ''/h/k'' KindTree False]\<rparr>
     ''/h/k/x'' ''/bin/cat'' = OutPrompt \<and>
   policy_evaluate \<lparr>gl_new = Inr, gl_set = (\<lambda>_. Inr ()), gl_match = (\<lambda>_ _. False), gl_empty = (\<lambda>_. True)\<rparr>
     \<lparr>po_watches = [demo_watch ''/h'' KindFile True, demo_watch ''/h/k'' KindTree False]\<rparr>
     ''/hx'' ''/bin/cat'' = OutAllow"
proof -
  have c: "starts_with ''/h/k/x'' ''/h''" "\<not> starts_with ''/hx'' ''/h''" "\<not> starts_with ''/hx'' ''/h/k''"
    by code_simp+
  let ?api = "\<lparr>gl_new = Inr, gl_set = (\<lambda>_. Inr ()), gl_match = (\<lambda>_ _. False), gl_empty = (\<lambda>_. True)\<rparr>"
  let ?ws = "[demo_watch ''/h'' KindFile True, demo_watch ''/h/k'' KindTree False]"
  have "po_watches \<lparr>po_watches = ?ws\<rparr> = [] @ demo_watch ''/h'' KindFile True # tl ?ws \<and>
      starts_with ''/h/k/x'' (wp_root (demo_watch ''/h'' KindFile True)) \<and>
      (\<forall>v \<in> set []. \<not> starts_with ''/h/k/x'' (wp_root v))"
    using c by (simp add: demo_watch_def)
  note covered = first_covering_watch_decides [where api = ?api and exe = "''/bin/cat''",
      THEN conjunct1, rule_format, OF this]
  have "\<forall>w \<in> set (po_watches \<lparr>po_watches = ?ws\<rparr>). \<not> starts_with ''/hx'' (wp_root w)"
    using c by (simp add: demo_watch_def)
  note uncovered = first_covering_watch_decides [where api = ?api and exe = "''/bin/cat''",
      THEN conjunct2, THEN mp, OF this]
  show ?thesis
    using covered uncovered by (simp add: demo_watch_def outcome_of_action_def)
qed

end
