(* ===== verification/FW_Fanotify.thy ===== *)
theory FW_Fanotify
  imports FW_Policy
begin

text \<open>
  The fanotify group (\<open>filewalld/src/fanotify.rs\<close>): placing marks, the byte-level parser of the
  kernel's event records, answering an event, and what an event lets the daemon find out about
  the accessing process. The parser reads the buffer through raw pointers; a read outside the
  buffer and a file descriptor of -1 are faults of their own. Words are little-endian, as on the
  hosts the daemon is built for.
\<close>

section \<open>Constants and records\<close>

definition fan_open_perm :: u64 where "fan_open_perm = 0x00010000"
definition fan_event_on_child :: u64 where "fan_event_on_child = 0x08000000"
definition fan_allow :: u32 where "fan_allow = 0x01"
definition fan_deny :: u32 where "fan_deny = 0x02"
definition fan_nopidfd :: u32 where "fan_nopidfd = - 1"
definition fan_info_pidfd :: u8 where "fan_info_pidfd = 4"

text \<open>The sizes of \<open>EventMetadata\<close> and \<open>InfoHeader\<close>, and of the read buffer.\<close>

definition meta_size :: nat where "meta_size = 24"
definition info_size :: nat where "info_size = 4"
definition buf_size :: nat where "buf_size = 8192"

record event =
  ev_mask :: u64
  ev_pid :: u32
  ev_fd :: u32
  ev_pidfd :: "u32 option"

text \<open>
  The kernel's side of the group: the marks that are in place, those it dropped on its own, the
  answers it got, and what it replies to the next request (a mark limit makes that depend on the
  marks in place). A mark is named by the path it was placed through.
\<close>

record fan_kernel =
  fk_mark :: "(path \<times> u64) list \<Rightarrow> path \<Rightarrow> u64 \<Rightarrow> io_kind option"
  fk_write :: "bytes list \<Rightarrow> bytes \<Rightarrow> io_kind option"

record fanotify =
  fa_marks :: "(path \<times> u64) list"   \<comment> \<open>marks in place, latest first\<close>
  fa_dropped :: "(path \<times> u64) list" \<comment> \<open>marks that were in place until the kernel dropped them\<close>
  fa_answers :: "bytes list"        \<comment> \<open>answers the kernel took, in order\<close>

section \<open>The group\<close>

definition fan_cloexec :: u32 where "fan_cloexec = 0x00000001"
definition fan_class_content :: u32 where "fan_class_content = 0x00000004"
definition fan_report_pidfd :: u32 where "fan_report_pidfd = 0x00000080"
definition o_rdonly :: u32 where "o_rdonly = 0"

text \<open>The system call answers with an error, or with a new group that has no marks.\<close>

definition fan_init :: "(u32 \<Rightarrow> u32 \<Rightarrow> io_kind option) \<Rightarrow> fanotify io_result" where
  "fan_init fanotify_init =
     (case fanotify_init (fan_cloexec OR fan_class_content OR fan_report_pidfd) o_rdonly of
        Some e \<Rightarrow> Inl e
      | None \<Rightarrow> Inr \<lparr>fa_marks = [], fa_dropped = [], fa_answers = []\<rparr>)"

lemma fan_init_empty: "fan_init call = Inr fan \<Longrightarrow> fan = \<lparr>fa_marks = [], fa_dropped = [], fa_answers = []\<rparr>"
  by (auto simp: fan_init_def split: option.splits)

section \<open>Marking\<close>

definition path_to_cstring :: "path \<Rightarrow> string io_result" where
  "path_to_cstring p = (if char_of (0::nat) \<in> set p then Inl InvalidInput else Inr p)"

definition fan_mark :: "fan_kernel \<Rightarrow> path \<Rightarrow> u64 \<Rightarrow> fanotify \<Rightarrow> unit io_result \<times> fanotify" where
  "fan_mark k path msk fan =
     (case path_to_cstring path of
        Inl e \<Rightarrow> (Inl e, fan)
      | Inr c_path \<Rightarrow>
          (case fk_mark k (fa_marks fan) c_path msk of
             Some e \<Rightarrow> (Inl e, fan)
           | None \<Rightarrow> (Inr (), fan\<lparr>fa_marks := (c_path, msk) # fa_marks fan\<rparr>)))"

definition mark_file :: "fan_kernel \<Rightarrow> path \<Rightarrow> fanotify \<Rightarrow> unit io_result \<times> fanotify" where
  "mark_file k path fan = fan_mark k path fan_open_perm fan"

definition mark_dir :: "fan_kernel \<Rightarrow> path \<Rightarrow> fanotify \<Rightarrow> unit io_result \<times> fanotify" where
  "mark_dir k path fan = fan_mark k path (fan_open_perm OR fan_event_on_child) fan"

text \<open>
  The daemon never removes a mark. The kernel does, when the marked object is deleted or its file
  system goes away: the marks that are gone move from those in place to those dropped.
\<close>

definition kernel_drops :: "(path \<times> u64 \<Rightarrow> bool) \<Rightarrow> fanotify \<Rightarrow> fanotify" where
  "kernel_drops gone fan =
     fan\<lparr>fa_marks := filter (\<lambda>m. \<not> gone m) (fa_marks fan),
         fa_dropped := filter gone (fa_marks fan) @ fa_dropped fan\<rparr>"

lemma kernel_drops_fields [simp]:
  "set (fa_marks (kernel_drops gone fan)) = {m \<in> set (fa_marks fan). \<not> gone m}"
  "set (fa_dropped (kernel_drops gone fan)) = {m \<in> set (fa_marks fan). gone m} \<union> set (fa_dropped fan)"
  "fa_answers (kernel_drops gone fan) = fa_answers fan"
  by (auto simp: kernel_drops_def)

section \<open>Parsing events\<close>

fun le_value :: "bytes \<Rightarrow> nat" where
  "le_value [] = 0"
| "le_value (b # bs) = unat b + 256 * le_value bs"

definition load :: "nat \<Rightarrow> bytes \<Rightarrow> nat \<Rightarrow> nat" where
  "load k buf off = le_value (take k (drop off buf))"

record event_metadata =
  em_event_len :: u32
  em_metadata_len :: u16
  em_mask :: u64
  em_fd :: u32
  em_pid :: u32

definition load_metadata :: "bytes \<Rightarrow> nat \<Rightarrow> event_metadata" where
  "load_metadata buf off =
     \<lparr>em_event_len = of_nat (load 4 buf off), em_metadata_len = of_nat (load 2 buf (off + 6)),
      em_mask = of_nat (load 8 buf (off + 8)), em_fd = of_nat (load 4 buf (off + 16)),
      em_pid = of_nat (load 4 buf (off + 20))\<rparr>"

datatype parse_fault = OutOfBounds | InvalidFd

text \<open>The scan of the info records of one event, up to \<open>lim\<close>, for the last pidfd.\<close>

function info_loop :: "bytes \<Rightarrow> nat \<Rightarrow> nat \<Rightarrow> u32 \<Rightarrow> parse_fault + u32" where
  "info_loop buf lim ioff pidfd_raw =
     (if ioff + info_size \<le> lim then
        (let info_type = (of_nat (load 1 buf ioff) :: u8);
             len = unat (of_nat (load 2 buf (ioff + 2)) :: u16)
         in if info_type = fan_info_pidfd \<and> length buf < ioff + info_size + 4 then Inl OutOfBounds
            else
              (let pidfd_raw' =
                 (if info_type = fan_info_pidfd then of_nat (load 4 buf (ioff + info_size))
                  else pidfd_raw)
               in if len = 0 then Inr pidfd_raw' else info_loop buf lim (ioff + len) pidfd_raw'))
      else Inr pidfd_raw)"
  by pat_completeness auto
termination
  by (relation "measure (\<lambda>(buf, lim, ioff, p). lim - ioff)") (auto simp: info_size_def)

declare info_loop.simps [simp del]

text \<open>\<open>OwnedFd::from_raw_fd\<close> takes any descriptor but -1.\<close>

definition owned_fd :: "u32 \<Rightarrow> parse_fault + u32" where
  "owned_fd fd = (if fd = - 1 then Inl InvalidFd else Inr fd)"

definition parse_event :: "bytes \<Rightarrow> nat \<Rightarrow> event_metadata \<Rightarrow> parse_fault + event" where
  "parse_event buf off meta =
     (case info_loop buf (off + unat (em_event_len meta)) (off + unat (em_metadata_len meta))
             fan_nopidfd of
        Inl e \<Rightarrow> Inl e
      | Inr pidfd_raw \<Rightarrow>
          (case owned_fd (em_fd meta) of
             Inl e \<Rightarrow> Inl e
           | Inr file_fd \<Rightarrow>
               Inr \<lparr>ev_mask = em_mask meta, ev_pid = em_pid meta, ev_fd = file_fd,
                    ev_pidfd = (if 0 \<le> sint pidfd_raw then Some pidfd_raw else None)\<rparr>))"

function events_loop :: "bytes \<Rightarrow> nat \<Rightarrow> nat \<Rightarrow> parse_fault + event list" where
  "events_loop buf n off =
     (if off + meta_size \<le> n then
        (let meta = load_metadata buf off; event_len = unat (em_event_len meta)
         in if event_len < meta_size \<or> n < off + event_len then Inr []
            else
              (case parse_event buf off meta of
                 Inl e \<Rightarrow> Inl e
               | Inr ev \<Rightarrow> map_sum id (Cons ev) (events_loop buf n (off + event_len))))
      else Inr [])"
  by pat_completeness auto
termination
  by (relation "measure (\<lambda>(buf, n, off). n - off)") (auto simp: meta_size_def)

declare events_loop.simps [simp del]

text \<open>The bytes the \<open>read\<close> call put at the start of the zeroed buffer are its argument.\<close>

definition read_buffer :: "bytes \<Rightarrow> bytes" where
  "read_buffer data = data @ replicate (buf_size - length data) 0"

definition read_ready :: "bytes io_result \<Rightarrow> io_kind + parse_fault + event list" where
  "read_ready r =
     (case r of
        Inl e \<Rightarrow> Inl e
      | Inr data \<Rightarrow> Inr (events_loop (read_buffer data) (length data) 0))"

section \<open>Answering\<close>

fun le_bytes :: "nat \<Rightarrow> nat \<Rightarrow> bytes" where
  "le_bytes 0 v = []"
| "le_bytes (Suc k) v = of_nat v # le_bytes k (v div 256)"

definition answer_bytes :: "event \<Rightarrow> bool \<Rightarrow> bytes" where
  "answer_bytes ev allow =
     le_bytes 4 (unat (ev_fd ev)) @ le_bytes 4 (unat (if allow then fan_allow else fan_deny))"

definition respond :: "fan_kernel \<Rightarrow> event \<Rightarrow> bool \<Rightarrow> fanotify \<Rightarrow> unit io_result \<times> fanotify" where
  "respond k ev allow fan =
     (let resp = answer_bytes ev allow
      in (case fk_write k (fa_answers fan) resp of
            Some e \<Rightarrow> (Inl e, fan)
          | None \<Rightarrow> (Inr (), fan\<lparr>fa_answers := fa_answers fan @ [resp]\<rparr>)))"

section \<open>What an event tells\<close>

definition is_open_perm :: "event \<Rightarrow> bool" where
  "is_open_perm ev \<longleftrightarrow> ev_mask ev AND fan_open_perm \<noteq> 0"

text \<open>The \<open>/proc\<close> file system: its links and its files.\<close>

record proc_fs =
  ps_link :: "path \<Rightarrow> path io_result"
  ps_file :: "path \<Rightarrow> string io_result"

definition show_i32 :: "u32 \<Rightarrow> string" where
  "show_i32 w = (if sint w < 0 then CHR ''-'' # show_nat (nat (- sint w)) else show_nat (nat (sint w)))"

definition accessed_path :: "proc_fs \<Rightarrow> event \<Rightarrow> path io_result" where
  "accessed_path ps ev = ps_link ps (''/proc/self/fd/'' @ show_i32 (ev_fd ev))"

definition unresolved :: string where "unresolved = ''<unresolved>''"

definition event_exe :: "proc_fs \<Rightarrow> event \<Rightarrow> string" where
  "event_exe ps ev =
     (case ps_link ps (''/proc/'' @ show_nat (unat (ev_pid ev)) @ ''/exe'') of
        Inr p \<Rightarrow> display p | Inl _ \<Rightarrow> unresolved)"

definition proc_cwd :: "proc_fs \<Rightarrow> u32 \<Rightarrow> string" where
  "proc_cwd ps pid =
     (case ps_link ps (''/proc/'' @ show_nat (unat pid) @ ''/cwd'') of
        Inr p \<Rightarrow> display p | Inl _ \<Rightarrow> unresolved)"

definition event_cwd :: "proc_fs \<Rightarrow> event \<Rightarrow> string" where
  "event_cwd ps ev = proc_cwd ps (ev_pid ev)"

definition event_cmdline :: "proc_fs \<Rightarrow> event \<Rightarrow> string" where
  "event_cmdline ps ev =
     (case ps_file ps (''/proc/'' @ show_nat (unat (ev_pid ev)) @ ''/cmdline'') of
        Inr bs \<Rightarrow>
          join_with '' '' (map from_utf8_lossy (filter (\<lambda>s. s \<noteq> []) (split_on (char_of (0::nat)) bs)))
      | Inl _ \<Rightarrow> [])"

definition has_pidfd :: "event \<Rightarrow> bool" where
  "has_pidfd ev \<longleftrightarrow> ev_pidfd ev \<noteq> None"

section \<open>The events the kernel writes\<close>

text \<open>
  One permission event as \<open>fanotify(7)\<close> lays it out for a group that reports pidfds: the
  metadata, then one info record with the pidfd, -1 when there is none.
\<close>

definition encode_event :: "u8 \<Rightarrow> event \<Rightarrow> bytes" where
  "encode_event vers ev =
     le_bytes 4 32 @ [vers, 0] @ le_bytes 2 24 @ le_bytes 8 (unat (ev_mask ev)) @
     le_bytes 4 (unat (ev_fd ev)) @ le_bytes 4 (unat (ev_pid ev)) @
     [fan_info_pidfd, 0] @ le_bytes 2 8 @
     le_bytes 4 (unat (case ev_pidfd ev of None \<Rightarrow> fan_nopidfd | Some p \<Rightarrow> p))"

definition event_ok :: "event \<Rightarrow> bool" where
  "event_ok ev \<longleftrightarrow> ev_fd ev \<noteq> - 1 \<and> (case ev_pidfd ev of None \<Rightarrow> True | Some p \<Rightarrow> 0 \<le> sint p)"

section \<open>Lemmas\<close>

lemma length_le_bytes [simp, fw_wire]: "length (le_bytes k v) = k"
  by (induction k arbitrary: v) auto

lemma le_value_bytes [simp, fw_wire]: "le_value (le_bytes k v) = v mod 256 ^ k"
proof (induction k arbitrary: v)
  case 0
  then show ?case by simp
next
  case (Suc k)
  have "v mod 256 ^ Suc k = v mod 256 + 256 * (v div 256 mod 256 ^ k)"
    by (simp add: mod_mult2_eq mult.commute add.commute)
  then show ?case
    using Suc by (simp add: unat_of_nat)
qed

lemma unat_mod_width [simp]:
  "unat (w :: u32) mod 4294967296 = unat w"
  "unat (x :: u64) mod 18446744073709551616 = unat x"
  using unsigned_less [where 'a = nat, of w] unsigned_less [where 'a = nat, of x] by simp_all

lemma load_le [fw_wire]:
  "length a = off \<Longrightarrow> load k (a @ le_bytes k v @ c) off = v mod 256 ^ k"
  by (simp add: load_def)

lemma length_encode_event [simp, fw_wire]: "length (encode_event vers ev) = 32"
  by (simp add: encode_event_def)

lemma load_metadata_encode:
  assumes "length a = off"
  shows "load_metadata (a @ encode_event vers ev @ c) off =
    \<lparr>em_event_len = 32, em_metadata_len = 24, em_mask = ev_mask ev, em_fd = ev_fd ev,
     em_pid = ev_pid ev\<rparr>"
proof -
  let ?p = "le_bytes 4 (unat (case ev_pidfd ev of None \<Rightarrow> fan_nopidfd | Some p \<Rightarrow> p))"
  let ?buf = "a @ encode_event vers ev @ c"
  have "load 4 ?buf off = 32"
    using assms by (simp add: encode_event_def load_le)
  moreover have "load 2 ?buf (off + 6) = 24"
    using load_le [of "a @ le_bytes 4 32 @ [vers, 0]" "off + 6" 2 24] assms
    by (simp add: encode_event_def)
  moreover have "load 8 ?buf (off + 8) = unat (ev_mask ev)"
    using load_le [of "a @ le_bytes 4 32 @ [vers, 0] @ le_bytes 2 24" "off + 8" 8 "unat (ev_mask ev)"]
      assms
    by (simp add: encode_event_def)
  moreover have "load 4 ?buf (off + 16) = unat (ev_fd ev)"
    using load_le [of "a @ le_bytes 4 32 @ [vers, 0] @ le_bytes 2 24 @ le_bytes 8 (unat (ev_mask ev))"
        "off + 16" 4 "unat (ev_fd ev)"] assms
    by (simp add: encode_event_def)
  moreover have "load 4 ?buf (off + 20) = unat (ev_pid ev)"
    using load_le [of "a @ le_bytes 4 32 @ [vers, 0] @ le_bytes 2 24 @ le_bytes 8 (unat (ev_mask ev)) @
        le_bytes 4 (unat (ev_fd ev))" "off + 20" 4 "unat (ev_pid ev)"] assms
    by (simp add: encode_event_def)
  ultimately show ?thesis
    by (simp add: load_metadata_def)
qed

lemma info_loop_encode:
  assumes "length a = off"
  shows "info_loop (a @ encode_event vers ev @ c) (off + 32) (off + 24) raw =
    Inr (case ev_pidfd ev of None \<Rightarrow> fan_nopidfd | Some p \<Rightarrow> p)"
proof -
  let ?raw = "case ev_pidfd ev of None \<Rightarrow> fan_nopidfd | Some p \<Rightarrow> p"
  let ?buf = "a @ encode_event vers ev @ c"
  let ?meta = "a @ le_bytes 4 32 @ [vers, 0] @ le_bytes 2 24 @ le_bytes 8 (unat (ev_mask ev)) @
        le_bytes 4 (unat (ev_fd ev)) @ le_bytes 4 (unat (ev_pid ev))"
  have "load 1 ?buf (off + 24) = unat fan_info_pidfd"
    using assms by (simp add: encode_event_def load_def)
  moreover have "load 2 ?buf (off + 26) = 8"
    using load_le [of "?meta @ [fan_info_pidfd, 0]" "off + 26" 2 8] assms
    by (simp add: encode_event_def)
  moreover have "load 4 ?buf (off + 28) = unat ?raw"
    using load_le [of "?meta @ [fan_info_pidfd, 0] @ le_bytes 2 8" "off + 28" 4 "unat ?raw"] assms
    by (simp add: encode_event_def)
  moreover have "info_loop ?buf (off + 32) (off + 32) p = Inr p" for p
    by (subst info_loop.simps) (simp add: info_size_def)
  moreover have "unat (of_nat 8 :: u16) = 8"
    by simp
  ultimately show ?thesis
    using assms by (subst info_loop.simps) (simp only: Let_def info_size_def, simp add: add.commute)
qed

lemma events_loop_encode:
  assumes "\<forall>ev \<in> set es. event_ok ev" and "length a = off"
    and "n = off + 32 * length es + t" and "t < meta_size"
  shows "events_loop (a @ concat (map (encode_event vers) es) @ c) n off = Inr es"
  using assms
proof (induction es arbitrary: a off)
  case Nil
  then show ?case by (subst events_loop.simps) simp
next
  case (Cons ev es)
  let ?c = "concat (map (encode_event vers) es) @ c"
  let ?raw = "case ev_pidfd ev of None \<Rightarrow> fan_nopidfd | Some p \<Rightarrow> p"
  have "events_loop ((a @ encode_event vers ev) @ ?c) n (off + 32) = Inr es"
    using Cons.prems by (intro Cons.IH) auto
  moreover have "(if 0 \<le> sint ?raw then Some ?raw else None) = ev_pidfd ev"
    using Cons.prems(1) by (auto simp: event_ok_def fan_nopidfd_def split: option.splits)
  then have "parse_event (a @ encode_event vers ev @ ?c) off
      (load_metadata (a @ encode_event vers ev @ ?c) off) = Inr ev"
    using Cons.prems(1,2)
    by (simp add: load_metadata_encode parse_event_def info_loop_encode owned_fd_def event_ok_def)
  ultimately show ?case
    using Cons.prems(2,3)
    by (subst events_loop.simps) (simp add: load_metadata_encode meta_size_def)
qed

lemma read_ready_encode:
  assumes "\<forall>ev \<in> set es. event_ok ev"
    and "data = concat (map (encode_event vers) es) @ t" and "length t < meta_size"
  shows "read_ready (Inr data) = Inr (Inr es)"
proof -
  have "length (concat (map (encode_event vers) es)) = 32 * length es"
    by (induction es) auto
  then show ?thesis
    using events_loop_encode [OF assms(1), of "[]" 0 "length data" "length t" vers
        "t @ replicate (buf_size - length data) 0"] assms(2,3)
    by (simp add: read_ready_def read_buffer_def)
qed

text \<open>The parser never reads outside the buffer when each event leaves room for a pidfd.\<close>

lemma info_loop_in_bounds:
  "lim + 4 \<le> length buf \<Longrightarrow> \<exists>p. info_loop buf lim ioff pidfd = Inr p"
proof (induction buf lim ioff pidfd rule: info_loop.induct)
  case (1 buf lim ioff pidfd_raw)
  then show ?case
    by (subst info_loop.simps) (auto simp: Let_def)
qed

section \<open>Properties\<close>

text \<open>
  C12: the parser recovers, from the bytes of a batch of events as the kernel lays them out, exactly
  these events in order, reads nothing outside the buffer on the way, and ignores a cut-off tail.
\<close>

theorem parser_recovers_events:
  assumes "\<forall>ev \<in> set es. event_ok ev"
    and "data = concat (map (encode_event vers) es) @ t" and "length t < meta_size"
  shows "read_ready (Inr data) = Inr (Inr es)"
  by (rule read_ready_encode [OF assms])

theorem parser_recovers_events_witness:
  "read_ready (Inr (encode_event 3 \<lparr>ev_mask = fan_open_perm, ev_pid = 77, ev_fd = 5, ev_pidfd = Some 6\<rparr> @
       encode_event 3 \<lparr>ev_mask = 2, ev_pid = 78, ev_fd = 8, ev_pidfd = None\<rparr> @ [1, 2])) =
     Inr (Inr [\<lparr>ev_mask = fan_open_perm, ev_pid = 77, ev_fd = 5, ev_pidfd = Some 6\<rparr>,
               \<lparr>ev_mask = 2, ev_pid = 78, ev_fd = 8, ev_pidfd = None\<rparr>])"
proof (rule parser_recovers_events [where vers = 3 and t = "[1, 2]"])
  show "\<forall>ev \<in> set [\<lparr>ev_mask = fan_open_perm, ev_pid = 77, ev_fd = 5, ev_pidfd = Some 6\<rparr>,
      \<lparr>ev_mask = 2, ev_pid = 78, ev_fd = 8, ev_pidfd = None\<rparr>]. event_ok ev"
    by (simp add: event_ok_def)
qed (simp_all add: meta_size_def)

text \<open>
  The parser trusts the kernel for two things it does not check. An event with descriptor -1
  (what a queue overflow reports) makes it build an owned descriptor from -1, and an info record of
  pidfd type that has only its header left at the end of the buffer is read past the end.
\<close>

theorem parser_trusts_the_kernel:
  "read_ready (Inr (encode_event 3 \<lparr>ev_mask = m, ev_pid = p, ev_fd = - 1, ev_pidfd = None\<rparr>)) =
     Inr (Inl InvalidFd) \<and>
   info_loop (replicate n 0 @ [fan_info_pidfd, 0] @ le_bytes 2 8) (n + 4) n q = Inl OutOfBounds"
proof
  let ?ev = "\<lparr>ev_mask = m, ev_pid = p, ev_fd = - 1, ev_pidfd = None\<rparr>"
  let ?z = "replicate (buf_size - 32) 0"
  have meta: "load_metadata (encode_event 3 ?ev @ ?z) 0 =
    \<lparr>em_event_len = 32, em_metadata_len = 24, em_mask = m, em_fd = - 1, em_pid = p\<rparr>"
    using load_metadata_encode [of "[]" 0 3 ?ev ?z] by simp
  have info: "info_loop (encode_event 3 ?ev @ ?z) 32 24 fan_nopidfd = Inr fan_nopidfd"
    using info_loop_encode [of "[]" 0 3 ?ev ?z] by simp
  show "read_ready (Inr (encode_event 3 ?ev)) = Inr (Inl InvalidFd)"
    unfolding read_ready_def read_buffer_def sum.case
    by (subst events_loop.simps) (simp add: meta info meta_size_def parse_event_def owned_fd_def)
next
  show "info_loop (replicate n 0 @ [fan_info_pidfd, 0] @ le_bytes 2 8) (n + 4) n q = Inl OutOfBounds"
    by (subst info_loop.simps) (simp add: info_size_def load_def fan_info_pidfd_def)
qed

end
