(* ===== verification/FW_Walk.thy ===== *)
theory FW_Walk
  imports FW_Policy
begin

text \<open>
  Resolving a watch on disk (\<open>scan_watch\<close>, \<open>walk_dirs\<close> of \<open>filewalld/src/main.rs\<close> and
  \<open>dirs_to_mark\<close> of \<open>treewatch.rs\<close>) over a view of the file system: what \<open>symlink_metadata\<close>
  and \<open>read_dir\<close> answer for each path during the walk.
\<close>

section \<open>A view of the file system\<close>

datatype file_kind = RegularFile | Directory | SpecialFile

record fs_view =
  fv_kind :: "path \<Rightarrow> file_kind option"          \<comment> \<open>\<open>symlink_metadata\<close>, links not followed\<close>
  fv_entries :: "path \<Rightarrow> string list option"     \<comment> \<open>\<open>read_dir\<close>, the entries that could be read\<close>

section \<open>The walk\<close>

fun walk_entries ::
    "fs_view \<Rightarrow> (path \<Rightarrow> bool) \<Rightarrow> path \<Rightarrow> string list \<Rightarrow> path list \<Rightarrow> path list \<Rightarrow> path list \<times> path list" where
  "walk_entries fs excluded dir [] out stack = (out, stack)"
| "walk_entries fs excluded dir (name # names) out stack =
     (let path = path_join dir name
      in if excluded path then walk_entries fs excluded dir names out stack
         else if fv_kind fs path = Some Directory
         then walk_entries fs excluded dir names (out @ [path]) (path # stack)
         else walk_entries fs excluded dir names out stack)"

definition walk_step ::
    "fs_view \<Rightarrow> (path \<Rightarrow> bool) \<Rightarrow> path list \<times> path list \<Rightarrow> path list \<times> path list" where
  "walk_step fs excluded st =
     (let (out, stack) = st; dir = hd stack; rest = tl stack
      in (case fv_entries fs dir of
            None \<Rightarrow> (out, rest)
          | Some names \<Rightarrow> walk_entries fs excluded dir names out rest))"

partial_function (option) walk_loop ::
    "fs_view \<Rightarrow> (path \<Rightarrow> bool) \<Rightarrow> path list \<times> path list \<Rightarrow> path list option" where
  "walk_loop fs excluded st =
     (if snd st = [] then Some (fst st)
      else walk_loop fs excluded (walk_step fs excluded st))"

definition walk_dirs :: "fs_view \<Rightarrow> path \<Rightarrow> (path \<Rightarrow> bool) \<Rightarrow> path list option" where
  "walk_dirs fs root excluded = walk_loop fs excluded ([root], [root])"

definition dirs_to_mark :: "fs_view \<Rightarrow> path \<Rightarrow> (path \<Rightarrow> bool) \<Rightarrow> path list option" where
  "dirs_to_mark fs new_dir excluded =
     (if excluded new_dir then Some [] else walk_dirs fs new_dir excluded)"

section \<open>Scanning a watch\<close>

datatype watch_scan = ScanUnresolved | ScanFile path | ScanDir "path list"

definition scan_watch :: "fs_view \<Rightarrow> ('g, 's) glob_api \<Rightarrow> 's watch_policy \<Rightarrow> watch_scan option" where
  "scan_watch fs api watch =
     (let root = wp_root watch
      in (case fv_kind fs root of
            Some RegularFile \<Rightarrow> Some (ScanFile root)
          | Some Directory \<Rightarrow>
              if \<not> wp_recursive watch then Some (ScanDir [root])
              else map_option ScanDir (walk_dirs fs root (is_excluded api watch))
          | _ \<Rightarrow> Some ScanUnresolved))"

section \<open>What the walk should find\<close>

inductive walk_reach :: "fs_view \<Rightarrow> (path \<Rightarrow> bool) \<Rightarrow> path \<Rightarrow> path \<Rightarrow> bool"
  for fs :: fs_view and excluded :: "path \<Rightarrow> bool" and root :: path where
  walk_root: "walk_reach fs excluded root root"
| walk_child:
    "walk_reach fs excluded root dir \<Longrightarrow> fv_entries fs dir = Some names \<Longrightarrow> name \<in> set names \<Longrightarrow>
     \<not> excluded (path_join dir name) \<Longrightarrow> fv_kind fs (path_join dir name) = Some Directory \<Longrightarrow>
     walk_reach fs excluded root (path_join dir name)"

inductive_cases walk_reachE: "walk_reach fs excluded root p"

text \<open>
  The kernel's side of termination: entry names are single names, a directory has at most so
  many entries, and no path longer than \<open>PATH_MAX\<close> resolves to a directory.
\<close>

definition fs_bounded :: "nat \<Rightarrow> nat \<Rightarrow> fs_view \<Rightarrow> bool" where
  "fs_bounded path_max width fs \<longleftrightarrow>
     (\<forall>p names. fv_entries fs p = Some names \<longrightarrow>
        length names \<le> width \<and> (\<forall>n \<in> set names. plain_name n)) \<and>
     (\<forall>p. fv_kind fs p = Some Directory \<longrightarrow> length p \<le> path_max)"

text \<open>The directories among the entries, in the order the walk finds them.\<close>

definition subdirs :: "fs_view \<Rightarrow> (path \<Rightarrow> bool) \<Rightarrow> path \<Rightarrow> string list \<Rightarrow> path list" where
  "subdirs fs excluded dir names =
     filter (\<lambda>p. \<not> excluded p \<and> fv_kind fs p = Some Directory) (map (path_join dir) names)"

definition walk_weight :: "nat \<Rightarrow> nat \<Rightarrow> path list \<Rightarrow> nat" where
  "walk_weight path_max width stack =
     sum_list (map (\<lambda>p. Suc width ^ (path_max - length p)) stack)"

section \<open>Lemmas\<close>

lemma walk_entries_eq:
  "walk_entries fs excluded dir names out stack =
     (out @ subdirs fs excluded dir names, rev (subdirs fs excluded dir names) @ stack)"
  by (induction names arbitrary: out stack) (auto simp: subdirs_def Let_def)

lemma walk_loop_simps:
  "walk_loop fs excluded (out, []) = Some out"
  "fv_entries fs dir = None \<Longrightarrow> walk_loop fs excluded (out, dir # rest) = walk_loop fs excluded (out, rest)"
  "fv_entries fs dir = Some names \<Longrightarrow>
   walk_loop fs excluded (out, dir # rest) =
     walk_loop fs excluded (out @ subdirs fs excluded dir names,
       rev (subdirs fs excluded dir names) @ rest)"
  by (subst walk_loop.simps, simp add: walk_step_def walk_entries_eq Let_def)+

lemma subdirs_length: "length (subdirs fs excluded dir names) \<le> length names"
  unfolding subdirs_def by (rule order.trans [OF length_filter_le]) simp

lemma sum_list_bound:
  "(\<And>x. x \<in> set xs \<Longrightarrow> f x \<le> (c::nat)) \<Longrightarrow> sum_list (map f xs) \<le> length xs * c"
  by (induction xs) (auto simp: add_mono)

lemma subdirs_weight:
  assumes "fs_bounded path_max width fs" and "fv_entries fs dir = Some names"
  shows "walk_weight path_max width (subdirs fs excluded dir names) <
         walk_weight path_max width [dir]"
proof -
  let ?ds = "subdirs fs excluded dir names"
  have child: "length dir < length p \<and> length p \<le> path_max" if "p \<in> set ?ds" for p
    using assms that length_path_join by (auto simp: subdirs_def fs_bounded_def)
  show ?thesis
  proof (cases "?ds = []")
    case True
    then show ?thesis by (simp add: walk_weight_def)
  next
    case False
    then obtain p where "p \<in> set ?ds" using hd_in_set by blast
    then have room: "length dir < path_max" using child by fastforce
    define k where "k = path_max - length dir - 1"
    have "Suc width ^ (path_max - length p) \<le> Suc width ^ k" if "p \<in> set ?ds" for p
      using child [OF that] by (intro power_increasing) (auto simp: k_def)
    then have "walk_weight path_max width ?ds \<le> length ?ds * Suc width ^ k"
      unfolding walk_weight_def by (rule sum_list_bound)
    also have "\<dots> \<le> width * Suc width ^ k"
      using assms subdirs_length [of fs excluded dir names]
      by (intro mult_le_mono1) (auto simp: fs_bounded_def intro: order.trans)
    also have "\<dots> < Suc width ^ Suc k" by simp
    also have "Suc k = path_max - length dir"
      using room by (simp add: k_def)
    finally show ?thesis by (simp add: walk_weight_def)
  qed
qed

lemma walk_weight_append:
  "walk_weight path_max width (as @ bs) = walk_weight path_max width as + walk_weight path_max width bs"
  by (simp add: walk_weight_def)

lemma walk_weight_rev: "walk_weight path_max width (rev ps) = walk_weight path_max width ps"
  unfolding walk_weight_def by (metis rev_map sum_list_rev)

definition expanded :: "fs_view \<Rightarrow> (path \<Rightarrow> bool) \<Rightarrow> path set \<Rightarrow> path \<Rightarrow> bool" where
  "expanded fs excluded found d \<longleftrightarrow>
     (\<forall>names. fv_entries fs d = Some names \<longrightarrow> set (subdirs fs excluded d names) \<subseteq> found)"

lemma walk_loop_total:
  assumes "fs_bounded path_max width fs"
    and "\<forall>d \<in> set out. walk_reach fs excluded root d" and "set stack \<subseteq> set out"
    and "\<forall>d \<in> set out. d \<in> set stack \<or> expanded fs excluded (set out) d"
  shows "\<exists>ds. walk_loop fs excluded (out, stack) = Some ds \<and> set out \<subseteq> set ds \<and>
           (\<forall>d \<in> set ds. walk_reach fs excluded root d) \<and>
           (\<forall>d \<in> set ds. expanded fs excluded (set ds) d)"
  using assms(2-)
proof (induction "walk_weight path_max width stack" arbitrary: out stack rule: less_induct)
  case less
  show ?case
  proof (cases stack)
    case Nil
    then show ?thesis using less.prems by (auto simp: walk_loop_simps)
  next
    case (Cons dir rest)
    show ?thesis
    proof (cases "fv_entries fs dir")
      case None
      have "walk_weight path_max width rest < walk_weight path_max width stack"
        using Cons by (simp add: walk_weight_def)
      moreover have "expanded fs excluded (set out) dir"
        using None by (simp add: expanded_def)
      moreover from this have "\<forall>d \<in> set out. d \<in> set rest \<or> expanded fs excluded (set out) d"
        using less.prems(3) Cons by auto
      ultimately show ?thesis
        using less.hyps [of rest out] less.prems Cons None
        by (simp add: walk_loop_simps)
    next
      case (Some names)
      let ?ds = "subdirs fs excluded dir names"
      let ?out = "out @ ?ds" and ?stack = "rev ?ds @ rest"
      have w: "walk_weight path_max width ?stack < walk_weight path_max width stack"
        using subdirs_weight [OF assms(1) Some, of excluded] Cons
          walk_weight_append [of path_max width "[dir]" rest]
        by (simp add: walk_weight_append walk_weight_rev)
      have reach: "\<forall>d \<in> set ?out. walk_reach fs excluded root d"
        using less.prems Cons Some by (auto simp: subdirs_def intro: walk_child)
      have sub: "set ?stack \<subseteq> set ?out"
        using less.prems Cons by auto
      have "expanded fs excluded (set ?out) d" if "expanded fs excluded (set out) d" for d
        using that by (auto simp: expanded_def)
      moreover have "expanded fs excluded (set ?out) dir"
        using Some by (simp add: expanded_def)
      ultimately have "\<forall>d \<in> set ?out. d \<in> set ?stack \<or> expanded fs excluded (set ?out) d"
        using less.prems(3) Cons by auto
      from less.hyps [OF w reach sub this] show ?thesis
        using Cons Some by (auto simp: walk_loop_simps)
    qed
  qed
qed

lemma walk_dirs_exact:
  assumes "fs_bounded path_max width fs"
  shows "\<exists>ds. walk_dirs fs root excluded = Some ds \<and> set ds = {d. walk_reach fs excluded root d}"
proof -
  obtain ds where ds: "walk_loop fs excluded ([root], [root]) = Some ds" and "root \<in> set ds"
    and sound: "\<forall>d \<in> set ds. walk_reach fs excluded root d"
    and closed: "\<forall>d \<in> set ds. expanded fs excluded (set ds) d"
    using walk_loop_total [OF assms, of "[root]" excluded root "[root]"]
    by (auto intro: walk_root)
  have "d \<in> set ds" if "walk_reach fs excluded root d" for d
    using that
  proof (induction rule: walk_reach.induct)
    case walk_root
    show ?case by fact
  next
    case (walk_child dir names name)
    then have "path_join dir name \<in> set (subdirs fs excluded dir names)"
      by (simp add: subdirs_def)
    then show ?case
      using closed walk_child.IH walk_child.hyps(2) by (auto simp: expanded_def)
  qed
  then show ?thesis
    using ds sound by (auto simp: walk_dirs_def)
qed

lemma walk_reach_starts_with:
  assumes "fs_bounded path_max width fs" and "walk_reach fs excluded root d"
  shows "starts_with d root"
  using assms(2)
proof (induction rule: walk_reach.induct)
  case walk_root
  show ?case by simp
next
  case (walk_child dir names name)
  have "plain_name name"
    using assms(1) walk_child.hyps(2,3) by (auto simp: fs_bounded_def)
  then show ?case
    using walk_child.IH starts_with_join starts_with_trans by blast
qed

lemma walk_reach_not_excluded:
  "walk_reach fs excluded root d \<Longrightarrow> d = root \<or> \<not> excluded d \<and> fv_kind fs d = Some Directory"
  by (erule walk_reachE) auto

lemma dirs_to_mark_exact:
  assumes "fs_bounded path_max width fs"
  shows "\<exists>ds. dirs_to_mark fs d excluded = Some ds \<and>
           set ds = {e. \<not> excluded d \<and> walk_reach fs excluded d e}"
  using walk_dirs_exact [OF assms, of d excluded] by (auto simp: dirs_to_mark_def)

lemma scan_watch_total:
  assumes "fs_bounded path_max width fs"
  shows "\<exists>sc. scan_watch fs api w = Some sc"
  using walk_dirs_exact [OF assms, of "wp_root w" "is_excluded api w"]
  by (auto simp: scan_watch_def Let_def split: option.splits file_kind.splits)

lemma scan_watch_dir:
  assumes "fs_bounded path_max width fs" and "scan_watch fs api w = Some (ScanDir ds)"
  shows "fv_kind fs (wp_root w) = Some Directory" and "wp_root w \<in> set ds"
    and "wp_recursive w \<Longrightarrow> set ds = {d. walk_reach fs (is_excluded api w) (wp_root w) d}"
    and "\<not> wp_recursive w \<Longrightarrow> ds = [wp_root w]"
  using assms walk_dirs_exact [OF assms(1), of "wp_root w" "is_excluded api w"]
  by (auto simp: scan_watch_def Let_def intro: walk_root
      split: option.splits file_kind.splits if_splits)

section \<open>Properties\<close>

text \<open>A small file system: \<open>/w\<close> with a directory \<open>a\<close>, a cache directory \<open>c\<close> and a file \<open>f\<close>.\<close>

definition demo_fs :: fs_view where
  "demo_fs =
     \<lparr>fv_kind = (\<lambda>p. if p \<in> {''/w'', ''/w/a'', ''/w/c''} then Some Directory
                   else if p = ''/w/f'' then Some RegularFile else None),
      fv_entries = (\<lambda>p. if p = ''/w'' then Some [''a'', ''c'', ''f''] else
                     if p = ''/w/a'' then Some [] else None)\<rparr>"

lemma demo_fs_bounded: "fs_bounded 4 3 demo_fs"
  by (auto simp: fs_bounded_def demo_fs_def plain_name_def split: if_splits)

text \<open>
  C9: the walk of a watch root ends, and what it returns is exactly the root and the directories
  that are reached from it through directories that are not excluded; all of them lie inside the
  root and none but the root is excluded.
\<close>

theorem walk_finds_exactly_the_tree:
  assumes "fs_bounded path_max width fs"
  shows "\<exists>ds. walk_dirs fs root excluded = Some ds \<and>
    set ds = {d. walk_reach fs excluded root d} \<and>
    (\<forall>d \<in> set ds. starts_with d root \<and> (d \<noteq> root \<longrightarrow> \<not> excluded d \<and> fv_kind fs d = Some Directory))"
  using walk_dirs_exact [OF assms, of root excluded] walk_reach_starts_with [OF assms]
    walk_reach_not_excluded by fastforce

theorem walk_finds_exactly_the_tree_witness:
  "\<exists>ds. walk_dirs demo_fs ''/w'' (\<lambda>p. p = ''/w/c'') = Some ds \<and> ''/w/a'' \<in> set ds \<and> ''/w/c'' \<notin> set ds"
proof -
  let ?ex = "\<lambda>p. p = ''/w/c''"
  have join: "path_join ''/w'' ''a'' = ''/w/a''" by code_simp
  have "walk_reach demo_fs ?ex ''/w'' (path_join ''/w'' ''a'')"
    by (rule walk_child [OF walk_root, where names = "[''a'', ''c'', ''f'']"])
      (simp_all add: demo_fs_def join)
  then have "walk_reach demo_fs ?ex ''/w'' ''/w/a''" by (simp add: join)
  moreover have "\<not> walk_reach demo_fs ?ex ''/w'' ''/w/c''"
    using walk_reach_not_excluded [of demo_fs ?ex "''/w''" "''/w/c''"] by auto
  ultimately show ?thesis
    using walk_finds_exactly_the_tree [OF demo_fs_bounded, of "''/w''" ?ex] by auto
qed

end
