(* ===== verification/FW_Proto.thy ===== *)
theory FW_Proto
  imports FW_Path FW_Text
begin

text \<open>
  The IPC messages and their framing (\<open>filewall-proto/src/lib.rs\<close>): the message types, a
  four-byte big-endian length before each JSON body, the size caps. \<open>serde_json\<close> is a
  parameter; the reader and writer a framing function is generic in are its arguments, with
  the contract of \<open>std::io\<close> stated as locales and met by the model of a Unix stream socket.
\<close>

section \<open>Messages\<close>

record prompt_request =
  pr_pid :: u32
  pr_exe :: string
  pr_cmdline :: string
  pr_cwd :: string
  pr_path :: string
  pr_always_object :: string
  pr_always_tree :: bool
  pr_always_cwd_pinned :: bool
  pr_ui_timeout_ms :: u32

datatype decision = AllowOnce | DenyOnce | AllowAlways | DenyAlways

definition decision_allows :: "decision \<Rightarrow> bool" where
  "decision_allows d = (case d of AllowOnce \<Rightarrow> True | AllowAlways \<Rightarrow> True | _ \<Rightarrow> False)"

record prompt_response =
  pp_decision :: decision

datatype obj_kind = ObjFile | ObjDir

record watched_object =
  wo_path :: string
  wo_kind :: obj_kind
  wo_recursive :: bool
  wo_watch :: string
  wo_fanotify :: bool
  wo_live_marked :: "bool option"

datatype control_request = Dump

record dump_response =
  dr_pid :: u32
  dr_generated_unix :: u64
  dr_objects :: "watched_object list"

definition max_msg_len :: u32 where
  "max_msg_len = 64 * 1024"

definition max_control_msg_len :: u32 where
  "max_control_msg_len = 8 * 1024 * 1024"

section \<open>Framing\<close>

definition to_be_bytes :: "u32 \<Rightarrow> bytes" where
  "to_be_bytes w = [ucast (drop_bit 24 w), ucast (drop_bit 16 w), ucast (drop_bit 8 w), ucast w]"

definition from_be_bytes :: "bytes \<Rightarrow> u32" where
  "from_be_bytes bs =
     (case bs of
        [a, b, c, d] \<Rightarrow>
          push_bit 24 (ucast a) OR push_bit 16 (ucast b) OR push_bit 8 (ucast c) OR ucast d
      | _ \<Rightarrow> 0)"

definition write_msg_capped ::
    "(bytes \<Rightarrow> 'w \<Rightarrow> unit io_result \<times> 'w) \<Rightarrow> ('w \<Rightarrow> unit io_result \<times> 'w) \<Rightarrow>
     ('m \<Rightarrow> bytes io_result) \<Rightarrow> u32 \<Rightarrow> 'm \<Rightarrow> 'w \<Rightarrow> unit io_result \<times> 'w" where
  "write_msg_capped write_all flush to_vec cap msg w =
     (case to_vec msg of
        Inl e \<Rightarrow> (Inl e, w)
      | Inr body \<Rightarrow>
          if \<not> length body < 2 ^ 32 then (Inl InvalidData, w)
          else
            (let len = (of_nat (length body) :: u32)
             in if cap < len then (Inl InvalidData, w)
                else
                  (case write_all (to_be_bytes len) w of
                     (Inl e, w1) \<Rightarrow> (Inl e, w1)
                   | (Inr _, w1) \<Rightarrow>
                       (case write_all body w1 of
                          (Inl e, w2) \<Rightarrow> (Inl e, w2)
                        | (Inr _, w2) \<Rightarrow> flush w2))))"

definition read_msg_capped ::
    "(nat \<Rightarrow> 'r \<Rightarrow> bytes io_result \<times> 'r) \<Rightarrow> (bytes \<Rightarrow> 'm option) \<Rightarrow> u32 \<Rightarrow> 'r \<Rightarrow> 'm io_result \<times> 'r" where
  "read_msg_capped read_exact from_slice cap r =
     (case read_exact 4 r of
        (Inl e, r1) \<Rightarrow> (Inl e, r1)
      | (Inr len_buf, r1) \<Rightarrow>
          (let len = from_be_bytes len_buf
           in if cap < len then (Inl InvalidData, r1)
              else
                (case read_exact (unat len) r1 of
                   (Inl e, r2) \<Rightarrow> (Inl e, r2)
                 | (Inr body, r2) \<Rightarrow>
                     (case from_slice body of
                        None \<Rightarrow> (Inl InvalidData, r2)
                      | Some m \<Rightarrow> (Inr m, r2)))))"

definition write_msg ::
    "(bytes \<Rightarrow> 'w \<Rightarrow> unit io_result \<times> 'w) \<Rightarrow> ('w \<Rightarrow> unit io_result \<times> 'w) \<Rightarrow>
     ('m \<Rightarrow> bytes io_result) \<Rightarrow> 'm \<Rightarrow> 'w \<Rightarrow> unit io_result \<times> 'w" where
  "write_msg write_all flush to_vec msg w = write_msg_capped write_all flush to_vec max_msg_len msg w"

definition read_msg ::
    "(nat \<Rightarrow> 'r \<Rightarrow> bytes io_result \<times> 'r) \<Rightarrow> (bytes \<Rightarrow> 'm option) \<Rightarrow> 'r \<Rightarrow> 'm io_result \<times> 'r" where
  "read_msg read_exact from_slice r = read_msg_capped read_exact from_slice max_msg_len r"

text \<open>What one message looks like on the wire.\<close>

definition frame :: "bytes \<Rightarrow> bytes" where
  "frame body = to_be_bytes (of_nat (length body)) @ body"

section \<open>A Unix stream socket\<close>

text \<open>
  One end of a connected stream. What will arrive is a script: data, or an error that a
  blocking read reports at that point (\<open>WouldBlock\<close> when the read timeout elapses first); at the
  end of the script the peer has closed. What can still be sent is either unlimited, or so many
  bytes until the given error; the error \<open>WouldBlock\<close> says that the peer stopped reading and the
  buffers are full.
\<close>

datatype net_event = Data bytes | Fail io_kind

record socket =
  sk_in :: "net_event list"
  sk_out :: bytes
  sk_room :: "(nat \<times> io_kind) option"

fun recv :: "nat \<Rightarrow> net_event list \<Rightarrow> bytes io_result \<times> net_event list" where
  "recv n [] = (if n = 0 then (Inr [], []) else (Inl UnexpectedEof, []))"
| "recv n (Fail k # q) =
     (if n = 0 then (Inr [], Fail k # q)
      else if k = Interrupted then recv n q else (Inl k, q))"
| "recv n (Data bs # q) =
     (if n < length bs then (Inr (take n bs), Data (drop n bs) # q)
      else (case recv (n - length bs) q of
              (Inl e, q') \<Rightarrow> (Inl e, q')
            | (Inr cs, q') \<Rightarrow> (Inr (bs @ cs), q')))"

definition sock_read :: "nat \<Rightarrow> socket \<Rightarrow> bytes io_result \<times> socket" where
  "sock_read n s = (let (r, q) = recv n (sk_in s) in (r, s\<lparr>sk_in := q\<rparr>))"

definition sock_write :: "bytes \<Rightarrow> socket \<Rightarrow> unit io_result \<times> socket" where
  "sock_write bs s =
     (case sk_room s of
        None \<Rightarrow> (Inr (), s\<lparr>sk_out := sk_out s @ bs\<rparr>)
      | Some (n, e) \<Rightarrow>
          if length bs \<le> n
          then (Inr (), s\<lparr>sk_out := sk_out s @ bs, sk_room := Some (n - length bs, e)\<rparr>)
          else (Inl e, s\<lparr>sk_out := sk_out s @ take n bs, sk_room := Some (0, e)\<rparr>))"

definition sock_flush :: "socket \<Rightarrow> unit io_result \<times> socket" where
  "sock_flush s = (Inr (), s)"

text \<open>
  When the buffers are full, \<open>sock_write\<close> reports \<open>WouldBlock\<close>: this is a socket with a write timeout.
  On a socket without one \<open>write_all\<close> waits, and when the peer never reads again it waits for ever.
  The blocking writer keeps the socket as an option; \<open>None\<close> is a call that does not return.
\<close>

definition write_stalls :: "bytes \<Rightarrow> socket \<Rightarrow> bool" where
  "write_stalls bs s =
     (case sk_room s of None \<Rightarrow> False | Some (n, e) \<Rightarrow> e = WouldBlock \<and> n < length bs)"

definition blocking_write :: "bytes \<Rightarrow> socket option \<Rightarrow> unit io_result \<times> socket option" where
  "blocking_write bs w =
     (case w of
        None \<Rightarrow> (Inl WouldBlock, None)
      | Some s \<Rightarrow>
          if write_stalls bs s then (Inl WouldBlock, None)
          else (let (r, s') = sock_write bs s in (r, Some s')))"

definition blocking_flush :: "socket option \<Rightarrow> unit io_result \<times> socket option" where
  "blocking_flush w = (Inr (), w)"

text \<open>The peer keeps reading, or the connection fails with an error of its own.\<close>

definition keeps_reading :: "socket \<Rightarrow> bool" where
  "keeps_reading s = (case sk_room s of None \<Rightarrow> True | Some (n, e) \<Rightarrow> e \<noteq> WouldBlock)"

text \<open>The bytes a blocking read can still get before an error or the end.\<close>

fun arriving :: "net_event list \<Rightarrow> bytes" where
  "arriving [] = []"
| "arriving (Fail k # q) = (if k = Interrupted then arriving q else [])"
| "arriving (Data bs # q) = bs @ arriving q"

section \<open>The contracts of readers and writers\<close>

locale byte_sink =
  fixes write_all :: "bytes \<Rightarrow> 'w \<Rightarrow> unit io_result \<times> 'w"
    and flush :: "'w \<Rightarrow> unit io_result \<times> 'w"
    and sent :: "'w \<Rightarrow> bytes"
  assumes write_ok: "write_all bs w = (Inr u, w') \<Longrightarrow> sent w' = sent w @ bs"
    and write_err: "write_all bs w = (Inl e, w') \<Longrightarrow> \<exists>n \<le> length bs. sent w' = sent w @ take n bs"
    and flush_sent: "flush w = (r, w') \<Longrightarrow> sent w' = sent w"

locale byte_source =
  fixes read_exact :: "nat \<Rightarrow> 'r \<Rightarrow> bytes io_result \<times> 'r"
    and available :: "'r \<Rightarrow> bytes"
  assumes read_ok: "n \<le> length (available r) \<Longrightarrow>
      \<exists>r'. read_exact n r = (Inr (take n (available r)), r') \<and> available r' = drop n (available r)"
    and read_step: "read_exact n r = (Inr bs, r') \<Longrightarrow>
      bs = take n (available r) \<and> length bs = n \<and> available r' = drop n (available r)"

lemma be_bytes_roundtrip [simp, fw_wire]: "from_be_bytes (to_be_bytes w) = w"
  unfolding from_be_bytes_def to_be_bytes_def list.case
proof (rule bit_word_eqI)
  fix n
  assume "n < LENGTH(32)"
  then consider "n < 8" | "8 \<le> n" "n < 16" | "16 \<le> n" "n < 24" | "24 \<le> n" "n < 32"
    by fastforce
  then show "bit (push_bit 24 (ucast (ucast (drop_bit 24 w) :: u8)) OR
      push_bit 16 (ucast (ucast (drop_bit 16 w) :: u8)) OR
      push_bit 8 (ucast (ucast (drop_bit 8 w) :: u8)) OR ucast (ucast w :: u8) :: u32) n = bit w n"
    by cases (auto simp: bit_simps)
qed

lemma be_bytes_roundtrip' [fw_wire]:
  assumes "length bs = 4"
  shows "to_be_bytes (from_be_bytes bs) = bs"
proof -
  obtain a b c d where bs: "bs = [a, b, c, d]"
    using assms by (auto simp: numeral_eq_Suc length_Suc_conv)
  let ?w = "push_bit 24 (ucast a) OR push_bit 16 (ucast b) OR push_bit 8 (ucast c) OR ucast d :: u32"
  have "ucast (drop_bit 24 ?w) = a" "ucast (drop_bit 16 ?w) = b"
    "ucast (drop_bit 8 ?w) = c" "ucast ?w = d"
    by (rule bit_word_eqI; auto simp: bit_simps dest: bit_imp_le_length)+
  then show ?thesis
    by (simp add: bs from_be_bytes_def to_be_bytes_def)
qed

lemma length_to_be_bytes [simp, fw_wire]: "length (to_be_bytes w) = 4"
  by (simp add: to_be_bytes_def)

lemma unat_of_len: "n < 2 ^ 32 \<Longrightarrow> unat (of_nat n :: u32) = n"
  by (simp add: unat_of_nat)

context byte_sink
begin

lemma write_msg_ok:
  assumes "write_msg_capped write_all flush to_vec cap msg w = (Inr u, w')"
  shows "\<exists>body. to_vec msg = Inr body \<and> length body \<le> unat cap \<and> sent w' = sent w @ frame body"
proof -
  obtain body where body: "to_vec msg = Inr body" and len: "length body < 2 ^ 32"
    and fits: "\<not> cap < (of_nat (length body) :: u32)"
    using assms by (auto simp: write_msg_capped_def Let_def split: sum.splits if_splits)
  with assms obtain u1 w1 u2 w2 where
    "write_all (to_be_bytes (of_nat (length body))) w = (Inr u1, w1)"
    and "write_all body w1 = (Inr u2, w2)" and "flush w2 = (Inr u, w')"
    by (auto simp: write_msg_capped_def Let_def split: sum.splits prod.splits)
  then have "sent w' = sent w @ frame body"
    using write_ok flush_sent by (simp add: frame_def)
  moreover have "length body \<le> unat cap"
    using fits len by (simp add: word_less_nat_alt unat_of_len)
  ultimately show ?thesis using body by blast
qed

text \<open>A message that is too long leaves the stream untouched, so the framing survives it.\<close>

lemma write_msg_too_long:
  assumes "to_vec msg = Inr body" and "unat cap < length body"
  shows "write_msg_capped write_all flush to_vec cap msg w = (Inl InvalidData, w)"
proof -
  have "cap < (of_nat (length body) :: u32)" if "length body < 2 ^ 32"
    using that assms(2) by (simp add: word_less_nat_alt unat_of_len)
  then show ?thesis
    using assms(1) by (simp add: write_msg_capped_def Let_def)
qed

end

context byte_source
begin

lemma read_msg_frame:
  assumes "available r = frame body @ rest" and "length body \<le> unat cap"
    and "from_slice body = Some m"
  shows "\<exists>r'. read_msg_capped read_exact from_slice cap r = (Inr m, r') \<and> available r' = rest"
proof -
  have "unat cap < 2 ^ 32"
    by (rule order.strict_trans2 [OF unsigned_less]) simp
  then have len: "length body < 2 ^ 32"
    using assms(2) by simp
  have "4 \<le> length (available r)"
    using assms(1) by (simp add: frame_def)
  then obtain r1 where r1: "read_exact 4 r = (Inr (take 4 (available r)), r1)"
    and a1: "available r1 = drop 4 (available r)"
    using read_ok by blast
  have "length body \<le> length (available r1)"
    using a1 assms(1) by (simp add: frame_def)
  then obtain r2 where r2: "read_exact (length body) r1 = (Inr (take (length body) (available r1)), r2)"
    and a2: "available r2 = drop (length body) (available r1)"
    using read_ok by blast
  have "\<not> cap < (of_nat (length body) :: u32)"
    using assms(2) len by (simp add: word_less_nat_alt unat_of_len)
  then show ?thesis
    using r1 r2 a1 a2 assms(1,3) len
    by (simp add: read_msg_capped_def frame_def unat_of_len Let_def)
qed

text \<open>A message is only accepted when the bytes that were there are a frame within the cap.\<close>

lemma read_msg_only_frames:
  assumes "read_msg_capped read_exact from_slice cap r = (Inr m, r')"
  shows "\<exists>body. available r = frame body @ available r' \<and> length body \<le> unat cap \<and>
           from_slice body = Some m"
proof -
  obtain len_buf r1 where r1: "read_exact 4 r = (Inr len_buf, r1)"
    and fits: "\<not> cap < from_be_bytes len_buf"
    using assms by (auto simp: read_msg_capped_def Let_def split: sum.splits prod.splits if_splits)
  with assms obtain body where r2: "read_exact (unat (from_be_bytes len_buf)) r1 = (Inr body, r')"
    and m: "from_slice body = Some m"
    by (auto simp: read_msg_capped_def Let_def split: sum.splits prod.splits option.splits if_splits)
  note s1 = read_step [OF r1] and s2 = read_step [OF r2]
  have "available r = len_buf @ body @ available r'"
    using s1 s2 by (metis append_take_drop_id)
  moreover have "of_nat (length body) = from_be_bytes len_buf"
    by (simp add: s2 [THEN conjunct2, THEN conjunct1])
  moreover have "to_be_bytes (from_be_bytes len_buf) = len_buf"
    using s1 by (intro be_bytes_roundtrip') blast
  ultimately have "available r = frame body @ available r'"
    by (simp add: frame_def)
  moreover have "length body \<le> unat cap"
    using fits s2 by (simp add: word_less_nat_alt)
  ultimately show ?thesis using m by blast
qed

end

locale byte_pipe = byte_sink + byte_source
begin

text \<open>The reader gets back the message that was written, and nothing of what follows it.\<close>

lemma pipe_roundtrip:
  assumes "write_msg_capped write_all flush to_vec cap msg w = (Inr u, w')"
    and "available r = drop (length (sent w)) (sent w') @ rest"
    and "\<And>body. to_vec msg = Inr body \<Longrightarrow> from_slice body = Some msg"
  shows "\<exists>r'. read_msg_capped read_exact from_slice cap r = (Inr msg, r') \<and> available r' = rest"
proof -
  obtain body where body: "to_vec msg = Inr body" "length body \<le> unat cap"
    and "sent w' = sent w @ frame body"
    using write_msg_ok [OF assms(1)] by blast
  then have "available r = frame body @ rest"
    using assms(2) by simp
  then show ?thesis
    using body(2) assms(3) [OF body(1)] by (rule read_msg_frame)
qed

end


section \<open>The stream socket meets the contracts\<close>

lemma recv_arriving:
  "n \<le> length (arriving q) \<Longrightarrow>
   \<exists>q'. recv n q = (Inr (take n (arriving q)), q') \<and> arriving q' = drop n (arriving q)"
proof (induction n q rule: recv.induct)
  case (1 n)
  then show ?case by simp
next
  case (2 n k q)
  then show ?case by (cases "n = 0"; cases "k = Interrupted") auto
next
  case (3 n bs q)
  show ?case
  proof (cases "n < length bs")
    case False
    moreover have "n - length bs \<le> length (arriving q)"
      using "3.prems" by simp
    ultimately obtain q' where "recv (n - length bs) q = (Inr (take (n - length bs) (arriving q)), q')"
      and "arriving q' = drop (n - length bs) (arriving q)"
      using "3.IH" by blast
    with False show ?thesis by auto
  qed auto
qed

lemma recv_step:
  "recv n q = (Inr bs, q') \<Longrightarrow>
   bs = take n (arriving q) \<and> length bs = n \<and> arriving q' = drop n (arriving q)"
proof (induction n q arbitrary: bs q' rule: recv.induct)
  case (1 n)
  then show ?case by (cases "n = 0") auto
next
  case (2 n k q)
  then show ?case by (cases "n = 0"; cases "k = Interrupted") auto
next
  case (3 n as q)
  show ?case
  proof (cases "n < length as")
    case True
    with "3.prems" show ?thesis by auto
  next
    case False
    with "3.prems" obtain cs where cs: "recv (n - length as) q = (Inr cs, q')" and "bs = as @ cs"
      by (auto split: sum.splits prod.splits)
    with "3.IH" [OF False cs] False show ?thesis by auto
  qed
qed

interpretation sending: byte_sink sock_write sock_flush sk_out
proof unfold_locales
  fix bs u w w'
  assume "sock_write bs w = (Inr u, w')"
  then show "sk_out w' = sk_out w @ bs"
    by (auto simp: sock_write_def split: option.splits if_splits)
next
  fix bs e w w'
  assume "sock_write bs w = (Inl e, w')"
  then show "\<exists>n \<le> length bs. sk_out w' = sk_out w @ take n bs"
    by (auto simp: sock_write_def split: option.splits if_splits) (metis nat_le_linear)
next
  fix w r w'
  assume "sock_flush w = (r, w')"
  then show "sk_out w' = sk_out w"
    by (simp add: sock_flush_def)
qed

interpretation receiving: byte_source sock_read "\<lambda>s :: socket. arriving (sk_in s)"
proof unfold_locales
  fix n and r :: socket
  assume "n \<le> length (arriving (sk_in r))"
  from recv_arriving [OF this]
  show "\<exists>r'. sock_read n r = (Inr (take n (arriving (sk_in r))), r') \<and>
             arriving (sk_in r') = drop n (arriving (sk_in r))"
    by (auto simp: sock_read_def)
next
  fix n bs and r r' :: socket
  assume "sock_read n r = (Inr bs, r')"
  then have "recv n (sk_in r) = (Inr bs, sk_in r')"
    by (auto simp: sock_read_def split: prod.splits)
  from recv_step [OF this]
  show "bs = take n (arriving (sk_in r)) \<and> length bs = n \<and>
        arriving (sk_in r') = drop n (arriving (sk_in r))" .
qed

interpretation sock: byte_pipe sock_write sock_flush sk_out sock_read "\<lambda>s :: socket. arriving (sk_in s)" ..

text \<open>Reading leaves what can be sent alone, and writing leaves what will arrive alone.\<close>

lemma sock_read_frame: "sock_read n s = (r, s') \<Longrightarrow> sk_out s' = sk_out s \<and> sk_room s' = sk_room s"
  by (auto simp: sock_read_def split: prod.splits)

lemma sock_write_frame: "sock_write bs s = (r, s') \<Longrightarrow> sk_in s' = sk_in s"
  by (auto simp: sock_write_def split: option.splits if_splits)

lemma write_msg_in:
  "write_msg_capped sock_write sock_flush to_vec cap msg s = (r, s') \<Longrightarrow> sk_in s' = sk_in s"
  by (auto simp: write_msg_capped_def sock_flush_def Let_def dest!: sock_write_frame
      split: sum.splits prod.splits if_splits)

lemma read_msg_out:
  "read_msg_capped sock_read from_slice cap s = (r, s') \<Longrightarrow> sk_out s' = sk_out s"
  by (auto simp: read_msg_capped_def Let_def dest!: sock_read_frame
      split: sum.splits prod.splits option.splits if_splits)

lemma read_msg_room:
  "read_msg_capped sock_read from_slice cap s = (r, s') \<Longrightarrow> sk_room s' = sk_room s"
  by (auto simp: read_msg_capped_def Let_def dest!: sock_read_frame
      split: sum.splits prod.splits option.splits if_splits)

text \<open>A message that fits goes out whole when nothing stops the sending.\<close>

lemma write_msg_capped_fits:
  assumes "enc m = Inr out" and "length out \<le> unat mx" and "sk_room s = None"
  shows "write_msg_capped sock_write sock_flush enc mx m s = (Inr (), s\<lparr>sk_out := sk_out s @ frame out\<rparr>)"
proof -
  have lim: "unat mx < 2 ^ 32"
    by (rule order.strict_trans2 [OF unsigned_less]) simp
  then have "\<not> mx < (of_nat (length out) :: u32)"
    using assms(2) by (simp add: word_less_nat_alt unat_of_len)
  then show ?thesis
    using assms lim
    by (simp add: write_msg_capped_def Let_def sock_write_def sock_flush_def frame_def)
qed

lemma write_msg_fits:
  assumes "enc m = Inr out" and "length out \<le> unat max_msg_len" and "sk_room s = None"
  shows "write_msg sock_write sock_flush enc m s = (Inr (), s\<lparr>sk_out := sk_out s @ frame out\<rparr>)"
  unfolding write_msg_def using assms by (rule write_msg_capped_fits)

text \<open>
  A message written by the blocking writer stalls exactly when it is sent at all, the peer has
  stopped reading and the frame does not fit; otherwise it behaves as the one with a timeout.
\<close>

lemma write_msg_stalls:
  "snd (write_msg_capped blocking_write blocking_flush enc mx m (Some s)) = None \<longleftrightarrow>
     (\<exists>out n. enc m = Inr out \<and> length out \<le> unat mx \<and> sk_room s = Some (n, WouldBlock) \<and>
        n < length (frame out))"
proof (cases "enc m")
  case (Inr out)
  have lim: "unat mx < 2 ^ 32"
    by (rule order.strict_trans2 [OF unsigned_less]) simp
  then have fits: "length out < 2 ^ 32 \<and> \<not> mx < (of_nat (length out) :: u32) \<longleftrightarrow> length out \<le> unat mx"
    by (cases "length out < 2 ^ 32") (auto simp: word_less_nat_alt unat_of_len)
  show ?thesis
  proof (cases "sk_room s")
    case None
    then show ?thesis
      by (simp add: Inr write_msg_capped_def blocking_write_def blocking_flush_def write_stalls_def
          sock_write_def Let_def)
  next
    case (Some room)
    then show ?thesis
      using fits
      by (cases room)
        (auto simp: Inr write_msg_capped_def blocking_write_def blocking_flush_def write_stalls_def
          sock_write_def frame_def Let_def)
  qed
qed (simp add: write_msg_capped_def)

lemma write_msg_blocking:
  assumes "snd (write_msg_capped blocking_write blocking_flush enc mx m (Some s)) \<noteq> None"
  shows "write_msg_capped blocking_write blocking_flush enc mx m (Some s) =
    (let (r, s') = write_msg_capped sock_write sock_flush enc mx m s in (r, Some s'))"
  using assms
  by (auto simp: write_msg_capped_def blocking_write_def blocking_flush_def sock_flush_def Let_def
      case_prod_beta split: sum.splits if_splits)

lemma sock_read_keeps: "sock_read n s = (r, s') \<Longrightarrow> keeps_reading s' = keeps_reading s"
  by (auto simp: keeps_reading_def dest: sock_read_frame)

lemma sock_write_keeps: "sock_write bs s = (r, s') \<Longrightarrow> keeps_reading s' = keeps_reading s"
  by (auto simp: keeps_reading_def sock_write_def split: option.splits if_splits)

lemma write_msg_keeps:
  "write_msg_capped sock_write sock_flush to_vec mx msg s = (r, s') \<Longrightarrow> keeps_reading s' = keeps_reading s"
  by (auto simp: write_msg_capped_def sock_flush_def Let_def dest!: sock_write_keeps
      split: sum.splits prod.splits if_splits)

lemma read_msg_keeps:
  "read_msg_capped sock_read from_slice mx s = (r, s') \<Longrightarrow> keeps_reading s' = keeps_reading s"
  by (auto simp: keeps_reading_def dest: read_msg_room)

section \<open>Properties\<close>

text \<open>
  A message that was written to the socket is read back from the bytes it put on the wire, and
  what follows it on the wire is left for the next read, so messages back to back stay apart.
\<close>

theorem framing_roundtrip:
  assumes "write_msg_capped sock_write sock_flush to_vec cap msg w = (Inr u, w')"
    and "arriving (sk_in r) = drop (length (sk_out w)) (sk_out w') @ rest"
    and "\<And>body. to_vec msg = Inr body \<Longrightarrow> from_slice body = Some msg"
  shows "\<exists>r'. read_msg_capped sock_read from_slice cap r = (Inr msg, r') \<and> arriving (sk_in r') = rest"
  by (rule sock.pipe_roundtrip [OF assms])

theorem framing_roundtrip_witness:
  "\<exists>r'. read_msg_capped sock_read Some 8
       \<lparr>sk_in = [Data [0, 0], Fail Interrupted, Data [0, 2, 7, 9, 5]], sk_out = [], sk_room = None\<rparr> =
     (Inr [7, 9 :: u8], r') \<and> arriving (sk_in r') = [5]"
proof -
  let ?w = "\<lparr>sk_in = [], sk_out = [], sk_room = None\<rparr>"
  have "write_msg_capped sock_write sock_flush Inr 8 [7, 9 :: u8] ?w =
      (Inr (), ?w\<lparr>sk_out := [0, 0, 0, 2, 7, 9]\<rparr>)"
    by (simp add: write_msg_capped_def sock_write_def sock_flush_def to_be_bytes_def Let_def)
  from framing_roundtrip [OF this, where r = "\<lparr>sk_in = [Data [0, 0], Fail Interrupted,
      Data [0, 2, 7, 9, 5]], sk_out = [], sk_room = None\<rparr>" and rest = "[5]" and from_slice = Some]
  show ?thesis by simp
qed

text \<open>
  A message is accepted only when the bytes that were there are one whole frame, no longer than
  the cap, whose body decodes to it; a length over the cap is refused before any of the body is
  read, and a message over the cap is refused without a byte going out.
\<close>

theorem only_frames_within_cap:
  "(\<forall>m r'. read_msg_capped sock_read from_slice cap r = (Inr m, r') \<longrightarrow>
      (\<exists>body. arriving (sk_in r) = frame body @ arriving (sk_in r') \<and>
         length body \<le> unat cap \<and> from_slice body = Some m)) \<and>
   (\<forall>n tail. arriving (sk_in r) = to_be_bytes n @ tail \<and> cap < n \<longrightarrow>
      (\<exists>r'. read_msg_capped sock_read from_slice cap r = (Inl InvalidData, r') \<and>
         arriving (sk_in r') = tail)) \<and>
   (\<forall>body. to_vec msg = Inr body \<and> unat cap < length body \<longrightarrow>
      write_msg_capped sock_write sock_flush to_vec cap msg w = (Inl InvalidData, w))"
proof (intro conjI allI impI)
  fix m r'
  assume "read_msg_capped sock_read from_slice cap r = (Inr m, r')"
  from receiving.read_msg_only_frames [OF this]
  show "\<exists>body. arriving (sk_in r) = frame body @ arriving (sk_in r') \<and>
         length body \<le> unat cap \<and> from_slice body = Some m" .
next
  fix n tail
  assume a: "arriving (sk_in r) = to_be_bytes n @ tail \<and> cap < n"
  then obtain r' where "sock_read 4 r = (Inr (to_be_bytes n), r')" "arriving (sk_in r') = tail"
    using receiving.read_ok [of 4 r] by auto
  then show "\<exists>r'. read_msg_capped sock_read from_slice cap r = (Inl InvalidData, r') \<and>
         arriving (sk_in r') = tail"
    using a by (simp add: read_msg_capped_def Let_def)
next
  fix body
  assume "to_vec msg = Inr body \<and> unat cap < length body"
  then show "write_msg_capped sock_write sock_flush to_vec cap msg w = (Inl InvalidData, w)"
    using sending.write_msg_too_long [of to_vec msg body cap w] by blast
qed

theorem only_frames_within_cap_witness:
  "(\<exists>r'. read_msg_capped sock_read Some 8
       \<lparr>sk_in = [Data [0, 0, 0, 9, 1]], sk_out = [], sk_room = None\<rparr> = (Inl InvalidData, r') \<and>
     arriving (sk_in r') = [1]) \<and>
   write_msg_capped sock_write sock_flush Inr 1 [7, 9 :: u8] \<lparr>sk_in = [], sk_out = [], sk_room = None\<rparr> =
     (Inl InvalidData, \<lparr>sk_in = [], sk_out = [], sk_room = None\<rparr>)"
proof -
  let ?r = "\<lparr>sk_in = [Data [0, 0, 0, 9, 1]], sk_out = [], sk_room = None\<rparr>"
  have "arriving (sk_in ?r) = to_be_bytes 9 @ [1] \<and> (8 :: u32) < 9"
    by (simp add: to_be_bytes_def)
  note short = only_frames_within_cap [where from_slice = Some, THEN conjunct2, THEN conjunct1,
      rule_format, OF this]
  have "(Inr :: bytes \<Rightarrow> bytes io_result) [7, 9] = Inr [7, 9] \<and> unat (1 :: u32) < length [7, 9 :: u8]"
    by simp
  note long = only_frames_within_cap [where to_vec = "Inr :: bytes \<Rightarrow> bytes io_result" and
      msg = "[7, 9]" and cap = 1, THEN conjunct2, THEN conjunct2, THEN spec [where x = "[7, 9]"],
      THEN mp, OF this]
  show ?thesis using short long by blast
qed

end
