(* ===== verification/FW_Marks.thy ===== *)
theory FW_Marks
  imports FW_Fanotify FW_Walk FW_Proto
begin

text \<open>
  The record of the placed marks (\<open>filewalld/src/markset.rs\<close>) and \<open>mark_all\<close> of
  \<open>filewalld/src/main.rs\<close>, which rebuilds it from a walk of every watch. A \<open>BTreeMap\<close> keyed by
  path is the list of its entries in the order of the paths' components; inserting at an equal
  key keeps the key and replaces the value, as \<open>BTreeMap::insert\<close> does.
\<close>

section \<open>The contract of a keyed map\<close>

locale keyed_map =
  fixes put :: "'k \<Rightarrow> 'v \<Rightarrow> 'm \<Rightarrow> 'm"
    and get :: "'m \<Rightarrow> 'k \<Rightarrow> 'v option"
    and same_key :: "'k \<Rightarrow> 'k \<Rightarrow> bool"
    and map_ok :: "'m \<Rightarrow> bool"
  assumes map_ok_put: "map_ok m \<Longrightarrow> map_ok (put k v m)"
    and get_put: "map_ok m \<Longrightarrow> get (put k v m) k' = (if same_key k k' then Some v else get m k')"
begin

lemma map_ok_put_all: "map_ok m \<Longrightarrow> map_ok (fold (case_prod put) kvs m)"
  by (induction kvs arbitrary: m) (auto simp: map_ok_put)

lemma get_put_all:
  "map_ok m \<Longrightarrow> get (fold (case_prod put) kvs m) k =
     (case List.find (\<lambda>kv. same_key (fst kv) k) (rev kvs) of
        Some kv \<Rightarrow> Some (snd kv) | None \<Rightarrow> get m k)"
proof (induction kvs rule: rev_induct)
  case Nil
  then show ?case by simp
next
  case (snoc kv kvs)
  then show ?case
    by (cases kv) (simp add: get_put map_ok_put_all)
qed

lemma get_put_all_Some:
  assumes "map_ok m" and "\<exists>kv \<in> set kvs. same_key (fst kv) k"
  shows "\<exists>kv \<in> set kvs. same_key (fst kv) k \<and> get (fold (case_prod put) kvs m) k = Some (snd kv)"
proof -
  have "List.find (\<lambda>kv. same_key (fst kv) k) (rev kvs) \<noteq> None"
    using assms(2) by (auto simp: find_None_iff_all)
  then obtain kv where "List.find (\<lambda>kv. same_key (fst kv) k) (rev kvs) = Some kv" by blast
  then show ?thesis
    using get_put_all [OF assms(1), of kvs k] find_SomeD by fastforce
qed

end

section \<open>The mark set\<close>

record mark_entry =
  me_kind :: obj_kind
  me_recursive :: bool
  me_watch_root :: path
  me_ok :: bool

record mark_set =
  ms_entries :: "(path \<times> mark_entry) list"

definition mark_set_new :: mark_set where
  "mark_set_new = \<lparr>ms_entries = []\<rparr>"

definition mark_set_clear :: "mark_set \<Rightarrow> mark_set" where
  "mark_set_clear ms = ms\<lparr>ms_entries := []\<rparr>"

fun bt_insert :: "path \<Rightarrow> 'v \<Rightarrow> (path \<times> 'v) list \<Rightarrow> (path \<times> 'v) list" where
  "bt_insert p v [] = [(p, v)]"
| "bt_insert p v ((q, u) # es) =
     (if components p = components q then (q, v) # es
      else if components p < components q then (p, v) # (q, u) # es
      else (q, u) # bt_insert p v es)"

definition mark_set_record :: "path \<Rightarrow> mark_entry \<Rightarrow> mark_set \<Rightarrow> mark_set" where
  "mark_set_record p e ms = ms\<lparr>ms_entries := bt_insert p e (ms_entries ms)\<rparr>"

definition mark_set_get :: "mark_set \<Rightarrow> path \<Rightarrow> mark_entry option" where
  "mark_set_get ms p = map_option snd (List.find (\<lambda>e. path_eq (fst e) p) (ms_entries ms))"

definition build_dump :: "mark_set \<Rightarrow> (path \<Rightarrow> bool) \<Rightarrow> watched_object list" where
  "build_dump ms is_watching =
     map (\<lambda>(path, e).
       \<lparr>wo_path = display path, wo_kind = me_kind e, wo_recursive = me_recursive e,
        wo_watch = display (me_watch_root e), wo_fanotify = me_ok e,
        wo_live_marked =
          (case me_kind e of ObjDir \<Rightarrow> Some (is_watching path) | ObjFile \<Rightarrow> None)\<rparr>)
       (ms_entries ms)"

section \<open>Marking\<close>

text \<open>Marking one object of a watch and recording the attempt.\<close>

definition mark_object ::
    "fan_kernel \<Rightarrow> obj_kind \<Rightarrow> 's watch_policy \<Rightarrow> path \<Rightarrow> fanotify \<times> mark_set \<Rightarrow>
     bool \<times> fanotify \<times> mark_set" where
  "mark_object k kind watch p st =
     (let (r, fan) = (case kind of ObjFile \<Rightarrow> mark_file k p (fst st) | ObjDir \<Rightarrow> mark_dir k p (fst st));
          ok = is_ok r
      in (ok, fan,
          mark_set_record p
            \<lparr>me_kind = kind, me_recursive = wp_recursive watch, me_watch_root = wp_root watch,
             me_ok = ok\<rparr> (snd st)))"

fun mark_dirs ::
    "fan_kernel \<Rightarrow> 's watch_policy \<Rightarrow> path list \<Rightarrow> nat \<Rightarrow> fanotify \<times> mark_set \<Rightarrow>
     nat \<times> fanotify \<times> mark_set" where
  "mark_dirs k watch [] n st = (n, st)"
| "mark_dirs k watch (dir # dirs) n st =
     (let (ok, st') = mark_object k ObjDir watch dir st
      in mark_dirs k watch dirs (if ok then n + 1 else n) st')"

definition mark_scan ::
    "fan_kernel \<Rightarrow> 's watch_policy \<Rightarrow> watch_scan \<Rightarrow> nat \<Rightarrow> fanotify \<times> mark_set \<Rightarrow>
     nat \<times> fanotify \<times> mark_set" where
  "mark_scan k watch sc marked st =
     (case sc of
        ScanFile p \<Rightarrow>
          (let (ok, st') = mark_object k ObjFile watch p st
           in (if ok then marked + 1 else marked, st'))
      | ScanDir dirs \<Rightarrow>
          if dirs = [] then (marked, st)
          else (let (n, st') = mark_dirs k watch dirs 0 st in (marked + n, st'))
      | ScanUnresolved \<Rightarrow> (marked, st))"

fun mark_watches ::
    "fan_kernel \<Rightarrow> fs_view \<Rightarrow> ('g, 's) glob_api \<Rightarrow> 's watch_policy list \<Rightarrow> nat \<Rightarrow>
     fanotify \<times> mark_set \<Rightarrow> (nat \<times> fanotify \<times> mark_set) option" where
  "mark_watches k fs api [] marked st = Some (marked, st)"
| "mark_watches k fs api (watch # ws) marked st =
     (case scan_watch fs api watch of
        None \<Rightarrow> None
      | Some sc \<Rightarrow>
          (let (marked', st') = mark_scan k watch sc marked st
           in mark_watches k fs api ws marked' st'))"

definition mark_all ::
    "fan_kernel \<Rightarrow> fs_view \<Rightarrow> ('g, 's) glob_api \<Rightarrow> 's policy \<Rightarrow> fanotify \<times> mark_set \<Rightarrow>
     (nat \<times> fanotify \<times> mark_set) option" where
  "mark_all k fs api policy st =
     mark_watches k fs api (po_watches policy) 0 (fst st, mark_set_clear (snd st))"

section \<open>What the marks must satisfy\<close>

definition marks_sorted :: "mark_set \<Rightarrow> bool" where
  "marks_sorted ms \<longleftrightarrow> sorted_wrt (<) (map (components \<circ> fst) (ms_entries ms))"

definition mark_mask :: "obj_kind \<Rightarrow> u64" where
  "mark_mask kind =
     (case kind of ObjFile \<Rightarrow> fan_open_perm | ObjDir \<Rightarrow> fan_open_perm OR fan_event_on_child)"

text \<open>
  Every entry that claims a mark is backed by one the kernel accepted on the object with the mask
  of its kind, which is in place or among the given ones.
\<close>

definition backed_but :: "(path \<times> u64) set \<Rightarrow> fanotify \<times> mark_set \<Rightarrow> bool" where
  "backed_but gone st \<longleftrightarrow>
     marks_sorted (snd st) \<and>
     (\<forall>p e. (p, e) \<in> set (ms_entries (snd st)) \<longrightarrow> me_ok e \<longrightarrow>
        (\<exists>q. path_eq p q \<and> (q, mark_mask (me_kind e)) \<in> set (fa_marks (fst st)) \<union> gone))"

text \<open>No entry claims a mark that is not in place.\<close>

abbreviation marks_backed :: "fanotify \<times> mark_set \<Rightarrow> bool" where
  "marks_backed \<equiv> backed_but {}"

text \<open>No entry claims a mark that was never in place: what is missing, the kernel dropped.\<close>

abbreviation marks_accounted :: "fanotify \<times> mark_set \<Rightarrow> bool" where
  "marks_accounted st \<equiv> backed_but (set (fa_dropped (fst st))) st"

text \<open>The objects a watch asks to mark.\<close>

definition scan_objects :: "watch_scan \<Rightarrow> (obj_kind \<times> path) list" where
  "scan_objects sc =
     (case sc of ScanFile p \<Rightarrow> [(ObjFile, p)] | ScanDir ds \<Rightarrow> map (Pair ObjDir) ds
      | ScanUnresolved \<Rightarrow> [])"

definition mark_step ::
    "fan_kernel \<Rightarrow> fanotify \<times> mark_set \<Rightarrow> obj_kind \<times> 's watch_policy \<times> path \<Rightarrow> fanotify \<times> mark_set" where
  "mark_step k st e = snd (mark_object k (fst e) (fst (snd e)) (snd (snd e)) st)"

section \<open>The mark set is a keyed map\<close>

lemma bt_insert_keys:
  "set (map (components \<circ> fst) (bt_insert p v es)) =
     insert (components p) (set (map (components \<circ> fst) es))"
  by (induction p v es rule: bt_insert.induct) auto

lemma bt_insert_sorted:
  "sorted_wrt (<) (map (components \<circ> fst) es) \<Longrightarrow>
   sorted_wrt (<) (map (components \<circ> fst) (bt_insert p v es))"
proof (induction p v es rule: bt_insert.induct)
  case (1 p v)
  then show ?case by simp
next
  case (2 p v q u es)
  show ?case
  proof (cases "components p = components q \<or> components p < components q")
    case True
    then consider "components p = components q" | "components p < components q" by blast
    then show ?thesis
    proof cases
      case 1
      then show ?thesis using "2.prems" by simp
    next
      case less: 2
      have "components p < c" if "components q < c" for c
        using less that by (rule less_trans)
      then show ?thesis using "2.prems" less by simp
    qed
  next
    case False
    then have "components q < components p" by auto
    then have "\<forall>c \<in> set (map (components \<circ> fst) (bt_insert p v es)). components q < c"
      using "2.prems" unfolding bt_insert_keys by auto
    then show ?thesis
      using False 2 by auto
  qed
qed

lemma bt_insert_get:
  "sorted_wrt (<) (map (components \<circ> fst) es) \<Longrightarrow>
   map_option snd (List.find (\<lambda>e. path_eq (fst e) p') (bt_insert p v es)) =
     (if path_eq p p' then Some v else map_option snd (List.find (\<lambda>e. path_eq (fst e) p') es))"
proof (induction p v es rule: bt_insert.induct)
  case (1 p v)
  then show ?case by simp
next
  case (2 p v q u es)
  then show ?case by (auto simp: path_eq_def)
qed

lemma marks_sorted_new [simp]: "marks_sorted mark_set_new" "marks_sorted (mark_set_clear ms)"
  by (simp_all add: marks_sorted_def mark_set_new_def mark_set_clear_def)

interpretation marks: keyed_map mark_set_record mark_set_get path_eq marks_sorted
  by unfold_locales
    (simp_all add: marks_sorted_def mark_set_record_def mark_set_get_def bt_insert_sorted bt_insert_get)

lemma mark_set_get_in:
  "mark_set_get ms p = Some e \<Longrightarrow> \<exists>q. path_eq q p \<and> (q, e) \<in> set (ms_entries ms)"
  by (auto simp: mark_set_get_def dest!: find_SomeD)

lemma bt_insert_entries:
  "(q, u) \<in> set (bt_insert p v es) \<Longrightarrow> (q, u) \<in> set es \<or> path_eq q p \<and> u = v"
  by (induction p v es rule: bt_insert.induct) (auto simp: path_eq_def split: if_splits)

section \<open>Marking keeps the record honest\<close>

lemma fan_mark_marks:
  "fan_mark k p msk fan = (r, fan') \<Longrightarrow>
   set (fa_marks fan') = (if is_ok r then insert (p, msk) (set (fa_marks fan)) else set (fa_marks fan)) \<and>
   fa_answers fan' = fa_answers fan \<and> fa_dropped fan' = fa_dropped fan"
  by (auto simp: fan_mark_def path_to_cstring_def split: if_splits option.splits)

lemma mark_object_eq:
  "mark_object k kind watch p st =
     (let (r, fan) = fan_mark k p (mark_mask kind) (fst st)
      in (is_ok r, fan,
          mark_set_record p
            \<lparr>me_kind = kind, me_recursive = wp_recursive watch, me_watch_root = wp_root watch,
             me_ok = is_ok r\<rparr> (snd st)))"
  by (cases kind) (simp_all add: mark_object_def mark_file_def mark_dir_def mark_mask_def Let_def
      case_prod_beta)

lemma mark_step_fan:
  "fst (mark_step k st (kind, w, p)) = snd (fan_mark k p (mark_mask kind) (fst st))"
  by (simp add: mark_step_def mark_object_eq case_prod_beta)

lemma mark_step_record:
  "snd (mark_step k st (kind, w, p)) =
     mark_set_record p
       \<lparr>me_kind = kind, me_recursive = wp_recursive w, me_watch_root = wp_root w,
        me_ok = is_ok (fst (fan_mark k p (mark_mask kind) (fst st)))\<rparr> (snd st)"
  by (simp add: mark_step_def mark_object_eq case_prod_beta)

lemma mark_step_grows: "set (fa_marks (fst st)) \<subseteq> set (fa_marks (fst (mark_step k st e)))"
  by (cases e; cases "fan_mark k (snd (snd e)) (mark_mask (fst e)) (fst st)")
    (auto simp: mark_step_fan dest: fan_mark_marks)

lemma mark_step_answers [simp]:
  "fa_answers (fst (mark_step k st e)) = fa_answers (fst st) \<and>
   fa_dropped (fst (mark_step k st e)) = fa_dropped (fst st)"
  by (cases e; cases "fan_mark k (snd (snd e)) (mark_mask (fst e)) (fst st)")
    (auto simp: mark_step_fan dest: fan_mark_marks)

lemma mark_run_answers [simp]:
  "fa_answers (fst (foldl (mark_step k) st es)) = fa_answers (fst st)"
  "fa_dropped (fst (foldl (mark_step k) st es)) = fa_dropped (fst st)"
  by (induction es arbitrary: st) simp_all

lemma mark_step_backed:
  assumes "backed_but gone st"
  shows "backed_but gone (mark_step k st e)"
proof -
  obtain kind w p where e: "e = (kind, w, p)" by (cases e)
  obtain r fan where r: "fan_mark k p (mark_mask kind) (fst st) = (r, fan)" by force
  have new: "is_ok r \<Longrightarrow> (p, mark_mask kind) \<in> set (fa_marks fan)"
    using fan_mark_marks [OF r] by simp
  have old: "set (fa_marks (fst st)) \<subseteq> set (fa_marks fan)"
    using fan_mark_marks [OF r] by auto
  show ?thesis
    unfolding backed_but_def e mark_step_fan mark_step_record
  proof (intro conjI allI impI)
    show "marks_sorted (mark_set_record p
       \<lparr>me_kind = kind, me_recursive = wp_recursive w, me_watch_root = wp_root w,
        me_ok = is_ok (fst (fan_mark k p (mark_mask kind) (fst st)))\<rparr> (snd st))"
      using assms by (intro marks.map_ok_put) (simp add: backed_but_def)
  next
    fix q u
    assume "(q, u) \<in> set (ms_entries (mark_set_record p
       \<lparr>me_kind = kind, me_recursive = wp_recursive w, me_watch_root = wp_root w,
        me_ok = is_ok (fst (fan_mark k p (mark_mask kind) (fst st)))\<rparr> (snd st)))"
      and "me_ok u"
    then have "(q, u) \<in> set (ms_entries (snd st)) \<or> path_eq q p \<and> me_kind u = kind \<and> is_ok r"
      using r by (auto simp: mark_set_record_def dest!: bt_insert_entries)
    then show "\<exists>q'. path_eq q q' \<and>
        (q', mark_mask (me_kind u)) \<in> set (fa_marks (snd (fan_mark k p (mark_mask kind) (fst st)))) \<union> gone"
      using assms new old \<open>me_ok u\<close> r by (fastforce simp: backed_but_def)
  qed
qed

interpretation marking: monotone_machine "mark_step k" "backed_but gone" "\<lambda>st. set (fa_marks (fst st))"
  for k :: fan_kernel and gone :: "(path \<times> u64) set"
  by unfold_locales (simp_all add: mark_step_backed mark_step_grows)

text \<open>What \<open>mark_all\<close> does is a run of marking steps over the scanned objects.\<close>

lemma mark_dirs_run:
  "snd (mark_dirs k w ds n st) = foldl (mark_step k) st (map (\<lambda>d. (ObjDir, w, d)) ds)"
  by (induction ds arbitrary: n st) (simp_all add: mark_step_def case_prod_beta)

lemma mark_scan_run:
  "snd (mark_scan k w sc n st) =
     foldl (mark_step k) st (map (\<lambda>(kind, p). (kind, w, p)) (scan_objects sc))"
proof (cases sc)
  case (ScanDir ds)
  then show ?thesis
    by (simp add: mark_scan_def scan_objects_def case_prod_beta mark_dirs_run comp_def)
qed (simp_all add: mark_scan_def scan_objects_def mark_step_def case_prod_beta)

definition watch_objects :: "fs_view \<Rightarrow> ('g, 's) glob_api \<Rightarrow> 's watch_policy \<Rightarrow>
    (obj_kind \<times> 's watch_policy \<times> path) list" where
  "watch_objects fs api w =
     (case scan_watch fs api w of None \<Rightarrow> []
      | Some sc \<Rightarrow> map (\<lambda>(kind, p). (kind, w, p)) (scan_objects sc))"

lemma mark_watches_value:
  "mark_watches k fs api ws marked st = Some (n, st') \<Longrightarrow>
   st' = foldl (mark_step k) st (concat (map (watch_objects fs api) ws))"
proof (induction ws arbitrary: marked st)
  case Nil
  then show ?case by simp
next
  case (Cons w ws)
  then obtain sc where sc: "scan_watch fs api w = Some sc"
    by (cases "scan_watch fs api w") auto
  then have "mark_watches k fs api ws (fst (mark_scan k w sc marked st))
      (snd (mark_scan k w sc marked st)) = Some (n, st')"
    using Cons.prems by (simp add: case_prod_beta)
  moreover have "watch_objects fs api w = map (\<lambda>(kind, p). (kind, w, p)) (scan_objects sc)"
    using sc by (simp add: watch_objects_def)
  ultimately show ?case
    using Cons.IH by (simp add: mark_scan_run)
qed

lemma mark_watches_total:
  assumes "fs_bounded path_max width fs"
  shows "\<exists>n st'. mark_watches k fs api ws marked st = Some (n, st')"
proof (induction ws arbitrary: marked st)
  case Nil
  then show ?case by simp
next
  case (Cons w ws)
  obtain sc where "scan_watch fs api w = Some sc"
    using scan_watch_total [OF assms] by blast
  then show ?case using Cons.IH by (simp add: case_prod_beta)
qed

lemma mark_all_value:
  "mark_all k fs api policy st = Some (n, st') \<Longrightarrow>
   st' = foldl (mark_step k) (fst st, mark_set_clear (snd st))
     (concat (map (watch_objects fs api) (po_watches policy)))"
  unfolding mark_all_def by (rule mark_watches_value)

lemma mark_all_total:
  "fs_bounded path_max width fs \<Longrightarrow> \<exists>n st'. mark_all k fs api policy st = Some (n, st')"
  unfolding mark_all_def by (rule mark_watches_total)

lemma marks_backed_clear [simp]: "backed_but gone (fan, mark_set_clear ms)"
  by (simp add: backed_but_def mark_set_clear_def marks_sorted_def)

lemma backed_but_mono: "backed_but gone st \<Longrightarrow> gone \<subseteq> gone' \<Longrightarrow> backed_but gone' st"
  by (fastforce simp: backed_but_def)

text \<open>A mark the kernel drops stays accounted for.\<close>

lemma kernel_drops_accounted:
  "marks_accounted (fan, ms) \<Longrightarrow> marks_accounted (kernel_drops gone fan, ms)"
  by (fastforce simp: backed_but_def)

text \<open>Every marked object is recorded, with the verdict of the last attempt on it.\<close>

lemma mark_run_recorded:
  assumes "marks_sorted (snd st)"
  shows "marks_sorted (snd (foldl (mark_step k) st es)) \<and>
         (mark_set_get (snd (foldl (mark_step k) st es)) p \<noteq> None \<longleftrightarrow>
          mark_set_get (snd st) p \<noteq> None \<or> (\<exists>e \<in> set es. path_eq (snd (snd e)) p))"
proof (induction es rule: rev_induct)
  case Nil
  then show ?case using assms by simp
next
  case (snoc e es)
  obtain kind w q where e: "e = (kind, w, q)" by (cases e)
  show ?case
    using snoc by (simp add: e mark_step_record marks.map_ok_put marks.get_put)
qed

lemma mark_set_get_clear [simp]: "mark_set_get (mark_set_clear ms) p = None"
  by (simp add: mark_set_get_def mark_set_clear_def)

lemma mark_all_recorded:
  assumes "mark_all k fs api policy st = Some (n, fan, ms)"
  shows "mark_set_get ms p \<noteq> None \<longleftrightarrow>
    (\<exists>w \<in> set (po_watches policy). \<exists>e \<in> set (watch_objects fs api w). path_eq (snd (snd e)) p)"
proof -
  let ?es = "concat (map (watch_objects fs api) (po_watches policy))"
  have "ms = snd (foldl (mark_step k) (fst st, mark_set_clear (snd st)) ?es)"
    using mark_all_value [OF assms] by (metis snd_conv)
  then show ?thesis
    using mark_run_recorded [of "(fst st, mark_set_clear (snd st))" k ?es p] by simp
qed

lemma mark_all_backed:
  assumes "mark_all k fs api policy st = Some (n, st')"
  shows "backed_but gone st'" and "set (fa_marks (fst st)) \<subseteq> set (fa_marks (fst st'))"
  unfolding mark_all_value [OF assms]
  using marking.inv_run [OF marks_backed_clear] marking.level_run [OF marks_backed_clear]
  by fastforce+

lemma mark_all_answers:
  "mark_all k fs api policy st = Some (n, st') \<Longrightarrow>
   fa_answers (fst st') = fa_answers (fst st) \<and> fa_dropped (fst st') = fa_dropped (fst st)"
  by (drule mark_all_value) simp

lemma build_dump_entries:
  "wo \<in> set (build_dump ms is_watching) \<longleftrightarrow>
     (\<exists>p e. (p, e) \<in> set (ms_entries ms) \<and>
        wo = \<lparr>wo_path = display p, wo_kind = me_kind e, wo_recursive = me_recursive e,
              wo_watch = display (me_watch_root e), wo_fanotify = me_ok e,
              wo_live_marked =
                (case me_kind e of ObjDir \<Rightarrow> Some (is_watching p) | ObjFile \<Rightarrow> None)\<rparr>)"
  by (force simp: build_dump_def)

section \<open>Properties\<close>

definition demo_policy :: "unit policy" where
  "demo_policy = \<lparr>po_watches = [demo_watch ''/w'' KindFile True]\<rparr>"

definition demo_globs :: "(string, unit) glob_api" where
  "demo_globs = \<lparr>gl_new = Inr, gl_set = (\<lambda>_. Inr ()), gl_match = (\<lambda>_ _. False), gl_empty = (\<lambda>_. True)\<rparr>"

definition demo_fan :: fan_kernel where
  "demo_fan = \<lparr>fk_mark = (\<lambda>ms p m. if length ms < 2 then None else Some OtherKind), fk_write = (\<lambda>_ _. None)\<rparr>"

text \<open>
  C16: marking returns, whatever the kernel answers to the single requests; afterwards the record
  has an entry for exactly the objects the watches resolved to, an entry that claims a mark is
  backed by one the kernel accepted on that object, with the mask of its kind, and no mark that was
  placed before is taken back.
\<close>

theorem mark_all_record_is_true:
  assumes "fs_bounded path_max width fs"
  shows "\<exists>n fan ms. mark_all k fs api policy st = Some (n, fan, ms) \<and>
    (\<forall>p. mark_set_get ms p \<noteq> None \<longleftrightarrow>
       (\<exists>w \<in> set (po_watches policy). \<exists>sc. scan_watch fs api w = Some sc \<and>
          (\<exists>e \<in> set (scan_objects sc). path_eq (snd e) p))) \<and>
    (\<forall>p e. (p, e) \<in> set (ms_entries ms) \<and> me_ok e \<longrightarrow>
       (\<exists>q. path_eq p q \<and> (q, mark_mask (me_kind e)) \<in> set (fa_marks fan))) \<and>
    set (fa_marks (fst st)) \<subseteq> set (fa_marks fan)"
proof -
  obtain n fan ms where m: "mark_all k fs api policy st = Some (n, fan, ms)"
    using mark_all_total [OF assms] by (metis prod.exhaust)
  have "(\<exists>e \<in> set (watch_objects fs api w). path_eq (snd (snd e)) p) \<longleftrightarrow>
      (\<exists>sc. scan_watch fs api w = Some sc \<and> (\<exists>e \<in> set (scan_objects sc). path_eq (snd e) p))" for w p
    by (cases "scan_watch fs api w") (force simp: watch_objects_def)+
  then show ?thesis
    using m mark_all_recorded [OF m] mark_all_backed(1) [OF m, of "{}"] mark_all_backed(2) [OF m]
    by (auto simp: backed_but_def)
qed

theorem mark_all_record_is_true_witness:
  "\<exists>n fan ms. mark_all demo_fan demo_fs demo_globs demo_policy
       (\<lparr>fa_marks = [], fa_dropped = [], fa_answers = []\<rparr>, mark_set_new) = Some (n, fan, ms) \<and>
     (\<forall>p e. (p, e) \<in> set (ms_entries ms) \<and> me_ok e \<longrightarrow>
       (\<exists>q. path_eq p q \<and> (q, mark_mask (me_kind e)) \<in> set (fa_marks fan)))"
  using mark_all_record_is_true [OF demo_fs_bounded, of demo_fan demo_globs demo_policy
      "(\<lparr>fa_marks = [], fa_dropped = [], fa_answers = []\<rparr>, mark_set_new)"] by blast

end
