(* ===== verification/FW_Server.thy ===== *)
theory FW_Server
  imports FW_Proto
begin

text \<open>
  The daemon's end of the prompt socket (\<open>filewalld/src/server.rs\<close>): accepting a UI without
  blocking, asking it, and the recovery of a link that went stale. The listener is the queue of
  what \<open>accept\<close> will return; an empty queue is \<open>WouldBlock\<close>.
\<close>

section \<open>State\<close>

text \<open>The JSON encoder and decoder of the two messages.\<close>

record ui_codec =
  uc_enc_request :: "prompt_request \<Rightarrow> bytes io_result"
  uc_dec_response :: "bytes \<Rightarrow> prompt_response option"

record ui_server =
  us_backlog :: "(io_kind + socket) list"
  us_nonblocking :: "io_kind option"    \<comment> \<open>the error of \<open>set_nonblocking(true)\<close>\<close>
  us_timeout :: u64                     \<comment> \<open>seconds\<close>

type_synonym ui_link = socket

section \<open>Operations\<close>

text \<open>
  The answers of the system to the calls of \<open>bind\<close>: make the directory, remove a stale socket
  file, bind, make the socket world-connectable.
\<close>

record bind_env =
  be_mkdir :: "io_kind option"
  be_remove :: "io_kind option"
  be_bind :: "io_kind option"
  be_chmod :: "io_kind option"

definition bind_socket :: "bind_env \<Rightarrow> path \<Rightarrow> unit io_result" where
  "bind_socket be socket_path =
     (case (if parent socket_path = None then None else be_mkdir be) of Some e \<Rightarrow> Inl e | None \<Rightarrow>
      (case be_remove be of
         Some e \<Rightarrow> if e = NotFound then (case be_bind be of Some e \<Rightarrow> Inl e | None \<Rightarrow>
                     (case be_chmod be of Some e \<Rightarrow> Inl e | None \<Rightarrow> Inr ()))
                   else Inl e
       | None \<Rightarrow>
           (case be_bind be of Some e \<Rightarrow> Inl e | None \<Rightarrow>
            (case be_chmod be of Some e \<Rightarrow> Inl e | None \<Rightarrow> Inr ()))))"

definition ui_bind :: "bind_env \<Rightarrow> path \<Rightarrow> u64 \<Rightarrow> ui_server io_result" where
  "ui_bind be socket_path timeout =
     (case bind_socket be socket_path of
        Inl e \<Rightarrow> Inl e
      | Inr _ \<Rightarrow> Inr \<lparr>us_backlog = [], us_nonblocking = None, us_timeout = timeout\<rparr>)"

text \<open>\<open>set_read_timeout(Some(d))\<close> refuses a zero duration.\<close>

definition set_read_timeout :: "u64 \<Rightarrow> unit io_result" where
  "set_read_timeout secs = (if secs = 0 then Inl InvalidInput else Inr ())"

definition try_accept :: "ui_server \<Rightarrow> ui_link option io_result \<times> ui_server" where
  "try_accept srv =
     (case us_nonblocking srv of
        Some e \<Rightarrow> (Inl e, srv)
      | None \<Rightarrow>
          (case us_backlog srv of
             [] \<Rightarrow> (Inr None, srv)
           | res # waiting \<Rightarrow>
               (let srv' = srv\<lparr>us_backlog := waiting\<rparr>
                in (case res of
                      Inr stream \<Rightarrow>
                        (case set_read_timeout (us_timeout srv) of
                           Inl e \<Rightarrow> (Inl e, srv')
                         | Inr _ \<Rightarrow> (Inr (Some stream), srv'))
                    | Inl e \<Rightarrow> if e = WouldBlock then (Inr None, srv') else (Inl e, srv')))))"

definition is_disconnect :: "io_kind \<Rightarrow> bool" where
  "is_disconnect e \<longleftrightarrow>
     e \<in> {BrokenPipe, UnexpectedEof, ConnectionReset, ConnectionAborted, NotConnected}"

definition link_prompt ::
    "ui_codec \<Rightarrow> prompt_request \<Rightarrow> ui_link \<Rightarrow> decision io_result \<times> ui_link" where
  "link_prompt uc req link =
     (case write_msg sock_write sock_flush (uc_enc_request uc) req link of
        (Inl e, link1) \<Rightarrow> (Inl e, link1)
      | (Inr _, link1) \<Rightarrow>
          (case read_msg sock_read (uc_dec_response uc) link1 of
             (Inl e, link2) \<Rightarrow> (Inl e, link2)
           | (Inr resp, link2) \<Rightarrow> (Inr (pp_decision resp), link2)))"

definition ensure_link ::
    "ui_link option \<Rightarrow> ui_server \<Rightarrow> ui_link option io_result \<times> ui_server" where
  "ensure_link ui srv = (case ui of None \<Rightarrow> try_accept srv | Some link \<Rightarrow> (Inr (Some link), srv))"

definition prompt_retry ::
    "ui_codec \<Rightarrow> prompt_request \<Rightarrow> ui_link option \<Rightarrow> ui_server \<Rightarrow>
     decision io_result \<times> ui_link option \<times> ui_server" where
  "prompt_retry uc req ui srv =
     (case ensure_link ui srv of
        (Inl e, srv1) \<Rightarrow> (Inl e, ui, srv1)
      | (Inr None, srv1) \<Rightarrow> (Inl NotConnected, None, srv1)
      | (Inr (Some link), srv1) \<Rightarrow>
          (case link_prompt uc req link of
             (Inl e, link') \<Rightarrow> (Inl e, if is_disconnect e then None else Some link', srv1)
           | (Inr d, link') \<Rightarrow> (Inr d, Some link', srv1)))"

definition prompt_recovering ::
    "ui_codec \<Rightarrow> prompt_request \<Rightarrow> ui_link option \<Rightarrow> ui_server \<Rightarrow>
     decision io_result \<times> ui_link option \<times> ui_server" where
  "prompt_recovering uc req ui srv =
     (case ensure_link ui srv of
        (Inl e, srv1) \<Rightarrow> (Inl e, ui, srv1)
      | (Inr None, srv1) \<Rightarrow> prompt_retry uc req None srv1
      | (Inr (Some link), srv1) \<Rightarrow>
          (case link_prompt uc req link of
             (Inr d, link') \<Rightarrow> (Inr d, Some link', srv1)
           | (Inl e, link') \<Rightarrow>
               if is_disconnect e then prompt_retry uc req None srv1
               else (Inl e, Some link', srv1)))"

section \<open>Prompts that never return\<close>

text \<open>
  Only a read timeout is set on an accepted stream. The functions above give what a prompt returns
  when it returns; the ones below say when it does not, because its write waits for a UI that has
  stopped reading. They follow the same calls.
\<close>

definition link_stalls :: "ui_codec \<Rightarrow> prompt_request \<Rightarrow> ui_link \<Rightarrow> bool" where
  "link_stalls uc req link \<longleftrightarrow>
     snd (write_msg blocking_write blocking_flush (uc_enc_request uc) req (Some link)) = None"

definition retry_stalls :: "ui_codec \<Rightarrow> prompt_request \<Rightarrow> ui_link option \<Rightarrow> ui_server \<Rightarrow> bool" where
  "retry_stalls uc req ui srv =
     (case ensure_link ui srv of
        (Inr (Some link), srv1) \<Rightarrow> link_stalls uc req link
      | _ \<Rightarrow> False)"

definition prompt_stalls :: "ui_codec \<Rightarrow> prompt_request \<Rightarrow> ui_link option \<Rightarrow> ui_server \<Rightarrow> bool" where
  "prompt_stalls uc req ui srv =
     (case ensure_link ui srv of
        (Inl e, srv1) \<Rightarrow> False
      | (Inr None, srv1) \<Rightarrow> retry_stalls uc req None srv1
      | (Inr (Some link), srv1) \<Rightarrow>
          link_stalls uc req link \<or>
          (case link_prompt uc req link of
             (Inr d, link') \<Rightarrow> False
           | (Inl e, link') \<Rightarrow> is_disconnect e \<and> retry_stalls uc req None srv1))"

section \<open>What the answer rests on\<close>

text \<open>
  A link answers a request with a decision: the request went out as one frame, and what was
  there to be read starts with a frame that decodes to the decision.
\<close>

definition answered_by :: "ui_codec \<Rightarrow> prompt_request \<Rightarrow> decision \<Rightarrow> ui_link \<Rightarrow> ui_link \<Rightarrow> bool" where
  "answered_by uc req d link link' \<longleftrightarrow>
     (\<exists>out body resp.
        uc_enc_request uc req = Inr out \<and> sk_out link' = sk_out link @ frame out \<and>
        arriving (sk_in link) = frame body @ arriving (sk_in link') \<and>
        length body \<le> unat max_msg_len \<and>
        uc_dec_response uc body = Some resp \<and> pp_decision resp = d)"

text \<open>The links an access may be put to: the one held, and the UIs waiting to be accepted.\<close>

definition candidates :: "ui_link option \<Rightarrow> ui_server \<Rightarrow> ui_link set" where
  "candidates ui srv = set_option ui \<union> {s. Inr s \<in> set (us_backlog srv)}"

section \<open>Lemmas\<close>

lemma try_accept_link:
  "try_accept srv = (Inr (Some s), srv') \<Longrightarrow> Inr s \<in> set (us_backlog srv) \<and> us_timeout srv \<noteq> 0"
  by (auto simp: try_accept_def set_read_timeout_def Let_def
      split: option.splits list.splits sum.splits if_splits)

lemma try_accept_backlog:
  "try_accept srv = (r, srv') \<Longrightarrow>
   us_backlog srv' = us_backlog srv \<or> (\<exists>x. us_backlog srv = x # us_backlog srv')"
  by (auto simp: try_accept_def set_read_timeout_def Let_def
      split: option.splits list.splits sum.splits if_splits)

lemma try_accept_backlog_sub:
  "try_accept srv = (r, srv') \<Longrightarrow> set (us_backlog srv') \<subseteq> set (us_backlog srv)"
  using try_accept_backlog by fastforce

lemma try_accept_no_ui:
  "us_nonblocking srv = None \<Longrightarrow> us_backlog srv = [] \<Longrightarrow> try_accept srv = (Inr None, srv)"
  by (simp add: try_accept_def)

lemma try_accept_ui:
  "us_nonblocking srv = None \<Longrightarrow> us_backlog srv = Inr s # q \<Longrightarrow> us_timeout srv \<noteq> 0 \<Longrightarrow>
   try_accept srv = (Inr (Some s), srv\<lparr>us_backlog := q\<rparr>)"
  by (simp add: try_accept_def set_read_timeout_def)

lemma link_prompt_answered:
  assumes "link_prompt uc req link = (Inr d, link')"
  shows "answered_by uc req d link link'"
proof -
  obtain u link1 resp where w: "write_msg sock_write sock_flush (uc_enc_request uc) req link = (Inr u, link1)"
    and r: "read_msg sock_read (uc_dec_response uc) link1 = (Inr resp, link')"
    and d: "pp_decision resp = d"
    using assms by (auto simp: link_prompt_def split: prod.splits sum.splits)
  note w' = w [unfolded write_msg_def] and r' = r [unfolded read_msg_def]
  show ?thesis
    using sending.write_msg_ok [OF w'] receiving.read_msg_only_frames [OF r']
      write_msg_in [OF w'] read_msg_out [OF r'] d
    by (auto simp: answered_by_def)
qed

lemma link_prompt_ok:
  assumes "uc_enc_request uc req = Inr out" and "length out \<le> unat max_msg_len"
    and "sk_room link = None"
    and "arriving (sk_in link) = frame body @ rest" and "length body \<le> unat max_msg_len"
    and "uc_dec_response uc body = Some resp"
  shows "\<exists>link'. link_prompt uc req link = (Inr (pp_decision resp), link') \<and>
           arriving (sk_in link') = rest"
proof -
  have "unat max_msg_len < 2 ^ 32"
    by (rule order.strict_trans2 [OF unsigned_less]) simp
  then have "\<not> max_msg_len < (of_nat (length out) :: u32)"
    using assms(2) by (simp add: word_less_nat_alt unat_of_len)
  then obtain link1 where w: "write_msg sock_write sock_flush (uc_enc_request uc) req link = (Inr (), link1)"
    using assms(1-3) \<open>unat max_msg_len < 2 ^ 32\<close>
    by (auto simp: write_msg_def write_msg_capped_def Let_def sock_write_def sock_flush_def)
  then have "sk_in link1 = sk_in link"
    unfolding write_msg_def by (rule write_msg_in)
  then have "arriving (sk_in link1) = frame body @ rest"
    using assms(4) by simp
  then obtain link' where "read_msg_capped sock_read (uc_dec_response uc) max_msg_len link1 = (Inr resp, link')"
    and "arriving (sk_in link') = rest"
    using receiving.read_msg_frame [of link1 body rest max_msg_len "uc_dec_response uc" resp] assms(5,6) by blast
  then show ?thesis
    using w by (simp add: link_prompt_def read_msg_def)
qed

lemma prompt_retry_answered:
  assumes "prompt_retry uc req ui srv = (Inr d, ui', srv')"
  shows "\<exists>link link'. link \<in> candidates ui srv \<and> answered_by uc req d link link' \<and> ui' = Some link'"
proof -
  obtain link srv1 link' where "ensure_link ui srv = (Inr (Some link), srv1)"
    and "link_prompt uc req link = (Inr d, link')" and "ui' = Some link'"
    using assms by (auto simp: prompt_retry_def split: prod.splits sum.splits option.splits)
  then show ?thesis
    using link_prompt_answered
    by (fastforce simp: candidates_def ensure_link_def dest: try_accept_link split: option.splits)
qed

lemma ensure_link_candidates:
  "ensure_link ui srv = (r, srv1) \<Longrightarrow> candidates None srv1 \<subseteq> candidates ui srv \<and>
   (\<forall>link. r = Inr (Some link) \<longrightarrow> link \<in> candidates ui srv)"
  by (auto simp: ensure_link_def candidates_def dest: try_accept_backlog_sub try_accept_link
      split: option.splits)

text \<open>No decision is made up: some UI answered this request.\<close>

lemma prompt_recovering_answered:
  assumes "prompt_recovering uc req ui srv = (Inr d, ui', srv')"
  shows "\<exists>link link'. link \<in> candidates ui srv \<and> answered_by uc req d link link' \<and> ui' = Some link'"
proof -
  obtain r srv1 where e: "ensure_link ui srv = (r, srv1)" by force
  note cand = ensure_link_candidates [OF e]
  have retry: ?thesis if "prompt_retry uc req None srv1 = (Inr d, ui', srv')"
    using prompt_retry_answered [OF that] cand by blast
  show ?thesis
  proof (cases r)
    case (Inl x)
    then show ?thesis using assms e by (simp add: prompt_recovering_def)
  next
    case (Inr l)
    show ?thesis
    proof (cases l)
      case None
      then show ?thesis using assms e Inr retry by (simp add: prompt_recovering_def)
    next
      case (Some link)
      obtain q link' where lp: "link_prompt uc req link = (q, link')" by force
      show ?thesis
      proof (cases q)
        case (Inl x)
        then show ?thesis
          using assms e Inr Some lp retry by (auto simp: prompt_recovering_def split: if_splits)
      next
        case ok: (Inr d')
        then show ?thesis
          using assms e Inr Some lp cand link_prompt_answered [of uc req link d' link']
          by (auto simp: prompt_recovering_def)
      qed
    qed
  qed
qed

lemma prompt_retry_disconnect:
  "prompt_retry uc req None srv = (Inl e, ui', srv') \<Longrightarrow> is_disconnect e \<Longrightarrow> ui' = None"
  by (auto simp: prompt_retry_def ensure_link_def split: prod.splits sum.splits option.splits if_splits)

text \<open>A dead connection is never kept, so the next access accepts a new UI.\<close>

lemma prompt_recovering_disconnect:
  "prompt_recovering uc req ui srv = (Inl e, ui', srv') \<Longrightarrow> is_disconnect e \<Longrightarrow> ui' = None"
  by (auto simp: prompt_recovering_def ensure_link_def dest: prompt_retry_disconnect
      split: prod.splits sum.splits option.splits if_splits)

text \<open>At most two UIs are taken from the backlog for one access.\<close>

lemma ensure_link_backlog:
  "ensure_link ui srv = (r, srv1) \<Longrightarrow>
   length (us_backlog srv) \<le> length (us_backlog srv1) + (if ui = None then 1 else 0)"
  by (cases ui) (auto simp: ensure_link_def dest: try_accept_backlog)

lemma prompt_retry_backlog:
  assumes "prompt_retry uc req ui srv = (r, ui', srv')"
  shows "length (us_backlog srv) \<le> length (us_backlog srv') + (if ui = None then 1 else 0)"
proof -
  obtain q srv1 where e: "ensure_link ui srv = (q, srv1)" by force
  have "srv' = srv1"
    using assms e
    by (auto simp: prompt_retry_def split: prod.splits sum.splits option.splits)
  then show ?thesis using ensure_link_backlog [OF e] by simp
qed

lemma prompt_recovering_backlog:
  assumes "prompt_recovering uc req ui srv = (r, ui', srv')"
  shows "length (us_backlog srv) \<le> length (us_backlog srv') + (if ui = None then 2 else 1)"
proof -
  obtain q srv1 where e: "ensure_link ui srv = (q, srv1)" by force
  have "srv' = srv1 \<or> prompt_retry uc req None srv1 = (r, ui', srv')"
    using assms e
    by (auto simp: prompt_recovering_def split: prod.splits sum.splits option.splits if_splits)
  then show ?thesis
    using ensure_link_backlog [OF e] prompt_retry_backlog [of uc req None srv1 r ui' srv'] by auto
qed

lemma prompt_recovering_no_ui:
  "us_nonblocking srv = None \<Longrightarrow> us_backlog srv = [] \<Longrightarrow>
   prompt_recovering uc req None srv = (Inl NotConnected, None, srv)"
  by (simp add: prompt_recovering_def prompt_retry_def ensure_link_def try_accept_no_ui)

text \<open>A link that died while it was held is replaced by the UI that waits, for the same access.\<close>

lemma prompt_recovering_stale:
  assumes "link_prompt uc req held = (Inl e, dead)" and "is_disconnect e"
    and "us_nonblocking srv = None" and "us_timeout srv \<noteq> 0"
    and "us_backlog srv = Inr fresh # q" and "link_prompt uc req fresh = (Inr d, fresh')"
  shows "prompt_recovering uc req (Some held) srv = (Inr d, Some fresh', srv\<lparr>us_backlog := q\<rparr>)"
  using assms
  by (simp add: prompt_recovering_def prompt_retry_def ensure_link_def try_accept_ui)

text \<open>An answer that does not come in time is a deny, and the link is kept.\<close>

lemma prompt_recovering_kept:
  assumes "link_prompt uc req held = (Inl e, held')" and "\<not> is_disconnect e"
  shows "prompt_recovering uc req (Some held) srv = (Inl e, Some held', srv)"
  using assms by (simp add: prompt_recovering_def ensure_link_def)

text \<open>A silent UI that does not read: the request uses up the room and the link is kept.\<close>

lemma prompt_recovering_unread:
  assumes "uc_enc_request uc req = Inr out" and "length out \<le> unat max_msg_len"
    and "sk_room link = Some (n, e)" and "length (frame out) \<le> n" and "sk_in link = Fail WouldBlock # q"
  shows "prompt_recovering uc req (Some link) srv =
    (Inl WouldBlock, Some (link\<lparr>sk_in := q, sk_out := sk_out link @ frame out,
       sk_room := Some (n - length (frame out), e)\<rparr>), srv)"
proof -
  have lim: "length out < 2 ^ 32" "\<not> max_msg_len < (of_nat (length out) :: u32)"
    using assms(2) by (simp_all add: max_msg_len_def word_less_nat_alt unat_of_len)
  have "write_msg sock_write sock_flush (uc_enc_request uc) req link =
      (Inr (), link\<lparr>sk_out := sk_out link @ frame out, sk_room := Some (n - length (frame out), e)\<rparr>)"
    using assms(1,3,4) lim
    by (simp add: write_msg_def write_msg_capped_def Let_def sock_write_def sock_flush_def frame_def)
  then have "link_prompt uc req link =
      (Inl WouldBlock, link\<lparr>sk_in := q, sk_out := sk_out link @ frame out,
         sk_room := Some (n - length (frame out), e)\<rparr>)"
    using assms(5) by (simp add: link_prompt_def read_msg_def read_msg_capped_def sock_read_def)
  then show ?thesis
    by (rule prompt_recovering_kept) (simp add: is_disconnect_def)
qed

text \<open>
  But the reply that comes after all is still in the stream: it is what the next access reads.
\<close>

lemma link_prompt_timeout:
  assumes "uc_enc_request uc req = Inr out" and "length out \<le> unat max_msg_len"
    and "sk_room link = None" and "sk_in link = Fail WouldBlock # q"
  shows "link_prompt uc req link =
           (Inl WouldBlock, link\<lparr>sk_in := q, sk_out := sk_out link @ frame out\<rparr>)"
  using write_msg_fits [where enc = "uc_enc_request uc", OF assms(1-3)] assms(4)
  by (simp add: link_prompt_def read_msg_def read_msg_capped_def sock_read_def)

lemma prompt_late_reply:
  assumes req: "uc_enc_request uc req = Inr out" "length out \<le> unat max_msg_len"
    and req': "uc_enc_request uc req' = Inr out'" "length out' \<le> unat max_msg_len"
    and link: "sk_room link = None" "sk_in link = Fail WouldBlock # q"
    and late: "arriving q = frame body @ rest" "length body \<le> unat max_msg_len"
      "uc_dec_response uc body = Some resp"
  shows "\<exists>link1 link2.
    prompt_recovering uc req (Some link) srv = (Inl WouldBlock, Some link1, srv) \<and>
    prompt_recovering uc req' (Some link1) srv = (Inr (pp_decision resp), Some link2, srv) \<and>
    arriving (sk_in link2) = rest"
proof -
  let ?link1 = "link\<lparr>sk_in := q, sk_out := sk_out link @ frame out\<rparr>"
  have first: "link_prompt uc req link = (Inl WouldBlock, ?link1)"
    by (rule link_prompt_timeout [OF req link])
  obtain link2 where second: "link_prompt uc req' ?link1 = (Inr (pp_decision resp), link2)"
    and "arriving (sk_in link2) = rest"
    using link_prompt_ok [OF req', of ?link1 body rest resp] link late by auto
  then show ?thesis
    using first prompt_recovering_kept [OF first, of srv]
    by (auto simp: is_disconnect_def prompt_recovering_def ensure_link_def)
qed

text \<open>
  A timeout of zero is refused by the socket: a server that was given one takes a UI from the queue and
  loses it, and no prompt that needs a new UI is ever answered.
\<close>

lemma zero_timeout_accepts_nobody:
  assumes "us_timeout srv = 0" and "try_accept srv = (r, srv')"
  shows "r = Inr None \<or> (\<exists>e. r = Inl e)" and "us_timeout srv' = 0"
  using assms by (auto simp: try_accept_def set_read_timeout_def Let_def
      split: option.splits list.splits sum.splits if_splits)

lemma zero_timeout_never_prompts:
  assumes "us_timeout srv = 0" and "prompt_recovering uc req None srv = (r, ui', srv')"
  shows "\<exists>e. r = Inl e" and "ui' = None"
proof -
  obtain q srv1 where q: "try_accept srv = (q, srv1)" by force
  obtain q' srv2 where q': "try_accept srv1 = (q', srv2)" by force
  show "\<exists>e. r = Inl e" "ui' = None"
    using assms(2) q q' zero_timeout_accepts_nobody [OF assms(1) q]
      zero_timeout_accepts_nobody(1) [OF zero_timeout_accepts_nobody(2) [OF assms(1) q] q']
    by (auto simp: prompt_recovering_def prompt_retry_def ensure_link_def)
qed

text \<open>A prompt only stalls on a UI that has stopped reading, and leaves no such UI behind.\<close>

lemma link_stalls_iff:
  "link_stalls uc req link \<longleftrightarrow>
     (\<exists>out n. uc_enc_request uc req = Inr out \<and> length out \<le> unat max_msg_len \<and>
        sk_room link = Some (n, WouldBlock) \<and> n < length (frame out))"
  unfolding link_stalls_def write_msg_def by (rule write_msg_stalls)

lemma link_prompt_keeps:
  "link_prompt uc req link = (r, link') \<Longrightarrow> keeps_reading link' = keeps_reading link"
  by (auto simp: link_prompt_def write_msg_def read_msg_def dest!: write_msg_keeps read_msg_keeps
      split: prod.splits sum.splits)

lemma link_stalls_stuck: "link_stalls uc req link \<Longrightarrow> \<not> keeps_reading link"
  by (auto simp: link_stalls_iff keeps_reading_def)

lemma retry_stalls_stuck:
  assumes "retry_stalls uc req ui srv"
  shows "\<exists>link \<in> candidates ui srv. \<not> keeps_reading link"
proof -
  obtain link srv1 where "ensure_link ui srv = (Inr (Some link), srv1)" and "link_stalls uc req link"
    using assms by (auto simp: retry_stalls_def split: prod.splits sum.splits option.splits)
  then show ?thesis
    using ensure_link_candidates link_stalls_stuck by blast
qed

lemma prompt_stalls_stuck:
  assumes "prompt_stalls uc req ui srv"
  shows "\<exists>link \<in> candidates ui srv. \<not> keeps_reading link"
proof -
  obtain r srv1 where e: "ensure_link ui srv = (r, srv1)" by force
  have retry: "\<exists>link \<in> candidates ui srv. \<not> keeps_reading link" if "retry_stalls uc req None srv1"
    using retry_stalls_stuck [OF that] ensure_link_candidates [OF e] by blast
  have "retry_stalls uc req None srv1 \<or> (\<exists>link. r = Inr (Some link) \<and> link_stalls uc req link)"
    using assms e by (auto simp: prompt_stalls_def split: sum.splits option.splits prod.splits)
  then show ?thesis
    using retry link_stalls_stuck ensure_link_candidates [OF e] by blast
qed

lemma prompt_retry_keeps:
  assumes "prompt_retry uc req ui srv = (r, ui', srv')" and "\<forall>s \<in> candidates ui srv. keeps_reading s"
  shows "\<forall>s \<in> candidates ui' srv'. keeps_reading s"
proof -
  obtain q srv1 where e: "ensure_link ui srv = (q, srv1)" by force
  have "srv' = srv1" and "\<And>s. ui' = Some s \<Longrightarrow> keeps_reading s"
    using assms e ensure_link_candidates [OF e]
    by (auto simp: prompt_retry_def candidates_def dest!: link_prompt_keeps
        split: prod.splits sum.splits option.splits if_splits)
  then show ?thesis
    using assms(2) ensure_link_candidates [OF e] by (auto simp: candidates_def)
qed

lemma prompt_recovering_keeps:
  assumes "prompt_recovering uc req ui srv = (r, ui', srv')" and "\<forall>s \<in> candidates ui srv. keeps_reading s"
  shows "\<forall>s \<in> candidates ui' srv'. keeps_reading s"
proof -
  obtain q srv1 where e: "ensure_link ui srv = (q, srv1)" by force
  note c = ensure_link_candidates [OF e]
  have "prompt_retry uc req None srv1 = (r, ui', srv') \<or>
      srv' = srv1 \<and> (\<forall>s. ui' = Some s \<longrightarrow> keeps_reading s)"
    using assms e c
    by (auto simp: prompt_recovering_def candidates_def dest!: link_prompt_keeps
        split: prod.splits sum.splits option.splits if_splits)
  then show ?thesis
    using prompt_retry_keeps [of uc req None srv1 r ui' srv'] assms(2) c
    by (auto simp: candidates_def)
qed

section \<open>Properties\<close>

definition demo_codec :: ui_codec where
  "demo_codec = \<lparr>uc_enc_request = (\<lambda>_. Inr [1]),
     uc_dec_response = (\<lambda>bs. if bs = [2] then Some \<lparr>pp_decision = AllowAlways\<rparr>
                             else if bs = [3] then Some \<lparr>pp_decision = DenyAlways\<rparr> else None)\<rparr>"

definition demo_request :: "path \<Rightarrow> prompt_request" where
  "demo_request p = \<lparr>pr_pid = 7, pr_exe = ''/bin/cat'', pr_cmdline = ''cat'', pr_cwd = ''/'', pr_path = p,
     pr_always_object = p, pr_always_tree = False, pr_always_cwd_pinned = False, pr_ui_timeout_ms = 25000\<rparr>"

definition demo_link :: "net_event list \<Rightarrow> ui_link" where
  "demo_link evs = \<lparr>sk_in = evs, sk_out = [], sk_room = None\<rparr>"

definition demo_server :: "ui_link list \<Rightarrow> ui_server" where
  "demo_server links = \<lparr>us_backlog = map Inr links, us_nonblocking = None, us_timeout = 30\<rparr>"

lemma demo_frame: "frame [b] = [0, 0, 0, 1, b]"
  by (simp add: frame_def to_be_bytes_def)

lemma demo_answer:
  "link_prompt demo_codec req (demo_link [Data [0, 0, 0, 1, 2]]) =
     (Inr AllowAlways, \<lparr>sk_in = [], sk_out = [0, 0, 0, 1, 1], sk_room = None\<rparr>)"
proof -
  have "write_msg sock_write sock_flush (uc_enc_request demo_codec) req (demo_link q) =
      (Inr (), \<lparr>sk_in = q, sk_out = [0, 0, 0, 1, 1], sk_room = None\<rparr>)" for q
    using write_msg_fits [of "uc_enc_request demo_codec" req "[1]" "demo_link q"]
    by (simp add: demo_codec_def demo_link_def max_msg_len_def demo_frame)
  moreover have "from_be_bytes [0, 0, 0, 1] = 1" by (simp add: from_be_bytes_def)
  ultimately show ?thesis
    by (simp add: link_prompt_def read_msg_def read_msg_capped_def sock_read_def demo_codec_def
        max_msg_len_def Let_def)
qed

lemma demo_silence:
  "link_prompt demo_codec req (demo_link (Fail WouldBlock # q)) =
     (Inl WouldBlock, \<lparr>sk_in = q, sk_out = [0, 0, 0, 1, 1], sk_room = None\<rparr>)"
  using link_prompt_timeout [of demo_codec req "[1]" "demo_link (Fail WouldBlock # q)" q]
  by (simp add: demo_codec_def demo_link_def max_msg_len_def demo_frame)

lemma demo_hangup:
  "link_prompt demo_codec req (demo_link []) =
     (Inl UnexpectedEof, \<lparr>sk_in = [], sk_out = [0, 0, 0, 1, 1], sk_room = None\<rparr>)"
  using write_msg_fits [of "uc_enc_request demo_codec" req "[1]" "demo_link []"]
  by (simp add: link_prompt_def read_msg_def read_msg_capped_def sock_read_def demo_codec_def
      demo_link_def max_msg_len_def demo_frame)

text \<open>
  A decision the daemon gets for an access was read from a UI it holds or accepted for it: the
  request went out to this UI as one frame, and the bytes read back are one frame that decodes to
  the decision. No decision comes from an error, a timeout or a truncated reply.
\<close>

theorem decision_comes_from_a_ui:
  assumes "prompt_recovering uc req ui srv = (Inr d, ui', srv')"
  shows "\<exists>link link'. link \<in> candidates ui srv \<and> answered_by uc req d link link' \<and> ui' = Some link'"
  by (rule prompt_recovering_answered [OF assms])

theorem decision_comes_from_a_ui_witness:
  "\<exists>link link'. link \<in> candidates (Some (demo_link [Data [0, 0, 0, 1, 2]])) (demo_server []) \<and>
     answered_by demo_codec (demo_request ''/a'') AllowAlways link link'"
proof -
  have "prompt_recovering demo_codec (demo_request ''/a'') (Some (demo_link [Data [0, 0, 0, 1, 2]])) (demo_server []) =
      (Inr AllowAlways, Some \<lparr>sk_in = [], sk_out = [0, 0, 0, 1, 1], sk_room = None\<rparr>, demo_server [])"
    by (simp add: prompt_recovering_def ensure_link_def demo_answer)
  from decision_comes_from_a_ui [OF this] show ?thesis by blast
qed

text \<open>
  A link that died while it was held is replaced, for the same access, by a UI that waits to be
  accepted; a link on which the answer did not come in time is kept; and after any disconnect that
  is reported no link is held, so that the next access accepts a new UI.
\<close>

theorem stale_link_is_replaced:
  "(\<forall>e dead fresh q d fresh'.
      link_prompt uc req held = (Inl e, dead) \<and> is_disconnect e \<and> us_nonblocking srv = None \<and>
      us_timeout srv \<noteq> 0 \<and> us_backlog srv = Inr fresh # q \<and> link_prompt uc req fresh = (Inr d, fresh') \<longrightarrow>
      prompt_recovering uc req (Some held) srv = (Inr d, Some fresh', srv\<lparr>us_backlog := q\<rparr>)) \<and>
   (\<forall>e held'. link_prompt uc req held = (Inl e, held') \<and> \<not> is_disconnect e \<longrightarrow>
      prompt_recovering uc req (Some held) srv = (Inl e, Some held', srv)) \<and>
   (\<forall>ui e ui' srv'. prompt_recovering uc req ui srv = (Inl e, ui', srv') \<and> is_disconnect e \<longrightarrow> ui' = None)"
  using prompt_recovering_stale [of uc req held _ _ srv] prompt_recovering_kept [of uc req held _ _ srv]
    prompt_recovering_disconnect [of uc req _ srv] by blast

theorem stale_link_is_replaced_witness:
  "fst (prompt_recovering demo_codec (demo_request ''/a'') (Some (demo_link []))
     (demo_server [demo_link [Data [0, 0, 0, 1, 2]]])) = Inr AllowAlways \<and>
   fst (prompt_recovering demo_codec (demo_request ''/a'') (Some (demo_link [Fail WouldBlock])) (demo_server [])) = Inl WouldBlock"
proof
  show "fst (prompt_recovering demo_codec (demo_request ''/a'') (Some (demo_link []))
      (demo_server [demo_link [Data [0, 0, 0, 1, 2]]])) = Inr AllowAlways"
    using stale_link_is_replaced [of demo_codec "demo_request ''/a''" "demo_link []"
        "demo_server [demo_link [Data [0, 0, 0, 1, 2]]]", THEN conjunct1, rule_format,
        of UnexpectedEof _ "demo_link [Data [0, 0, 0, 1, 2]]" "[]" AllowAlways]
    by (simp add: demo_hangup demo_answer is_disconnect_def) (simp add: demo_server_def)
  show "fst (prompt_recovering demo_codec (demo_request ''/a'') (Some (demo_link [Fail WouldBlock])) (demo_server [])) =
      Inl WouldBlock"
    using stale_link_is_replaced [of demo_codec "demo_request ''/a''" "demo_link [Fail WouldBlock]" "demo_server []",
        THEN conjunct2, THEN conjunct1, rule_format, of WouldBlock]
    by (simp add: demo_silence is_disconnect_def)
qed

text \<open>
  One access takes at most two UIs from those that wait (one when a link is held), so a peer
  that keeps disconnecting cannot hold up the event loop; when no UI is there the access fails with
  \<open>NotConnected\<close> and the state is unchanged.
\<close>

theorem retry_is_bounded:
  "length (us_backlog srv) \<le>
     length (us_backlog (snd (snd (prompt_recovering uc req ui srv)))) + (if ui = None then 2 else 1) \<and>
   prompt_recovering uc req None \<lparr>us_backlog = [], us_nonblocking = None, us_timeout = t\<rparr> =
     (Inl NotConnected, None, \<lparr>us_backlog = [], us_nonblocking = None, us_timeout = t\<rparr>)"
  using prompt_recovering_backlog [of uc req ui srv] prompt_recovering_no_ui
  by (metis prod.collapse ui_server.select_convs(1,2))

text \<open>
  C37: the daemon does not match answers with requests. When a UI answers a prompt after the daemon
  has given up on it, the next access that is put to this UI, for whatever program and file, takes
  that answer as its own.
\<close>

theorem late_answer_settles_next_access:
  assumes "uc_enc_request uc req = Inr out" "length out \<le> unat max_msg_len"
    and "uc_enc_request uc req' = Inr out'" "length out' \<le> unat max_msg_len"
    and "sk_room link = None" "sk_in link = Fail WouldBlock # q"
    and "arriving q = frame body @ rest" "length body \<le> unat max_msg_len"
      "uc_dec_response uc body = Some resp"
  shows "\<exists>link1 link2.
    prompt_recovering uc req (Some link) srv = (Inl WouldBlock, Some link1, srv) \<and>
    prompt_recovering uc req' (Some link1) srv = (Inr (pp_decision resp), Some link2, srv) \<and>
    arriving (sk_in link2) = rest"
  by (rule prompt_late_reply [OF assms])

theorem late_answer_settles_next_access_witness:
  "\<exists>link1 link2.
    prompt_recovering demo_codec (demo_request ''/a'') (Some (demo_link [Fail WouldBlock, Data [0, 0, 0, 1, 2]])) (demo_server []) =
      (Inl WouldBlock, Some link1, demo_server []) \<and>
    prompt_recovering demo_codec (demo_request ''/b'') (Some link1) (demo_server []) = (Inr AllowAlways, Some link2, demo_server [])"
  using late_answer_settles_next_access [of demo_codec "demo_request ''/a''" "[1]" "demo_request ''/b''" "[1]"
      "demo_link [Fail WouldBlock, Data [0, 0, 0, 1, 2]]" "[Data [0, 0, 0, 1, 2]]" "[2]" "[]"
      "\<lparr>pp_decision = AllowAlways\<rparr>" "demo_server []"]
  by (simp add: demo_codec_def demo_link_def max_msg_len_def demo_frame) blast

end
