(* ===== verification/FW_Control.thy ===== *)
theory FW_Control
  imports FW_Marks FW_Server
begin

text \<open>
  The control socket (\<open>filewalld/src/control.rs\<close>): one request per accepted connection, answered
  from the mark record. The listener is the queue of what \<open>accept\<close> will return, as for the prompt
  socket; the outcome names the connection that was served, so that its bytes can be looked at.
\<close>

record control_codec =
  cc_dec_request :: "bytes \<Rightarrow> control_request option"
  cc_enc_dump :: "dump_response \<Rightarrow> bytes io_result"

record control_server =
  cs_backlog :: "(io_kind + socket) list"

definition control_bind :: "bind_env \<Rightarrow> path \<Rightarrow> control_server io_result" where
  "control_bind be socket_path =
     (case bind_socket be socket_path of
        Inl e \<Rightarrow> Inl e
      | Inr _ \<Rightarrow> Inr \<lparr>cs_backlog = []\<rparr>)"

text \<open>\<open>set_read_timeout\<close> and \<open>set_write_timeout\<close> succeed: the timeout is the constant 2 seconds.\<close>

definition control_serve ::
    "control_codec \<Rightarrow> (unit \<Rightarrow> dump_response) \<Rightarrow> socket \<Rightarrow> unit io_result \<times> socket" where
  "control_serve cc build stream =
     (case read_msg_capped sock_read (cc_dec_request cc) max_control_msg_len stream of
        (Inl e, stream1) \<Rightarrow> (Inl e, stream1)
      | (Inr req, stream1) \<Rightarrow>
          (case req of
             Dump \<Rightarrow>
               write_msg_capped sock_write sock_flush (cc_enc_dump cc) max_control_msg_len
                 (build ()) stream1))"

definition handle_ready ::
    "control_codec \<Rightarrow> (unit \<Rightarrow> dump_response) \<Rightarrow> control_server \<Rightarrow>
     (unit io_result \<times> socket) option \<times> control_server" where
  "handle_ready cc build srv =
     (case cs_backlog srv of
        [] \<Rightarrow> (None, srv)
      | Inl e # q \<Rightarrow> (None, srv\<lparr>cs_backlog := q\<rparr>)
      | Inr stream # q \<Rightarrow> (Some (control_serve cc build stream), srv\<lparr>cs_backlog := q\<rparr>))"

lemma control_serve_answers:
  assumes "control_serve cc build stream = (Inr u, stream')"
  shows "\<exists>req_body body. arriving (sk_in stream) = frame req_body @ arriving (sk_in stream') \<and>
    cc_dec_request cc req_body = Some Dump \<and> cc_enc_dump cc (build ()) = Inr body \<and>
    length body \<le> unat max_control_msg_len \<and> sk_out stream' = sk_out stream @ frame body"
proof -
  obtain req stream1 where
    r: "read_msg_capped sock_read (cc_dec_request cc) max_control_msg_len stream = (Inr req, stream1)"
    and w: "write_msg_capped sock_write sock_flush (cc_enc_dump cc) max_control_msg_len
              (build ()) stream1 = (Inr u, stream')"
    using assms by (auto simp: control_serve_def split: prod.splits sum.splits control_request.splits)
  have "req = Dump" by (cases req)
  then show ?thesis
    using receiving.read_msg_only_frames [OF r] sending.write_msg_ok [OF w] read_msg_out [OF r]
      write_msg_in [OF w] by auto
qed

text \<open>A client whose request does not decode gets no byte.\<close>

lemma control_serve_refuses:
  assumes "read_msg_capped sock_read (cc_dec_request cc) max_control_msg_len stream = (Inl e, stream1)"
  shows "control_serve cc build stream = (Inl e, stream1) \<and> sk_out stream1 = sk_out stream"
  using assms read_msg_out [OF assms] by (simp add: control_serve_def)

lemma handle_ready_backlog:
  "cs_backlog (snd (handle_ready cc build srv)) = tl (cs_backlog srv)"
  by (cases "cs_backlog srv"; cases "hd (cs_backlog srv)") (auto simp: handle_ready_def)

section \<open>Properties\<close>

text \<open>
  A control client gets an answer only for a well-formed request within the cap, and the answer
  is one frame with the encoded dump of the moment; a request that is not gets no byte. One client
  is served per wake-up, the others stay queued.
\<close>

theorem control_answers_requests_only:
  "(\<forall>u stream'. control_serve cc build stream = (Inr u, stream') \<longrightarrow>
      (\<exists>req_body body. arriving (sk_in stream) = frame req_body @ arriving (sk_in stream') \<and>
         cc_dec_request cc req_body = Some Dump \<and> cc_enc_dump cc (build ()) = Inr body \<and>
         length body \<le> unat max_control_msg_len \<and> sk_out stream' = sk_out stream @ frame body)) \<and>
   (\<forall>e stream1. read_msg_capped sock_read (cc_dec_request cc) max_control_msg_len stream = (Inl e, stream1) \<longrightarrow>
      control_serve cc build stream = (Inl e, stream1) \<and> sk_out stream1 = sk_out stream) \<and>
   cs_backlog (snd (handle_ready cc build srv)) = tl (cs_backlog srv)"
  by (intro conjI allI impI handle_ready_backlog control_serve_answers)
    (use control_serve_refuses in blast)+

theorem control_answers_requests_only_witness:
  "sk_out (snd (control_serve \<lparr>cc_dec_request = (\<lambda>_. None), cc_enc_dump = (\<lambda>_. Inr [1])\<rparr>
     (\<lambda>_. \<lparr>dr_pid = 1, dr_generated_unix = 0, dr_objects = []\<rparr>)
     \<lparr>sk_in = [Data [0, 0, 0, 1, 9]], sk_out = [], sk_room = None\<rparr>)) = []"
proof -
  let ?cc = "\<lparr>cc_dec_request = (\<lambda>_. None), cc_enc_dump = (\<lambda>_. Inr [1])\<rparr>"
  let ?s = "\<lparr>sk_in = [Data [0, 0, 0, 1, 9]], sk_out = [], sk_room = None\<rparr>"
  have "from_be_bytes [0, 0, 0, 1] = 1" by (simp add: from_be_bytes_def)
  then have "read_msg_capped sock_read (cc_dec_request ?cc) max_control_msg_len ?s =
      (Inl InvalidData, \<lparr>sk_in = [], sk_out = [], sk_room = None\<rparr>)"
    by (simp add: read_msg_capped_def sock_read_def max_control_msg_len_def Let_def)
  then show ?thesis
    using control_answers_requests_only [of ?cc "\<lambda>_. \<lparr>dr_pid = 1, dr_generated_unix = 0, dr_objects = []\<rparr>" ?s]
    by simp
qed

end
