(* ===== verification/FW_TreeWatch.thy ===== *)
theory FW_TreeWatch
  imports FW_Marks "HOL-Library.AList"
begin

text \<open>
  Live marking of new subdirectories (\<open>filewalld/src/treewatch.rs\<close>): an inotify instance with a
  watch on every marked directory of a recursive watch, and the handler that marks what appears.
\<close>

section \<open>The inotify kernel interface\<close>

definition in_q_overflow :: u32 where "in_q_overflow = 0x00004000"
definition in_isdir :: u32 where "in_isdir = 0x40000000"
definition in_create :: u32 where "in_create = 0x00000100"
definition in_moved_to :: u32 where "in_moved_to = 0x00000080"
definition in_onlydir :: u32 where "in_onlydir = 0x01000000"

definition watch_mask :: u32 where "watch_mask = in_create OR in_moved_to OR in_onlydir"

record inotify_event =
  ie_wd :: u32
  ie_mask :: u32
  ie_name :: "string option"

text \<open>
  What the kernel answers: to \<open>inotify_init\<close>, and to \<open>inotify_add_watch\<close> for a path and a mask when
  the given watches are in place.
\<close>

record inotify_kernel =
  ik_init :: "io_kind option"
  ik_add :: "(u32 \<times> path) list \<Rightarrow> path \<Rightarrow> u32 \<Rightarrow> io_kind + u32"

section \<open>The watch set\<close>

record tree_watch =
  tw_inotify :: bool               \<comment> \<open>\<open>inotify\<close> is \<open>Some\<close>\<close>
  tw_wd_map :: "(u32 \<times> path) list"

definition tree_add :: "inotify_kernel \<Rightarrow> path \<Rightarrow> tree_watch \<Rightarrow> tree_watch" where
  "tree_add ik dir tw =
     (if \<not> tw_inotify tw then tw
      else (case ik_add ik (tw_wd_map tw) dir watch_mask of
              Inr wd \<Rightarrow> tw\<lparr>tw_wd_map := AList.update wd dir (tw_wd_map tw)\<rparr>
            | Inl _ \<Rightarrow> tw))"

fun build_watches ::
    "inotify_kernel \<Rightarrow> fs_view \<Rightarrow> ('g, 's) glob_api \<Rightarrow> 's watch_policy list \<Rightarrow> tree_watch \<Rightarrow>
     tree_watch option" where
  "build_watches ik fs api [] tw = Some tw"
| "build_watches ik fs api (watch # ws) tw =
     (if \<not> wp_recursive watch then build_watches ik fs api ws tw
      else (case scan_watch fs api watch of
              None \<Rightarrow> None
            | Some (ScanDir dirs) \<Rightarrow> build_watches ik fs api ws (fold (tree_add ik) dirs tw)
            | Some _ \<Rightarrow> build_watches ik fs api ws tw))"

definition tree_build ::
    "inotify_kernel \<Rightarrow> fs_view \<Rightarrow> ('g, 's) glob_api \<Rightarrow> 's policy \<Rightarrow> tree_watch option" where
  "tree_build ik fs api policy =
     (case ik_init ik of
        Some e \<Rightarrow> Some \<lparr>tw_inotify = False, tw_wd_map = []\<rparr>
      | None \<Rightarrow> build_watches ik fs api (po_watches policy) \<lparr>tw_inotify = True, tw_wd_map = []\<rparr>)"

text \<open>
  The table is the daemon's own: a descriptor stays in it until the daemon removes it, and the watches
  the kernel has at that moment are not part of the model.
\<close>

definition is_watching :: "tree_watch \<Rightarrow> path \<Rightarrow> bool" where
  "is_watching tw dir \<longleftrightarrow> list_ex (\<lambda>e. path_eq (snd e) dir) (tw_wd_map tw)"

section \<open>Handling inotify events\<close>

text \<open>What the handler may change; \<open>tc_reload\<close> is the global \<open>RELOAD\<close> flag.\<close>

record tree_ctx =
  tc_tree :: tree_watch
  tc_fan :: fanotify
  tc_marks :: mark_set
  tc_reload :: bool

definition mark_new_dir ::
    "inotify_kernel \<Rightarrow> fan_kernel \<Rightarrow> 's watch_policy \<Rightarrow> path \<Rightarrow> tree_ctx \<Rightarrow> tree_ctx" where
  "mark_new_dir ik k watch dir tc =
     (let (ok, fan, ms) = mark_object k ObjDir watch dir (tc_fan tc, tc_marks tc)
      in tc\<lparr>tc_fan := fan, tc_marks := ms, tc_tree := tree_add ik dir (tc_tree tc)\<rparr>)"

definition tree_event ::
    "inotify_kernel \<Rightarrow> fan_kernel \<Rightarrow> fs_view \<Rightarrow> ('g, 's) glob_api \<Rightarrow> 's policy \<Rightarrow>
     inotify_event \<Rightarrow> tree_ctx \<Rightarrow> tree_ctx option" where
  "tree_event ik k fs api policy ev tc =
     (if ie_mask ev AND in_q_overflow = in_q_overflow then Some (tc\<lparr>tc_reload := True\<rparr>)
      else if ie_mask ev AND in_isdir \<noteq> in_isdir then Some tc
      else (case (ie_name ev, map_of (tw_wd_map (tc_tree tc)) (ie_wd ev)) of
              (Some name, Some pdir) \<Rightarrow>
                (let new_dir = path_join pdir name
                 in (case covering_watch policy new_dir of
                       None \<Rightarrow> Some tc
                     | Some watch \<Rightarrow>
                         (case dirs_to_mark fs new_dir (is_excluded api watch) of
                            None \<Rightarrow> None
                          | Some dirs \<Rightarrow> Some (fold (mark_new_dir ik k watch) dirs tc))))
            | _ \<Rightarrow> Some tc))"

fun tree_events ::
    "inotify_kernel \<Rightarrow> fan_kernel \<Rightarrow> fs_view \<Rightarrow> ('g, 's) glob_api \<Rightarrow> 's policy \<Rightarrow>
     inotify_event list \<Rightarrow> tree_ctx \<Rightarrow> tree_ctx option" where
  "tree_events ik k fs api policy [] tc = Some tc"
| "tree_events ik k fs api policy (ev # evs) tc =
     (case tree_event ik k fs api policy ev tc of
        None \<Rightarrow> None
      | Some tc' \<Rightarrow> tree_events ik k fs api policy evs tc')"

definition on_ready ::
    "inotify_kernel \<Rightarrow> fan_kernel \<Rightarrow> fs_view \<Rightarrow> ('g, 's) glob_api \<Rightarrow> 's policy \<Rightarrow>
     inotify_event list io_result \<Rightarrow> tree_ctx \<Rightarrow> tree_ctx option" where
  "on_ready ik k fs api policy read_events tc =
     (if \<not> tw_inotify (tc_tree tc) then Some tc
      else (case read_events of
              Inl _ \<Rightarrow> Some tc
            | Inr evs \<Rightarrow> tree_events ik k fs api policy evs tc))"

section \<open>The descriptor table\<close>

interpretation wd_table: keyed_map AList.update map_of "(=)" "\<lambda>m :: (u32 \<times> path) list. distinct (map fst m)"
  by unfold_locales (auto simp: distinct_update update_conv')

definition tree_ok :: "tree_watch \<Rightarrow> bool" where
  "tree_ok tw \<longleftrightarrow> distinct (map fst (tw_wd_map tw)) \<and> (\<not> tw_inotify tw \<longrightarrow> tw_wd_map tw = [])"

lemma tree_add_ok: "tree_ok tw \<Longrightarrow> tree_ok (tree_add ik dir tw)"
  by (auto simp: tree_ok_def tree_add_def wd_table.map_ok_put split: sum.splits)

lemma tree_add_inotify [simp]: "tw_inotify (tree_add ik dir tw) = tw_inotify tw"
  by (simp add: tree_add_def split: sum.splits)

lemma is_watching_iff: "is_watching tw dir \<longleftrightarrow> (\<exists>p \<in> snd ` set (tw_wd_map tw). path_eq p dir)"
  by (auto simp: is_watching_def list_ex_iff)

lemma update_values: "snd ` set (AList.update k v m) \<subseteq> insert v (snd ` set m)"
  by (induction m) auto

lemma update_has: "v \<in> snd ` set (AList.update k v m)"
  by (induction m) auto

lemma tree_add_values:
  "snd ` set (tw_wd_map (tree_add ik dir tw)) \<subseteq> insert dir (snd ` set (tw_wd_map tw))"
proof (cases "ik_add ik (tw_wd_map tw) dir watch_mask")
  case (Inr wd)
  then show ?thesis
    using update_values [of wd dir "tw_wd_map tw"] by (simp add: tree_add_def subset_insertI)
qed (simp add: tree_add_def subset_insertI)

lemma tree_add_watched:
  assumes "tw_inotify tw" and "ik_add ik (tw_wd_map tw) dir watch_mask = Inr wd"
  shows "is_watching (tree_add ik dir tw) dir"
proof -
  have "dir \<in> snd ` set (tw_wd_map (tree_add ik dir tw))"
    using assms update_has [of dir wd "tw_wd_map tw"] by (simp add: tree_add_def)
  then show ?thesis unfolding is_watching_iff by (rule bexI [rotated]) simp
qed

lemma fold_tree_add_ok: "tree_ok tw \<Longrightarrow> tree_ok (fold (tree_add ik) ds tw)"
  by (induction ds arbitrary: tw) (auto simp: tree_add_ok)

lemma fold_tree_add_values:
  "snd ` set (tw_wd_map (fold (tree_add ik) ds tw)) \<subseteq> set ds \<union> snd ` set (tw_wd_map tw)"
proof (induction ds arbitrary: tw)
  case Nil
  then show ?case by simp
next
  case (Cons d ds)
  have "snd ` set (tw_wd_map (fold (tree_add ik) ds (tree_add ik d tw))) \<subseteq>
        set ds \<union> snd ` set (tw_wd_map (tree_add ik d tw))"
    by (rule Cons.IH)
  also have "\<dots> \<subseteq> set ds \<union> insert d (snd ` set (tw_wd_map tw))"
    by (intro Un_mono order.refl tree_add_values)
  finally show ?case by simp
qed

section \<open>What the handler preserves and covers\<close>

text \<open>The marks the record claims are in place, but for the given ones.\<close>

definition tree_ctx_but :: "(path \<times> u64) set \<Rightarrow> tree_ctx \<Rightarrow> bool" where
  "tree_ctx_but gone tc \<longleftrightarrow> backed_but gone (tc_fan tc, tc_marks tc) \<and> tree_ok (tc_tree tc)"

lemma mark_new_dir_fields:
  "(tc_fan (mark_new_dir ik k w d tc), tc_marks (mark_new_dir ik k w d tc)) =
     mark_step k (tc_fan tc, tc_marks tc) (ObjDir, w, d)"
  "tc_tree (mark_new_dir ik k w d tc) = tree_add ik d (tc_tree tc)"
  "tc_reload (mark_new_dir ik k w d tc) = tc_reload tc"
  by (simp_all add: mark_new_dir_def mark_step_def case_prod_beta)

lemma fold_mark_new_dir:
  "(tc_fan (fold (mark_new_dir ik k w) ds tc), tc_marks (fold (mark_new_dir ik k w) ds tc)) =
     foldl (mark_step k) (tc_fan tc, tc_marks tc) (map (\<lambda>d. (ObjDir, w, d)) ds)"
  "tc_tree (fold (mark_new_dir ik k w) ds tc) = fold (tree_add ik) ds (tc_tree tc)"
  "tc_reload (fold (mark_new_dir ik k w) ds tc) = tc_reload tc"
proof -
  show "(tc_fan (fold (mark_new_dir ik k w) ds tc), tc_marks (fold (mark_new_dir ik k w) ds tc)) =
     foldl (mark_step k) (tc_fan tc, tc_marks tc) (map (\<lambda>d. (ObjDir, w, d)) ds)"
    by (induction ds arbitrary: tc) (simp_all add: mark_new_dir_fields)
  show "tc_tree (fold (mark_new_dir ik k w) ds tc) = fold (tree_add ik) ds (tc_tree tc)"
    by (induction ds arbitrary: tc) (simp_all add: mark_new_dir_fields)
  show "tc_reload (fold (mark_new_dir ik k w) ds tc) = tc_reload tc"
    by (induction ds arbitrary: tc) (simp_all add: mark_new_dir_fields)
qed

lemma fold_mark_new_dir_ok:
  assumes "tree_ctx_but gone tc"
  shows "tree_ctx_but gone (fold (mark_new_dir ik k w) ds tc)"
  using assms marking.inv_run [of gone "(tc_fan tc, tc_marks tc)" k "map (\<lambda>d. (ObjDir, w, d)) ds"]
  by (simp add: tree_ctx_but_def fold_mark_new_dir fold_tree_add_ok)

lemma tree_event_cases:
  assumes "tree_event ik k fs api policy ev tc = Some tc'"
  obtains "tc' = tc" | "tc' = tc\<lparr>tc_reload := True\<rparr>"
  | name pdir w dirs where "ie_name ev = Some name"
      "map_of (tw_wd_map (tc_tree tc)) (ie_wd ev) = Some pdir"
      "covering_watch policy (path_join pdir name) = Some w"
      "dirs_to_mark fs (path_join pdir name) (is_excluded api w) = Some dirs"
      "tc' = fold (mark_new_dir ik k w) dirs tc"
proof (cases "ie_mask ev AND in_q_overflow = in_q_overflow \<or> ie_mask ev AND in_isdir \<noteq> in_isdir")
  case True
  then show thesis
    using assms that(1,2) by (auto simp: tree_event_def split: if_splits)
next
  case flags: False
  show thesis
  proof (cases "ie_name ev = None \<or> map_of (tw_wd_map (tc_tree tc)) (ie_wd ev) = None")
    case True
    then show thesis
      using assms flags that(1) by (auto simp: tree_event_def split: option.splits)
  next
    case False
    then obtain name pdir where np: "ie_name ev = Some name"
      "map_of (tw_wd_map (tc_tree tc)) (ie_wd ev) = Some pdir"
      by (cases "ie_name ev"; cases "map_of (tw_wd_map (tc_tree tc)) (ie_wd ev)") auto
    show thesis
    proof (cases "covering_watch policy (path_join pdir name)")
      case None
      then show thesis using assms flags np that(1) by (simp add: tree_event_def)
    next
      case (Some w)
      then show thesis
        using assms flags np that(3) [OF np Some]
        by (cases "dirs_to_mark fs (path_join pdir name) (is_excluded api w)")
          (simp_all add: tree_event_def)
    qed
  qed
qed

lemma tree_ctx_ok_reload [simp]: "tree_ctx_but gone (tc\<lparr>tc_reload := b\<rparr>) = tree_ctx_but gone tc"
  by (simp add: tree_ctx_but_def)

lemma tree_event_ok:
  "tree_event ik k fs api policy ev tc = Some tc' \<Longrightarrow> tree_ctx_but gone tc \<Longrightarrow> tree_ctx_but gone tc'"
  by (erule tree_event_cases) (auto simp: fold_mark_new_dir_ok)

lemma tree_event_total:
  assumes "fs_bounded path_max width fs"
  shows "\<exists>tc'. tree_event ik k fs api policy ev tc = Some tc'"
proof -
  have "\<exists>ds. dirs_to_mark fs d ex = Some ds" for d ex
    using dirs_to_mark_exact [OF assms] by blast
  then show ?thesis
    by (auto simp: tree_event_def Let_def split: option.splits) (metis option.distinct(1))
qed

lemma tree_events_total:
  assumes "fs_bounded path_max width fs"
  shows "\<exists>tc'. tree_events ik k fs api policy evs tc = Some tc'"
proof (induction evs arbitrary: tc)
  case Nil
  then show ?case by simp
next
  case (Cons ev evs)
  then show ?case using tree_event_total [OF assms, of ik k api policy ev tc] by auto
qed

lemma tree_events_ok:
  "tree_events ik k fs api policy evs tc = Some tc' \<Longrightarrow> tree_ctx_but gone tc \<Longrightarrow> tree_ctx_but gone tc'"
  by (induction evs arbitrary: tc) (auto dest: tree_event_ok split: option.splits)

lemma on_ready_ok:
  "on_ready ik k fs api policy r tc = Some tc' \<Longrightarrow> tree_ctx_but gone tc \<Longrightarrow> tree_ctx_but gone tc'"
  by (auto simp: on_ready_def dest: tree_events_ok split: if_splits sum.splits)

lemma on_ready_total:
  "fs_bounded path_max width fs \<Longrightarrow> \<exists>tc'. on_ready ik k fs api policy r tc = Some tc'"
  by (auto simp: on_ready_def intro: tree_events_total split: sum.splits)

lemma build_watches_ok:
  "build_watches ik fs api ws tw = Some tw' \<Longrightarrow> tree_ok tw \<Longrightarrow> tree_ok tw'"
  by (induction ws arbitrary: tw)
    (auto simp: fold_tree_add_ok split: if_splits option.splits watch_scan.splits)

lemma tree_build_ok: "tree_build ik fs api policy = Some tw \<Longrightarrow> tree_ok tw"
  by (auto simp: tree_build_def tree_ok_def dest!: build_watches_ok split: option.splits)

lemma build_watches_total:
  assumes "fs_bounded path_max width fs"
  shows "\<exists>tw'. build_watches ik fs api ws tw = Some tw'"
proof (induction ws arbitrary: tw)
  case Nil
  then show ?case by simp
next
  case (Cons w ws)
  obtain sc where "scan_watch fs api w = Some sc"
    using scan_watch_total [OF assms] by blast
  then show ?case using Cons by (cases sc) auto
qed

lemma tree_build_total:
  "fs_bounded path_max width fs \<Longrightarrow> \<exists>tw. tree_build ik fs api policy = Some tw"
  by (auto simp: tree_build_def intro: build_watches_total split: option.splits)

text \<open>
  A new directory that is not excluded is recorded in the mark set with everything below it that
  the walk reaches, and only that.
\<close>

lemma tree_event_new_dir:
  assumes "fs_bounded path_max width fs" and "tree_ctx_but gone tc"
    and "ie_mask ev AND in_q_overflow \<noteq> in_q_overflow" and "ie_mask ev AND in_isdir = in_isdir"
    and "ie_name ev = Some name" and "map_of (tw_wd_map (tc_tree tc)) (ie_wd ev) = Some pdir"
    and "covering_watch policy (path_join pdir name) = Some w"
  shows "\<exists>tc'. tree_event ik k fs api policy ev tc = Some tc' \<and>
    (\<forall>p. mark_set_get (tc_marks tc') p \<noteq> None \<longleftrightarrow>
       mark_set_get (tc_marks tc) p \<noteq> None \<or>
       \<not> is_excluded api w (path_join pdir name) \<and>
       (\<exists>d. walk_reach fs (is_excluded api w) (path_join pdir name) d \<and> path_eq d p))"
proof -
  obtain dirs where dirs: "dirs_to_mark fs (path_join pdir name) (is_excluded api w) = Some dirs"
    and set_dirs: "set dirs = {d. \<not> is_excluded api w (path_join pdir name) \<and>
          walk_reach fs (is_excluded api w) (path_join pdir name) d}"
    using dirs_to_mark_exact [OF assms(1)] by blast
  let ?tc = "fold (mark_new_dir ik k w) dirs tc"
  have "tree_event ik k fs api policy ev tc = Some ?tc"
    using assms dirs by (simp add: tree_event_def)
  moreover have "tc_marks ?tc =
      snd (foldl (mark_step k) (tc_fan tc, tc_marks tc) (map (\<lambda>d. (ObjDir, w, d)) dirs))"
    using fold_mark_new_dir(1) [of ik k w dirs tc] by (metis snd_conv)
  moreover have "marks_sorted (tc_marks tc)"
    using assms(2) by (simp add: tree_ctx_but_def backed_but_def)
  ultimately show ?thesis
    using mark_run_recorded [of "(tc_fan tc, tc_marks tc)" k "map (\<lambda>d. (ObjDir, w, d)) dirs"]
      set_dirs by auto
qed

text \<open>Live marking answers no event and takes no mark back.\<close>

lemma fold_mark_new_dir_fan:
  assumes "tc' = fold (mark_new_dir ik k w) ds tc"
  shows "fa_answers (tc_fan tc') = fa_answers (tc_fan tc) \<and> fa_dropped (tc_fan tc') = fa_dropped (tc_fan tc)"
proof -
  let ?st = "(tc_fan tc, tc_marks tc)" and ?es = "map (\<lambda>d. (ObjDir, w, d)) ds"
  have "tc_fan tc' = fst (foldl (mark_step k) ?st ?es)"
    using fold_mark_new_dir(1) [of ik k w ds tc] assms by (metis fst_conv)
  then show ?thesis by simp
qed

lemma tree_event_answers:
  "tree_event ik k fs api policy ev tc = Some tc' \<Longrightarrow>
   fa_answers (tc_fan tc') = fa_answers (tc_fan tc) \<and> fa_dropped (tc_fan tc') = fa_dropped (tc_fan tc)"
  by (erule tree_event_cases) (simp_all add: fold_mark_new_dir_fan)

lemma tree_events_answers:
  "tree_events ik k fs api policy evs tc = Some tc' \<Longrightarrow>
   fa_answers (tc_fan tc') = fa_answers (tc_fan tc) \<and> fa_dropped (tc_fan tc') = fa_dropped (tc_fan tc)"
  by (induction evs arbitrary: tc) (auto dest: tree_event_answers split: option.splits)

lemma on_ready_answers:
  "on_ready ik k fs api policy r tc = Some tc' \<Longrightarrow>
   fa_answers (tc_fan tc') = fa_answers (tc_fan tc) \<and> fa_dropped (tc_fan tc') = fa_dropped (tc_fan tc)"
  by (auto simp: on_ready_def dest: tree_events_answers split: if_splits sum.splits)

section \<open>Properties\<close>

text \<open>
  C17: a directory that appears in a watched directory under a covering watch is recorded in the
  mark set together with every directory below it that the walk reaches, and nothing else is added;
  an excluded one adds nothing. What was missing before of the marks the record claims may still be
  missing, but nothing else: a new entry that claims a mark is backed by one that is in place.
\<close>

theorem new_directory_is_covered:
  assumes "fs_bounded path_max width fs" and "tree_ctx_but gone tc"
    and "ie_mask ev AND in_q_overflow \<noteq> in_q_overflow" and "ie_mask ev AND in_isdir = in_isdir"
    and "ie_name ev = Some name" and "map_of (tw_wd_map (tc_tree tc)) (ie_wd ev) = Some pdir"
    and "covering_watch policy (path_join pdir name) = Some w"
  shows "\<exists>tc'. tree_event ik k fs api policy ev tc = Some tc' \<and> tree_ctx_but gone tc' \<and>
    (\<forall>p. mark_set_get (tc_marks tc') p \<noteq> None \<longleftrightarrow>
       mark_set_get (tc_marks tc) p \<noteq> None \<or>
       \<not> is_excluded api w (path_join pdir name) \<and>
       (\<exists>d. walk_reach fs (is_excluded api w) (path_join pdir name) d \<and> path_eq d p))"
  using tree_event_new_dir [OF assms] tree_event_ok assms(2) by blast

theorem new_directory_is_covered_witness:
  "\<exists>tc'. tree_event \<lparr>ik_init = None, ik_add = (\<lambda>ws p m. Inr 2)\<rparr> demo_fan demo_fs demo_globs demo_policy
       \<lparr>ie_wd = 1, ie_mask = in_create OR in_isdir, ie_name = Some ''a''\<rparr>
       \<lparr>tc_tree = \<lparr>tw_inotify = True, tw_wd_map = [(1, ''/w'')]\<rparr>,
        tc_fan = \<lparr>fa_marks = [], fa_dropped = [], fa_answers = []\<rparr>, tc_marks = mark_set_new, tc_reload = False\<rparr> = Some tc' \<and>
     mark_set_get (tc_marks tc') ''/w/a'' \<noteq> None"
proof -
  let ?tc = "\<lparr>tc_tree = \<lparr>tw_inotify = True, tw_wd_map = [(1, ''/w'')]\<rparr>,
        tc_fan = \<lparr>fa_marks = [], fa_dropped = [], fa_answers = []\<rparr>, tc_marks = mark_set_new, tc_reload = False\<rparr>"
  let ?ev = "\<lparr>ie_wd = 1, ie_mask = in_create OR in_isdir, ie_name = Some ''a''\<rparr>"
  let ?w = "demo_watch ''/w'' KindFile True"
  have ok: "tree_ctx_but {} ?tc"
    by (simp add: tree_ctx_but_def tree_ok_def backed_but_def) (simp add: mark_set_new_def)
  have flags: "ie_mask ?ev AND in_q_overflow \<noteq> in_q_overflow" "ie_mask ?ev AND in_isdir = in_isdir"
    by (simp_all add: in_create_def in_isdir_def in_q_overflow_def)
  have join: "path_join ''/w'' ''a'' = ''/w/a''" by code_simp
  have "starts_with ''/w/a'' ''/w''" by code_simp
  then have cover: "covering_watch demo_policy (path_join ''/w'' ''a'') = Some ?w"
    by (simp add: covering_watch_def demo_policy_def covers_def join) (simp add: demo_watch_def)
  have look: "map_of (tw_wd_map (tc_tree ?tc)) (ie_wd ?ev) = Some ''/w''" by simp
  have "\<not> is_excluded demo_globs ?w ''/w/a''"
    by (simp add: is_excluded_def demo_globs_def)
  then show ?thesis
    using new_directory_is_covered [OF demo_fs_bounded ok flags _ look cover,
        of "\<lparr>ik_init = None, ik_add = (\<lambda>ws p m. Inr 2)\<rparr>" demo_fan demo_globs]
    by (fastforce simp: join intro: walk_root path_eq_refl)
qed

end
