(* ===== verification/FW_Watcher.thy ===== *)
theory FW_Watcher
  imports FW_TreeWatch
begin

text \<open>
  The thread that watches the configuration and the rule file (\<open>filewalld/src/watcher.rs\<close>): its
  setup, which gives up quietly when something is missing, and its loop, which raises \<open>RELOAD\<close> for
  a change of either file.
\<close>

definition in_close_write :: u32 where "in_close_write = 0x00000008"

record watcher =
  wa_config_name :: string
  wa_rules_name :: string
  wa_watches :: "(u32 \<times> path) list"

definition nonempty_parent :: "path \<Rightarrow> path option" where
  "nonempty_parent p = (case parent p of None \<Rightarrow> None | Some d \<Rightarrow> if d = [] then None else Some d)"

definition watcher_start :: "inotify_kernel \<Rightarrow> path \<Rightarrow> path \<Rightarrow> watcher option" where
  "watcher_start ik config_path rules_path =
     (case nonempty_parent config_path of None \<Rightarrow> None | Some config_dir \<Rightarrow>
      (case file_name config_path of None \<Rightarrow> None | Some config_name \<Rightarrow>
      (case nonempty_parent rules_path of None \<Rightarrow> None | Some rules_dir \<Rightarrow>
      (case file_name rules_path of None \<Rightarrow> None | Some rules_name \<Rightarrow>
      (case ik_init ik of Some e \<Rightarrow> None | None \<Rightarrow>
        (let msk = in_close_write OR in_moved_to in
         case ik_add ik [] config_dir msk of Inl e \<Rightarrow> None | Inr wd \<Rightarrow>
           (let ws = [(wd, config_dir)] in
            if \<not> path_eq rules_dir config_dir then
              (case ik_add ik ws rules_dir msk of
                 Inl e \<Rightarrow> None
               | Inr wd' \<Rightarrow> Some \<lparr>wa_config_name = config_name, wa_rules_name = rules_name,
                                 wa_watches = AList.update wd' rules_dir ws\<rparr>)
            else Some \<lparr>wa_config_name = config_name, wa_rules_name = rules_name,
                       wa_watches = ws\<rparr>)))))))"

text \<open>What one batch of events does to the flag.\<close>

fun watcher_events :: "watcher \<Rightarrow> inotify_event list \<Rightarrow> bool \<Rightarrow> bool" where
  "watcher_events wa [] reload = reload"
| "watcher_events wa (ev # evs) reload =
     (if ie_name ev = Some (wa_config_name wa) \<or> ie_name ev = Some (wa_rules_name wa)
      then watcher_events wa evs True
      else watcher_events wa evs reload)"

text \<open>The loop over the results of \<open>read_events\<close>; an error other than \<open>EINTR\<close> ends the thread.\<close>

fun watcher_loop :: "watcher \<Rightarrow> inotify_event list io_result list \<Rightarrow> bool \<Rightarrow> bool" where
  "watcher_loop wa [] reload = reload"
| "watcher_loop wa (Inl e # rs) reload =
     (if e = Interrupted then watcher_loop wa rs reload else reload)"
| "watcher_loop wa (Inr evs # rs) reload = watcher_loop wa rs (watcher_events wa evs reload)"

lemma watcher_events_iff:
  "watcher_events wa evs reload \<longleftrightarrow>
     reload \<or> (\<exists>ev \<in> set evs. ie_name ev \<in> {Some (wa_config_name wa), Some (wa_rules_name wa)})"
  by (induction evs arbitrary: reload) auto

text \<open>The flag is raised exactly by a change of a watched name before the thread ends.\<close>

lemma watcher_loop_iff:
  "watcher_loop wa rs reload \<longleftrightarrow>
     reload \<or>
     (\<exists>evs \<in> set (List.map_filter (\<lambda>r. case r of Inl _ \<Rightarrow> None | Inr evs \<Rightarrow> Some evs)
        (takeWhile (\<lambda>r. is_ok r \<or> r = Inl Interrupted) rs)).
        \<exists>ev \<in> set evs. ie_name ev \<in> {Some (wa_config_name wa), Some (wa_rules_name wa)})"
  by (induction wa rs reload rule: watcher_loop.induct)
    (auto simp: watcher_events_iff map_filter_simps is_ok_def)

lemma watcher_start_names:
  assumes "watcher_start ik cp rp = Some wa"
  shows "file_name cp = Some (wa_config_name wa)" and "file_name rp = Some (wa_rules_name wa)"
proof -
  have "file_name cp = Some (wa_config_name wa) \<and> file_name rp = Some (wa_rules_name wa)"
    using assms unfolding watcher_start_def Let_def
    by (simp split: option.split_asm sum.split_asm if_split_asm) auto
  then show "file_name cp = Some (wa_config_name wa)" and "file_name rp = Some (wa_rules_name wa)"
    by simp_all
qed

section \<open>Properties\<close>

text \<open>
  Once the watcher is set up, it raises the reload flag for a change of the configuration or of
  the rule file, by name, in any batch it reads before a read error ends it, and for nothing else;
  an interrupted read does not end it.
\<close>

theorem watcher_raises_reload:
  assumes "watcher_start ik config_path rules_path = Some wa"
  shows "watcher_loop wa rs reload \<longleftrightarrow>
     reload \<or>
     (\<exists>evs \<in> set (List.map_filter (\<lambda>r. case r of Inl _ \<Rightarrow> None | Inr evs \<Rightarrow> Some evs)
        (takeWhile (\<lambda>r. is_ok r \<or> r = Inl Interrupted) rs)).
        \<exists>ev \<in> set evs. ie_name ev \<noteq> None \<and>
          (ie_name ev = file_name config_path \<or> ie_name ev = file_name rules_path))"
  using watcher_loop_iff [of wa rs reload] watcher_start_names [OF assms] by auto

theorem watcher_raises_reload_witness:
  "\<exists>wa. watcher_start \<lparr>ik_init = None, ik_add = (\<lambda>ws p m. Inr 1)\<rparr> ''/etc/fw/c.toml'' ''/etc/fw/r.toml'' = Some wa \<and>
     watcher_loop wa [Inl Interrupted, Inr [\<lparr>ie_wd = 1, ie_mask = in_moved_to, ie_name = Some ''r.toml''\<rparr>]] False \<and>
     \<not> watcher_loop wa [Inr [\<lparr>ie_wd = 1, ie_mask = in_moved_to, ie_name = Some ''.rules.7.tmp''\<rparr>]] False"
proof -
  let ?ik = "\<lparr>ik_init = None, ik_add = (\<lambda>ws p m. Inr 1)\<rparr>"
  have paths: "nonempty_parent ''/etc/fw/c.toml'' = Some ''/etc/fw''" "file_name ''/etc/fw/c.toml'' = Some ''c.toml''"
    "nonempty_parent ''/etc/fw/r.toml'' = Some ''/etc/fw''" "file_name ''/etc/fw/r.toml'' = Some ''r.toml''"
    by code_simp+
  then obtain wa where wa: "watcher_start ?ik ''/etc/fw/c.toml'' ''/etc/fw/r.toml'' = Some wa"
    by (simp add: watcher_start_def)
  show ?thesis
    by (rule exI [of _ wa], unfold watcher_raises_reload [OF wa]) (simp add: wa paths map_filter_simps)
qed

end
