(* ===== verification/FW_Config.thy ===== *)
theory FW_Config
  imports FW_Policy
begin

text \<open>
  The configuration (\<open>filewalld/src/config.rs\<close>): the defaults of the missing keys, the resolution
  of the watch roots, and the construction of the policy. The TOML parser gives the keys that are
  present; the host supplies \<open>$HOME\<close> and \<open>realpath\<close>.
\<close>

section \<open>The file's keys and their defaults\<close>

record raw_watch =
  rw_path :: string
  rw_allow :: "string list option"
  rw_exclude :: "string list option"
  rw_learn_object :: "object_kind option"
  rw_learn_match :: "string list option"
  rw_patterns :: "string list option"

record raw_config =
  rc_default_action :: "action option"
  rc_prompt_timeout_seconds :: "u64 option"
  rc_socket_path :: "path option"
  rc_control_socket_path :: "path option"
  rc_rules_path :: "path option"
  rc_watch :: "raw_watch list option"

record watch_config =
  wc_path :: string
  wc_allow :: "string list"
  wc_exclude :: "string list"
  wc_learn_object :: object_kind
  wc_learn_match :: "string list"
  wc_patterns :: "string list"

record config =
  cf_default_action :: action
  cf_prompt_timeout_seconds :: u64
  cf_socket_path :: path
  cf_control_socket_path :: path
  cf_rules_path :: path
  cf_watch :: "watch_config list"

definition or_default :: "'a option \<Rightarrow> 'a \<Rightarrow> 'a" where
  "or_default x d = (case x of None \<Rightarrow> d | Some v \<Rightarrow> v)"

definition default_action :: action where "default_action = ActPrompt"
definition default_timeout :: u64 where "default_timeout = 30"
definition default_socket :: path where "default_socket = ''/run/filewall/prompt.sock''"
definition default_control_socket :: path where
  "default_control_socket = ''/run/filewall/control.sock''"
definition default_learn_object :: object_kind where "default_learn_object = KindFile"
definition default_rules_path :: path where "default_rules_path = ''/var/lib/filewall/rules.toml''"

definition watch_config_of :: "raw_watch \<Rightarrow> watch_config" where
  "watch_config_of r =
     \<lparr>wc_path = rw_path r, wc_allow = or_default (rw_allow r) [],
      wc_exclude = or_default (rw_exclude r) [],
      wc_learn_object = or_default (rw_learn_object r) default_learn_object,
      wc_learn_match = or_default (rw_learn_match r) [],
      wc_patterns = or_default (rw_patterns r) []\<rparr>"

definition config_of :: "raw_config \<Rightarrow> config" where
  "config_of r =
     \<lparr>cf_default_action = or_default (rc_default_action r) default_action,
      cf_prompt_timeout_seconds = or_default (rc_prompt_timeout_seconds r) default_timeout,
      cf_socket_path = or_default (rc_socket_path r) default_socket,
      cf_control_socket_path = or_default (rc_control_socket_path r) default_control_socket,
      cf_rules_path = or_default (rc_rules_path r) default_rules_path,
      cf_watch = map watch_config_of (or_default (rc_watch r) [])\<rparr>"

section \<open>Loading\<close>

datatype config_error = CfgIo path io_kind | CfgParse | CfgGlob string string

definition config_from_str :: "(string \<Rightarrow> raw_config option) \<Rightarrow> string \<Rightarrow> config_error + config" where
  "config_from_str from_toml text =
     (case from_toml text of None \<Rightarrow> Inl CfgParse | Some r \<Rightarrow> Inr (config_of r))"

definition config_load ::
    "(string \<Rightarrow> raw_config option) \<Rightarrow> file_map \<Rightarrow> path \<Rightarrow> config_error + config" where
  "config_load from_toml fm path =
     (case map_err (CfgIo path) (read_to_string fm path) of
        Inl e \<Rightarrow> Inl e
      | Inr text \<Rightarrow> config_from_str from_toml text)"

section \<open>Watch roots\<close>

record host =
  ho_home :: "path option"
  ho_canonicalize :: "path \<Rightarrow> path io_result"

definition expand_home :: "host \<Rightarrow> string \<Rightarrow> path" where
  "expand_home h path =
     (if prefix ''~/'' path then
        (case ho_home h of
           Some home \<Rightarrow> path_join home (drop 2 path)
         | None \<Rightarrow> path)
      else if path = ''~'' then
        (case ho_home h of Some home \<Rightarrow> home | None \<Rightarrow> path)
      else path)"

definition canonicalize_root :: "host \<Rightarrow> path \<Rightarrow> path" where
  "canonicalize_root h path =
     (case ho_canonicalize h path of Inr p \<Rightarrow> p | Inl _ \<Rightarrow> path)"

section \<open>Building the policy\<close>

definition build_watch ::
    "('g, 's) glob_api \<Rightarrow> host \<Rightarrow> action \<Rightarrow> watch_config \<Rightarrow> config_error + 's watch_policy" where
  "build_watch api h act w =
     (let root = canonicalize_root h (expand_home h (wc_path w));
          learn_cwd = list_ex (\<lambda>m. m = ''cwd'') (wc_learn_match w)
      in map_err (CfgGlob (wc_path w))
           (watch_policy_new api root (wc_allow w) act (wc_learn_object w) learn_cwd
              (wc_exclude w) (wc_patterns w)))"

fun build_policy_loop ::
    "('g, 's) glob_api \<Rightarrow> host \<Rightarrow> action \<Rightarrow> watch_config list \<Rightarrow> 's watch_policy list \<Rightarrow>
     config_error + 's policy" where
  "build_policy_loop api h act [] watches = Inr \<lparr>po_watches = watches\<rparr>"
| "build_policy_loop api h act (w # ws) watches =
     (case build_watch api h act w of
        Inl e \<Rightarrow> Inl e
      | Inr wp \<Rightarrow> build_policy_loop api h act ws (watches @ [wp]))"

definition build_policy :: "('g, 's) glob_api \<Rightarrow> host \<Rightarrow> config \<Rightarrow> config_error + 's policy" where
  "build_policy api h cfg = build_policy_loop api h (cf_default_action cfg) (cf_watch cfg) []"

section \<open>Lemmas\<close>

lemma build_policy_loop_ok_iff:
  "build_policy_loop api h act ws acc = Inr p \<longleftrightarrow>
     (\<exists>wps. list_all2 (\<lambda>w wp. build_watch api h act w = Inr wp) ws wps \<and> po_watches p = acc @ wps)"
proof (induction ws arbitrary: acc)
  case Nil
  then show ?case by (cases p) auto
next
  case (Cons w ws)
  show ?case
  proof (cases "build_watch api h act w")
    case (Inl e)
    then show ?thesis by (auto simp: list_all2_Cons1)
  next
    case (Inr wp)
    then show ?thesis
      using Cons.IH [of "acc @ [wp]"] by (auto simp: list_all2_Cons1)
  qed
qed

lemma build_policy_ok_iff:
  "build_policy api h cfg = Inr p \<longleftrightarrow>
     list_all2 (\<lambda>w wp. build_watch api h (cf_default_action cfg) w = Inr wp) (cf_watch cfg) (po_watches p)"
  by (simp add: build_policy_def build_policy_loop_ok_iff)

lemma build_policy_loop_error:
  "build_policy_loop api h act ws acc = Inl e \<Longrightarrow>
   \<exists>as w bs. ws = as @ w # bs \<and> (\<forall>v \<in> set as. is_ok (build_watch api h act v)) \<and>
     build_watch api h act w = Inl e"
proof (induction ws arbitrary: acc)
  case Nil
  then show ?case by simp
next
  case (Cons w ws)
  show ?case
  proof (cases "build_watch api h act w")
    case (Inl x)
    with Cons.prems have "w # ws = [] @ w # ws \<and> (\<forall>v \<in> set []. is_ok (build_watch api h act v)) \<and>
      build_watch api h act w = Inl e" by simp
    then show ?thesis by blast
  next
    case (Inr wp)
    with Cons.prems have "build_policy_loop api h act ws (acc @ [wp]) = Inl e" by simp
    then obtain as u bs where "ws = as @ u # bs" "\<forall>v \<in> set as. is_ok (build_watch api h act v)"
      "build_watch api h act u = Inl e"
      using Cons.IH by blast
    then have "w # ws = (w # as) @ u # bs \<and> (\<forall>v \<in> set (w # as). is_ok (build_watch api h act v)) \<and>
      build_watch api h act u = Inl e" using Inr by simp
    then show ?thesis by blast
  qed
qed

lemma build_watch_fields:
  assumes "build_watch api h act w = Inr wp"
  shows "wp_root wp = canonicalize_root h (expand_home h (wc_path w))"
    and "wp_default_action wp = act"
    and "wp_learn_object wp = wc_learn_object w"
    and "wp_learn_cwd wp \<longleftrightarrow> ''cwd'' \<in> set (wc_learn_match w)"
    and "wp_recursive wp \<longleftrightarrow> wc_patterns w = [] \<or> (\<exists>p \<in> set (wc_patterns w). pattern_is_deep p)"
proof -
  let ?cwd = "list_ex (\<lambda>m. m = ''cwd'') (wc_learn_match w)"
  have new: "watch_policy_new api (canonicalize_root h (expand_home h (wc_path w))) (wc_allow w) act
      (wc_learn_object w) ?cwd (wc_exclude w) (wc_patterns w) = Inr wp"
    using assms by (auto simp: build_watch_def Let_def map_err_def split: sum.splits)
  note f = watch_policy_new_fields [OF new]
  show "wp_root wp = canonicalize_root h (expand_home h (wc_path w))"
    and "wp_default_action wp = act" and "wp_learn_object wp = wc_learn_object w"
    and "wp_learn_cwd wp \<longleftrightarrow> ''cwd'' \<in> set (wc_learn_match w)"
    and "wp_recursive wp \<longleftrightarrow> wc_patterns w = [] \<or> (\<exists>p \<in> set (wc_patterns w). pattern_is_deep p)"
    using f by (auto simp: list_ex_iff)
qed

text \<open>A set that was compiled from exactly these patterns, each of which compiled.\<close>

definition compiled :: "('g, 's) glob_api \<Rightarrow> string list \<Rightarrow> 's \<Rightarrow> bool" where
  "compiled api pats s \<longleftrightarrow> (\<exists>gs. map (gl_new api) pats = map Inr gs \<and> gl_set api gs = Inr s)"

lemma build_watch_sets:
  assumes "build_watch api h act w = Inr wp"
  shows "compiled api (wc_allow w) (wp_allow wp)" and "compiled api (wc_exclude w) (wp_exclude wp)"
    and "compiled api (wc_patterns w) (wp_include wp)"
proof -
  have "watch_policy_new api (canonicalize_root h (expand_home h (wc_path w))) (wc_allow w) act
      (wc_learn_object w) (list_ex (\<lambda>m. m = ''cwd'') (wc_learn_match w)) (wc_exclude w) (wc_patterns w) = Inr wp"
    using assms by (auto simp: build_watch_def Let_def map_err_def split: sum.splits)
  note f = watch_policy_new_fields(6-8) [OF this]
  show "compiled api (wc_allow w) (wp_allow wp)" "compiled api (wc_exclude w) (wp_exclude wp)"
    "compiled api (wc_patterns w) (wp_include wp)"
    using f by (simp_all add: compiled_def build_globs_def collect_results_ok_iff)
qed

lemma build_watch_error:
  "build_watch api h act w = Inl e \<Longrightarrow> \<exists>g. e = CfgGlob (wc_path w) g"
  by (auto simp: build_watch_def Let_def map_err_def split: sum.splits)

lemma build_policy_error:
  assumes "build_policy api h cfg = Inl e"
  shows "\<exists>as w bs g. cf_watch cfg = as @ w # bs \<and>
    (\<forall>v \<in> set as. is_ok (build_watch api h (cf_default_action cfg) v)) \<and>
    \<not> is_ok (build_watch api h (cf_default_action cfg) w) \<and> e = CfgGlob (wc_path w) g"
proof -
  obtain as w bs where w: "cf_watch cfg = as @ w # bs"
    "\<forall>v \<in> set as. is_ok (build_watch api h (cf_default_action cfg) v)"
    "build_watch api h (cf_default_action cfg) w = Inl e"
    using build_policy_loop_error assms unfolding build_policy_def by blast
  then obtain g where "e = CfgGlob (wc_path w) g"
    using build_watch_error by blast
  with w show ?thesis
    by (intro exI [of _ as] exI [of _ w] exI [of _ bs] exI [of _ g]) (simp add: is_ok_def)
qed

lemma build_policy_total_iff:
  "(\<exists>p. build_policy api h cfg = Inr p) \<longleftrightarrow>
   (\<forall>w \<in> set (cf_watch cfg). is_ok (build_watch api h (cf_default_action cfg) w))"
proof -
  have "(\<exists>p. build_policy_loop api h act ws acc = Inr p) \<longleftrightarrow>
      (\<forall>w \<in> set ws. is_ok (build_watch api h act w))" for act ws acc
  proof (induction ws arbitrary: acc)
    case (Cons w ws)
    then show ?case by (cases "build_watch api h act w") simp_all
  qed simp
  then show ?thesis by (simp add: build_policy_def)
qed

text \<open>A slash after the tilde's own makes the rest absolute, and the home directory is lost.\<close>

lemma double_slash_leaves_home:
  assumes "ho_home h = Some home" and "has_root q"
  shows "expand_home h (''~/'' @ q) = q"
  using assms by (simp add: expand_home_def path_join_def)

section \<open>Properties\<close>

text \<open>
  C20: a configuration yields a policy exactly when every watch compiles, and then the policy has one
  watch per configured one, in their order, with the resolved root of its entry, the default action,
  the sets compiled from the allowed programs, the excludes and the patterns of the entry, its
  learning scope, and the recursion its patterns ask for; otherwise the error names the first watch
  that does not compile.
\<close>

theorem policy_mirrors_configuration:
  "(\<forall>p. build_policy api h cfg = Inr p \<longrightarrow>
      list_all2 (\<lambda>w wp. wp_root wp = canonicalize_root h (expand_home h (wc_path w)) \<and>
          wp_default_action wp = cf_default_action cfg \<and> wp_learn_object wp = wc_learn_object w \<and>
          (wp_learn_cwd wp \<longleftrightarrow> ''cwd'' \<in> set (wc_learn_match w)) \<and>
          (wp_recursive wp \<longleftrightarrow> wc_patterns w = [] \<or> (\<exists>q \<in> set (wc_patterns w). pattern_is_deep q)) \<and>
          compiled api (wc_allow w) (wp_allow wp) \<and> compiled api (wc_exclude w) (wp_exclude wp) \<and>
          compiled api (wc_patterns w) (wp_include wp))
        (cf_watch cfg) (po_watches p)) \<and>
   (\<forall>e. build_policy api h cfg = Inl e \<longrightarrow>
      (\<exists>as w bs g. cf_watch cfg = as @ w # bs \<and> e = CfgGlob (wc_path w) g \<and>
         \<not> is_ok (build_watch api h (cf_default_action cfg) w) \<and>
         (\<forall>v \<in> set as. is_ok (build_watch api h (cf_default_action cfg) v)))) \<and>
   ((\<exists>p. build_policy api h cfg = Inr p) \<longleftrightarrow>
      (\<forall>w \<in> set (cf_watch cfg). is_ok (build_watch api h (cf_default_action cfg) w)))"
proof (intro conjI allI impI)
  fix p
  assume "build_policy api h cfg = Inr p"
  then have "list_all2 (\<lambda>w wp. build_watch api h (cf_default_action cfg) w = Inr wp)
      (cf_watch cfg) (po_watches p)"
    by (simp add: build_policy_ok_iff)
  then show "list_all2 (\<lambda>w wp. wp_root wp = canonicalize_root h (expand_home h (wc_path w)) \<and>
          wp_default_action wp = cf_default_action cfg \<and> wp_learn_object wp = wc_learn_object w \<and>
          (wp_learn_cwd wp \<longleftrightarrow> ''cwd'' \<in> set (wc_learn_match w)) \<and>
          (wp_recursive wp \<longleftrightarrow> wc_patterns w = [] \<or> (\<exists>q \<in> set (wc_patterns w). pattern_is_deep q)) \<and>
          compiled api (wc_allow w) (wp_allow wp) \<and> compiled api (wc_exclude w) (wp_exclude wp) \<and>
          compiled api (wc_patterns w) (wp_include wp))
        (cf_watch cfg) (po_watches p)"
    by (rule list_all2_mono) (intro conjI, (erule build_watch_fields build_watch_sets)+)
next
  fix e
  assume "build_policy api h cfg = Inl e"
  from build_policy_error [OF this]
  show "\<exists>as w bs g. cf_watch cfg = as @ w # bs \<and> e = CfgGlob (wc_path w) g \<and>
         \<not> is_ok (build_watch api h (cf_default_action cfg) w) \<and>
         (\<forall>v \<in> set as. is_ok (build_watch api h (cf_default_action cfg) v))" by blast
next
  show "(\<exists>p. build_policy api h cfg = Inr p) \<longleftrightarrow>
      (\<forall>w \<in> set (cf_watch cfg). is_ok (build_watch api h (cf_default_action cfg) w))"
    by (rule build_policy_total_iff)
qed

definition demo_config :: config where
  "demo_config = \<lparr>cf_default_action = ActPrompt, cf_prompt_timeout_seconds = 30,
     cf_socket_path = ''/run/p'', cf_control_socket_path = ''/run/c'', cf_rules_path = ''/r.toml'',
     cf_watch = [\<lparr>wc_path = ''~/k'', wc_allow = [], wc_exclude = [], wc_learn_object = KindFile,
       wc_learn_match = [''exe'', ''cwd''], wc_patterns = []\<rparr>]\<rparr>"

theorem policy_mirrors_configuration_witness:
  "\<exists>p. build_policy \<lparr>gl_new = Inr, gl_set = (\<lambda>_. Inr ()), gl_match = (\<lambda>_ _. False), gl_empty = (\<lambda>_. True)\<rparr>
       \<lparr>ho_home = Some ''/home/u'', ho_canonicalize = (\<lambda>_. Inl NotFound)\<rparr> demo_config = Inr p \<and>
     map wp_root (po_watches p) = [''/home/u/k''] \<and> map wp_learn_cwd (po_watches p) = [True]"
proof -
  let ?api = "\<lparr>gl_new = Inr :: string \<Rightarrow> string + string, gl_set = (\<lambda>_. Inr ()),
      gl_match = (\<lambda>_ _. False), gl_empty = (\<lambda>_. True)\<rparr>"
  let ?h = "\<lparr>ho_home = Some ''/home/u'', ho_canonicalize = (\<lambda>_. Inl NotFound)\<rparr>"
  have root: "canonicalize_root ?h (expand_home ?h ''~/k'') = ''/home/u/k''" by code_simp
  have "\<forall>w \<in> set (cf_watch demo_config). is_ok (build_watch ?api ?h (cf_default_action demo_config) w)"
    by (simp add: demo_config_def build_watch_def watch_policy_new_def build_globs_def Let_def)
  then obtain p where p: "build_policy ?api ?h demo_config = Inr p"
    using policy_mirrors_configuration [of ?api ?h demo_config] by blast
  have "list_all2 (\<lambda>w wp. wp_root wp = canonicalize_root ?h (expand_home ?h (wc_path w)) \<and>
      (wp_learn_cwd wp \<longleftrightarrow> ''cwd'' \<in> set (wc_learn_match w))) (cf_watch demo_config) (po_watches p)"
    using policy_mirrors_configuration [of ?api ?h demo_config, THEN conjunct1, rule_format, OF p]
    by (rule list_all2_mono) blast
  then show ?thesis
    using p root by (auto simp: demo_config_def list_all2_Cons1)
qed

end
