(* ===== verification/FW_Daemon.thy ===== *)
theory FW_Daemon
  imports FW_Control FW_Watcher FW_Config
begin

text \<open>
  The daemon (\<open>filewalld/src/main.rs\<close>): its state, the decision on one access, a reload, one
  iteration of the event loop and the startup before it. The services the daemon calls are the
  fields of a record; what differs from access to access (the accessing process, the clock, the
  disk's verdicts, the UIs that have connected meanwhile) is an argument of each step.
\<close>

section \<open>Services and state\<close>

record ('g, 's) services =
  sv_api :: "('g, 's) glob_api"
  sv_codec :: ui_codec
  sv_control :: control_codec
  sv_rules_to_toml :: "rules \<Rightarrow> string option"
  sv_rules_from_toml :: "string \<Rightarrow> rules option"
  sv_config_from_toml :: "string \<Rightarrow> raw_config option"
  sv_host :: host
  sv_fan :: fan_kernel
  sv_inotify :: inotify_kernel

text \<open>What \<open>run\<close> fixes before it enters the loop.\<close>

record params =
  su_rules_path :: path
  su_config_path :: path
  su_own_pid :: u32
  su_ui_timeout_ms :: u32

record 's daemon =
  dm_policy :: "'s policy"
  dm_rules :: rules
  dm_fan :: fanotify
  dm_marks :: mark_set
  dm_tree :: tree_watch
  dm_ui :: "ui_link option"
  dm_server :: ui_server
  dm_control :: "control_server option"
  dm_files :: file_map
  dm_reload :: bool

text \<open>What one access finds around it.\<close>

record access_env =
  ae_proc :: proc_fs
  ae_clock :: int
  ae_save :: save_env

section \<open>One access\<close>

definition always_action :: "decision \<Rightarrow> rule_action option" where
  "always_action d =
     (case d of AllowAlways \<Rightarrow> Some RuleAllow | DenyAlways \<Rightarrow> Some RuleDeny
      | AllowOnce \<Rightarrow> None | DenyOnce \<Rightarrow> None)"

definition event_path :: "proc_fs \<Rightarrow> event \<Rightarrow> path" where
  "event_path ps ev = (case accessed_path ps ev of Inr p \<Rightarrow> p | Inl _ \<Rightarrow> ''<unknown>'')"

text \<open>The scope that the dialog shows for an "Always" answer: object, whole tree, cwd pinned.\<close>

definition always_scope :: "'s watch_policy option \<Rightarrow> path \<Rightarrow> string \<times> bool \<times> bool" where
  "always_scope covering path =
     (case covering of
        Some w \<Rightarrow>
          (let (obj, kind) = always_target w path
           in (display obj, kind = KindTree, wp_learn_cwd w))
      | None \<Rightarrow> (display path, False, False))"

definition access_request ::
    "params \<Rightarrow> 's watch_policy option \<Rightarrow> proc_fs \<Rightarrow> event \<Rightarrow> path \<Rightarrow> string \<Rightarrow> string \<Rightarrow> prompt_request" where
  "access_request su covering ps ev path exe cwd =
     (let (always_object, always_tree, always_cwd_pinned) = always_scope covering path
      in \<lparr>pr_pid = ev_pid ev, pr_exe = exe, pr_cmdline = event_cmdline ps ev, pr_cwd = cwd,
          pr_path = display path, pr_always_object = always_object,
          pr_always_tree = always_tree, pr_always_cwd_pinned = always_cwd_pinned,
          pr_ui_timeout_ms = su_ui_timeout_ms su\<rparr>)"

definition remember ::
    "('g, 's) services \<Rightarrow> params \<Rightarrow> access_env \<Rightarrow> decision \<Rightarrow> 's watch_policy option \<Rightarrow>
     path \<Rightarrow> string \<Rightarrow> string \<Rightarrow> 's daemon \<Rightarrow> 's daemon" where
  "remember sv su ae d covering path exe cwd dm =
     (case always_action d of
        None \<Rightarrow> dm
      | Some act \<Rightarrow>
          (case covering of
             None \<Rightarrow> dm
           | Some w \<Rightarrow>
               (let rule = watch_learned_rule (ae_clock ae) w act exe path (Some cwd);
                    rules = rules_push rule (dm_rules dm);
                    saved = save_atomic (sv_rules_to_toml sv) (ae_save ae) rules (su_rules_path su)
                              (dm_files dm)
                in dm\<lparr>dm_rules := rules, dm_files := after_save saved (dm_files dm)\<rparr>)))"

definition ask_user ::
    "('g, 's) services \<Rightarrow> params \<Rightarrow> access_env \<Rightarrow> event \<Rightarrow> path \<Rightarrow> string \<Rightarrow> string \<Rightarrow> 's daemon \<Rightarrow>
     bool \<times> 's daemon" where
  "ask_user sv su ae ev path exe cwd dm =
     (let covering = covering_watch (dm_policy dm) path;
          req = access_request su covering (ae_proc ae) ev path exe cwd;
          (answer, ui, server) = prompt_recovering (sv_codec sv) req (dm_ui dm) (dm_server dm);
          dm' = dm\<lparr>dm_ui := ui, dm_server := server\<rparr>
      in (case answer of
            Inr d \<Rightarrow> (decision_allows d, remember sv su ae d covering path exe cwd dm')
          | Inl e \<Rightarrow> (False, dm')))"

text \<open>The outcome of an access that reaches the policy.\<close>

definition access_outcome ::
    "('g, 's) services \<Rightarrow> 's daemon \<Rightarrow> path \<Rightarrow> string \<Rightarrow> string \<Rightarrow> outcome" where
  "access_outcome sv dm path exe cwd =
     combine (policy_evaluate (sv_api sv) (dm_policy dm) path exe)
       (rules_evaluate (dm_rules dm) path exe (Some cwd))"

text \<open>The events that are allowed before the policy is asked.\<close>

definition passes_by :: "('g, 's) services \<Rightarrow> params \<Rightarrow> access_env \<Rightarrow> event \<Rightarrow> 's daemon \<Rightarrow> bool" where
  "passes_by sv su ae ev dm \<longleftrightarrow>
     \<not> is_open_perm ev \<or> ev_pid ev = su_own_pid su \<or>
     (let path = event_path (ae_proc ae) ev
      in (case covering_watch (dm_policy dm) path of
            None \<Rightarrow> False
          | Some w \<Rightarrow> is_excluded (sv_api sv) w path \<or> \<not> is_included (sv_api sv) w path))"

definition decide_event ::
    "('g, 's) services \<Rightarrow> params \<Rightarrow> access_env \<Rightarrow> event \<Rightarrow> 's daemon \<Rightarrow> bool \<times> 's daemon" where
  "decide_event sv su ae ev dm =
     (if passes_by sv su ae ev dm then (True, dm)
      else
        (let path = event_path (ae_proc ae) ev;
             exe = event_exe (ae_proc ae) ev;
             cwd = event_cwd (ae_proc ae) ev
         in (case access_outcome sv dm path exe cwd of
               OutAllow \<Rightarrow> (True, dm)
             | OutDeny \<Rightarrow> (False, dm)
             | OutPrompt \<Rightarrow> ask_user sv su ae ev path exe cwd dm)))"

definition process_event ::
    "('g, 's) services \<Rightarrow> params \<Rightarrow> access_env \<Rightarrow> event \<Rightarrow> 's daemon \<Rightarrow> 's daemon" where
  "process_event sv su ae ev dm =
     (let (allow, dm') = decide_event sv su ae ev dm;
          (r, fan) = respond (sv_fan sv) ev allow (dm_fan dm')
      in dm'\<lparr>dm_fan := fan\<rparr>)"

text \<open>Between two events of a batch, UIs may connect: what \<open>accept\<close> will return grows.\<close>

definition connect_uis :: "(io_kind + socket) list \<Rightarrow> 's daemon \<Rightarrow> 's daemon" where
  "connect_uis news dm =
     dm\<lparr>dm_server := (dm_server dm)\<lparr>us_backlog := us_backlog (dm_server dm) @ news\<rparr>\<rparr>"

text \<open>A batch: for the event at each position, what it finds around it.\<close>

fun process_events ::
    "('g, 's) services \<Rightarrow> params \<Rightarrow> (nat \<Rightarrow> access_env) \<Rightarrow> (nat \<Rightarrow> (io_kind + socket) list) \<Rightarrow>
     event list \<Rightarrow> 's daemon \<Rightarrow> 's daemon" where
  "process_events sv su aes news [] dm = dm"
| "process_events sv su aes news (ev # evs) dm =
     process_events sv su (\<lambda>i. aes (Suc i)) (\<lambda>i. news (Suc i)) evs
       (process_event sv su (aes 0) ev (connect_uis (news 0) dm))"

section \<open>Accesses that never return\<close>

text \<open>
  The write of a prompt has no timeout, so an access can wait for ever for a UI that stopped reading
  (\<open>prompt_stalls\<close>), and with it the batch.
\<close>

definition event_stalls ::
    "('g, 's) services \<Rightarrow> params \<Rightarrow> access_env \<Rightarrow> event \<Rightarrow> 's daemon \<Rightarrow> bool" where
  "event_stalls sv su ae ev dm \<longleftrightarrow>
     \<not> passes_by sv su ae ev dm \<and>
     (let path = event_path (ae_proc ae) ev;
          exe = event_exe (ae_proc ae) ev;
          cwd = event_cwd (ae_proc ae) ev
      in access_outcome sv dm path exe cwd = OutPrompt \<and>
         prompt_stalls (sv_codec sv)
           (access_request su (covering_watch (dm_policy dm) path) (ae_proc ae) ev path exe cwd)
           (dm_ui dm) (dm_server dm))"

fun events_stall ::
    "('g, 's) services \<Rightarrow> params \<Rightarrow> (nat \<Rightarrow> access_env) \<Rightarrow> (nat \<Rightarrow> (io_kind + socket) list) \<Rightarrow>
     event list \<Rightarrow> 's daemon \<Rightarrow> bool" where
  "events_stall sv su aes news [] dm \<longleftrightarrow> False"
| "events_stall sv su aes news (ev # evs) dm \<longleftrightarrow>
     event_stalls sv su (aes 0) ev (connect_uis (news 0) dm) \<or>
     events_stall sv su (\<lambda>i. aes (Suc i)) (\<lambda>i. news (Suc i)) evs
       (process_event sv su (aes 0) ev (connect_uis (news 0) dm))"

section \<open>The verdicts of a batch\<close>

fun verdicts ::
    "('g, 's) services \<Rightarrow> params \<Rightarrow> (nat \<Rightarrow> access_env) \<Rightarrow> (nat \<Rightarrow> (io_kind + socket) list) \<Rightarrow>
     event list \<Rightarrow> 's daemon \<Rightarrow> bool list" where
  "verdicts sv su aes news [] dm = []"
| "verdicts sv su aes news (ev # evs) dm =
     fst (decide_event sv su (aes 0) ev (connect_uis (news 0) dm)) #
     verdicts sv su (\<lambda>i. aes (Suc i)) (\<lambda>i. news (Suc i)) evs
       (process_event sv su (aes 0) ev (connect_uis (news 0) dm))"

section \<open>What an access leaves alone\<close>

lemma remember_fields [simp]:
  "dm_policy (remember sv su ae d c p x w dm) = dm_policy dm"
  "dm_fan (remember sv su ae d c p x w dm) = dm_fan dm"
  "dm_marks (remember sv su ae d c p x w dm) = dm_marks dm"
  "dm_tree (remember sv su ae d c p x w dm) = dm_tree dm"
  "dm_ui (remember sv su ae d c p x w dm) = dm_ui dm"
  "dm_server (remember sv su ae d c p x w dm) = dm_server dm"
  "dm_control (remember sv su ae d c p x w dm) = dm_control dm"
  "dm_reload (remember sv su ae d c p x w dm) = dm_reload dm"
  by (simp_all add: remember_def Let_def split: option.split)

lemma ask_user_eq:
  "ask_user sv su ae ev path exe cwd dm =
     (let pr = prompt_recovering (sv_codec sv)
          (access_request su (covering_watch (dm_policy dm) path) (ae_proc ae) ev path exe cwd)
          (dm_ui dm) (dm_server dm);
          dm' = dm\<lparr>dm_ui := fst (snd pr), dm_server := snd (snd pr)\<rparr>
      in (case fst pr of
            Inr d \<Rightarrow> (decision_allows d,
              remember sv su ae d (covering_watch (dm_policy dm) path) path exe cwd dm')
          | Inl e \<Rightarrow> (False, dm')))"
  by (simp add: ask_user_def Let_def case_prod_beta)

lemma ask_user_fields [simp]:
  "dm_policy (snd (ask_user sv su ae ev path exe cwd dm)) = dm_policy dm"
  "dm_fan (snd (ask_user sv su ae ev path exe cwd dm)) = dm_fan dm"
  "dm_marks (snd (ask_user sv su ae ev path exe cwd dm)) = dm_marks dm"
  "dm_tree (snd (ask_user sv su ae ev path exe cwd dm)) = dm_tree dm"
  "dm_control (snd (ask_user sv su ae ev path exe cwd dm)) = dm_control dm"
  "dm_reload (snd (ask_user sv su ae ev path exe cwd dm)) = dm_reload dm"
  by (simp_all add: ask_user_eq Let_def split: sum.split)

lemma decide_event_fields [simp]:
  "dm_policy (snd (decide_event sv su ae ev dm)) = dm_policy dm"
  "dm_fan (snd (decide_event sv su ae ev dm)) = dm_fan dm"
  "dm_marks (snd (decide_event sv su ae ev dm)) = dm_marks dm"
  "dm_tree (snd (decide_event sv su ae ev dm)) = dm_tree dm"
  "dm_control (snd (decide_event sv su ae ev dm)) = dm_control dm"
  "dm_reload (snd (decide_event sv su ae ev dm)) = dm_reload dm"
  by (simp_all add: decide_event_def Let_def split: outcome.split)

lemma process_event_eq:
  "process_event sv su ae ev dm =
     (snd (decide_event sv su ae ev dm))
       \<lparr>dm_fan := snd (respond (sv_fan sv) ev (fst (decide_event sv su ae ev dm)) (dm_fan dm))\<rparr>"
  by (simp add: process_event_def case_prod_beta)

lemma respond_marks [simp]:
  "fa_marks (snd (respond k ev allow fan)) = fa_marks fan"
  "fa_dropped (snd (respond k ev allow fan)) = fa_dropped fan"
  by (simp_all add: respond_def Let_def split: option.split)

lemma process_event_fields [simp]:
  "dm_policy (process_event sv su ae ev dm) = dm_policy dm"
  "dm_marks (process_event sv su ae ev dm) = dm_marks dm"
  "dm_tree (process_event sv su ae ev dm) = dm_tree dm"
  "dm_control (process_event sv su ae ev dm) = dm_control dm"
  "dm_reload (process_event sv su ae ev dm) = dm_reload dm"
  "fa_marks (dm_fan (process_event sv su ae ev dm)) = fa_marks (dm_fan dm)"
  "fa_dropped (dm_fan (process_event sv su ae ev dm)) = fa_dropped (dm_fan dm)"
  by (simp_all add: process_event_eq)

lemma connect_uis_fields [simp]:
  "dm_policy (connect_uis news dm) = dm_policy dm"
  "dm_rules (connect_uis news dm) = dm_rules dm"
  "dm_fan (connect_uis news dm) = dm_fan dm"
  "dm_marks (connect_uis news dm) = dm_marks dm"
  "dm_tree (connect_uis news dm) = dm_tree dm"
  "dm_ui (connect_uis news dm) = dm_ui dm"
  "dm_control (connect_uis news dm) = dm_control dm"
  "dm_files (connect_uis news dm) = dm_files dm"
  "dm_reload (connect_uis news dm) = dm_reload dm"
  by (simp_all add: connect_uis_def)

lemma process_events_fields [simp]:
  "dm_policy (process_events sv su aes news evs dm) = dm_policy dm"
  "dm_marks (process_events sv su aes news evs dm) = dm_marks dm"
  "dm_tree (process_events sv su aes news evs dm) = dm_tree dm"
  "dm_control (process_events sv su aes news evs dm) = dm_control dm"
  "dm_reload (process_events sv su aes news evs dm) = dm_reload dm"
  "fa_marks (dm_fan (process_events sv su aes news evs dm)) = fa_marks (dm_fan dm)"
  by (induction sv su aes news evs dm rule: process_events.induct) simp_all

section \<open>One answer per event\<close>

lemma process_event_answers:
  assumes "\<And>h b. fk_write (sv_fan sv) h b = None"
  shows "fa_answers (dm_fan (process_event sv su ae ev dm)) =
    fa_answers (dm_fan dm) @ [answer_bytes ev (fst (decide_event sv su ae ev dm))]"
  using assms by (simp add: process_event_eq respond_def Let_def)

lemma process_events_answers:
  assumes "\<And>h b. fk_write (sv_fan sv) h b = None"
  shows "fa_answers (dm_fan (process_events sv su aes news evs dm)) =
    fa_answers (dm_fan dm) @ map2 answer_bytes evs (verdicts sv su aes news evs dm)"
  by (induction evs arbitrary: aes news dm) (simp_all add: process_event_answers [OF assms])

lemma length_verdicts [simp]: "length (verdicts sv su aes news evs dm) = length evs"
  by (induction evs arbitrary: aes news dm) simp_all

lemma answer_bytes_inj:
  "answer_bytes ev a = answer_bytes ev' a' \<longleftrightarrow> ev_fd ev = ev_fd ev' \<and> a = a'"
proof
  assume eq: "answer_bytes ev a = answer_bytes ev' a'"
  let ?r = "\<lambda>a. if a then fan_allow else fan_deny"
  have "le_bytes 4 (unat (ev_fd ev)) = le_bytes 4 (unat (ev_fd ev'))"
    and "le_bytes 4 (unat (?r a)) = le_bytes 4 (unat (?r a'))"
    using eq by (simp_all add: answer_bytes_def)
  then have "unat (ev_fd ev) mod 256 ^ 4 = unat (ev_fd ev') mod 256 ^ 4"
    and "unat (?r a) mod 256 ^ 4 = unat (?r a') mod 256 ^ 4"
    by (metis le_value_bytes)+
  then show "ev_fd ev = ev_fd ev' \<and> a = a'"
    by (cases a; cases a') (auto simp: fan_allow_def fan_deny_def word_unat_eq_iff)
qed (auto simp: answer_bytes_def)

section \<open>Why an access is allowed or denied\<close>

text \<open>
  The decision was read from the UI this access was put to: a UI that was held or waiting before
  is the one held after it; what went out to it is one frame with the request of this access, and
  what was read back from it is one frame that decodes to the decision. Whether the user meant the
  answer for this request is not the daemon's to know: the messages carry no number.
\<close>

definition user_decided ::
    "('g, 's) services \<Rightarrow> params \<Rightarrow> access_env \<Rightarrow> event \<Rightarrow> 's daemon \<Rightarrow> decision \<Rightarrow> bool" where
  "user_decided sv su ae ev dm d \<longleftrightarrow>
     (let path = event_path (ae_proc ae) ev;
          exe = event_exe (ae_proc ae) ev;
          cwd = event_cwd (ae_proc ae) ev;
          req = access_request su (covering_watch (dm_policy dm) path) (ae_proc ae) ev path exe cwd
      in \<exists>link link'. link \<in> candidates (dm_ui dm) (dm_server dm) \<and>
           answered_by (sv_codec sv) req d link link' \<and>
           dm_ui (snd (decide_event sv su ae ev dm)) = Some link')"

abbreviation outcome_of ::
    "('g, 's) services \<Rightarrow> access_env \<Rightarrow> event \<Rightarrow> 's daemon \<Rightarrow> outcome" where
  "outcome_of sv ae ev dm \<equiv>
     access_outcome sv dm (event_path (ae_proc ae) ev) (event_exe (ae_proc ae) ev)
       (event_cwd (ae_proc ae) ev)"

lemma decide_event_cases:
  obtains "passes_by sv su ae ev dm" "decide_event sv su ae ev dm = (True, dm)"
  | "\<not> passes_by sv su ae ev dm" "outcome_of sv ae ev dm = OutAllow"
      "decide_event sv su ae ev dm = (True, dm)"
  | "\<not> passes_by sv su ae ev dm" "outcome_of sv ae ev dm = OutDeny"
      "decide_event sv su ae ev dm = (False, dm)"
  | "\<not> passes_by sv su ae ev dm" "outcome_of sv ae ev dm = OutPrompt"
      "decide_event sv su ae ev dm =
         ask_user sv su ae ev (event_path (ae_proc ae) ev) (event_exe (ae_proc ae) ev)
           (event_cwd (ae_proc ae) ev) dm"
  by (cases "passes_by sv su ae ev dm"; cases "outcome_of sv ae ev dm")
    (simp_all add: decide_event_def Let_def)

lemma ask_user_allow:
  assumes "fst (ask_user sv su ae ev path exe cwd dm)"
  shows "\<exists>d ui' srv'. decision_allows d \<and>
    prompt_recovering (sv_codec sv)
      (access_request su (covering_watch (dm_policy dm) path) (ae_proc ae) ev path exe cwd)
      (dm_ui dm) (dm_server dm) = (Inr d, ui', srv') \<and>
    dm_ui (snd (ask_user sv su ae ev path exe cwd dm)) = ui'"
proof -
  let ?pr = "prompt_recovering (sv_codec sv)
      (access_request su (covering_watch (dm_policy dm) path) (ae_proc ae) ev path exe cwd)
      (dm_ui dm) (dm_server dm)"
  obtain a ui' srv' where pr: "?pr = (a, ui', srv')" by (cases ?pr)
  show ?thesis
    using assms pr by (cases a) (auto simp: ask_user_eq Let_def)
qed

text \<open>
  An access is allowed only when it is out of scope, or the policy and the rules allow it, or
  they leave it to the user and the user allowed it.
\<close>

lemma allow_justified:
  assumes "fst (decide_event sv su ae ev dm)"
  shows "passes_by sv su ae ev dm \<or> outcome_of sv ae ev dm = OutAllow \<or>
    outcome_of sv ae ev dm = OutPrompt \<and> (\<exists>d. decision_allows d \<and> user_decided sv su ae ev dm d)"
proof (rule decide_event_cases [of sv su ae ev dm])
  assume "outcome_of sv ae ev dm = OutPrompt" and
    "decide_event sv su ae ev dm =
         ask_user sv su ae ev (event_path (ae_proc ae) ev) (event_exe (ae_proc ae) ev)
           (event_cwd (ae_proc ae) ev) dm"
  then show ?thesis
    using ask_user_allow [of sv su ae ev "event_path (ae_proc ae) ev" "event_exe (ae_proc ae) ev"
        "event_cwd (ae_proc ae) ev" dm] assms
    by (fastforce simp: user_decided_def Let_def dest: prompt_recovering_answered)
qed (use assms in auto)

text \<open>A matching deny rule settles the access: it is denied and nobody is asked.\<close>

lemma deny_rule_denies:
  assumes "\<not> passes_by sv su ae ev dm" and "r \<in> set (rs_rules (dm_rules dm))"
    and "lr_action r = RuleDeny"
    and "rule_matches r (event_path (ae_proc ae) ev) (event_exe (ae_proc ae) ev)
           (Some (event_cwd (ae_proc ae) ev))"
  shows "decide_event sv su ae ev dm = (False, dm)"
proof -
  have "rules_evaluate (dm_rules dm) (event_path (ae_proc ae) ev) (event_exe (ae_proc ae) ev)
      (Some (event_cwd (ae_proc ae) ev)) = Some RuleDeny"
    using assms(2-4) by (auto simp: rules_evaluate_spec)
  then have "outcome_of sv ae ev dm = OutDeny"
    by (simp add: access_outcome_def combine_iff)
  then show ?thesis
    using assms(1) by (simp add: decide_event_def)
qed

text \<open>Without an answer the access is denied and nothing is learned.\<close>

lemma no_answer_denies:
  assumes "\<not> passes_by sv su ae ev dm" and "outcome_of sv ae ev dm = OutPrompt"
    and "prompt_recovering (sv_codec sv)
      (access_request su (covering_watch (dm_policy dm) (event_path (ae_proc ae) ev)) (ae_proc ae) ev
        (event_path (ae_proc ae) ev) (event_exe (ae_proc ae) ev) (event_cwd (ae_proc ae) ev))
      (dm_ui dm) (dm_server dm) = (Inl e, ui', srv')"
  shows "decide_event sv su ae ev dm = (False, dm\<lparr>dm_ui := ui', dm_server := srv'\<rparr>)"
  using assms by (simp add: decide_event_def Let_def ask_user_eq)

text \<open>While the UIs keep reading, no access waits for ever.\<close>

definition uis_read :: "'s daemon \<Rightarrow> bool" where
  "uis_read dm \<longleftrightarrow> (\<forall>s \<in> candidates (dm_ui dm) (dm_server dm). keeps_reading s)"

lemma uis_read_event:
  assumes "uis_read dm"
  shows "uis_read (process_event sv su ae ev dm)"
proof (rule decide_event_cases [of sv su ae ev dm])
  let ?a = "ask_user sv su ae ev (event_path (ae_proc ae) ev) (event_exe (ae_proc ae) ev)
       (event_cwd (ae_proc ae) ev) dm"
  let ?pr = "prompt_recovering (sv_codec sv)
      (access_request su (covering_watch (dm_policy dm) (event_path (ae_proc ae) ev)) (ae_proc ae) ev
        (event_path (ae_proc ae) ev) (event_exe (ae_proc ae) ev) (event_cwd (ae_proc ae) ev))
      (dm_ui dm) (dm_server dm)"
  assume d: "decide_event sv su ae ev dm = ?a"
  obtain a ui' srv' where pr: "?pr = (a, ui', srv')" by (cases ?pr)
  have "dm_ui (snd ?a) = ui'" "dm_server (snd ?a) = srv'"
    using pr by (simp_all add: ask_user_eq Let_def split: sum.split)
  then show ?thesis
    using assms prompt_recovering_keeps [OF pr] d by (simp add: uis_read_def process_event_eq)
qed (use assms in \<open>simp_all add: process_event_eq uis_read_def\<close>)

lemma uis_read_connect:
  "uis_read dm \<Longrightarrow> \<forall>s. Inr s \<in> set news \<longrightarrow> keeps_reading s \<Longrightarrow> uis_read (connect_uis news dm)"
  by (auto simp: uis_read_def candidates_def connect_uis_def)

lemma event_stalls_stuck: "event_stalls sv su ae ev dm \<Longrightarrow> \<not> uis_read dm"
  by (auto simp: event_stalls_def uis_read_def Let_def dest: prompt_stalls_stuck)

lemma events_stall_stuck:
  "uis_read dm \<Longrightarrow> \<forall>i s. Inr s \<in> set (news i) \<longrightarrow> keeps_reading s \<Longrightarrow> \<not> events_stall sv su aes news evs dm"
proof (induction evs arbitrary: aes news dm)
  case (Cons ev evs)
  have ok: "uis_read (connect_uis (news 0) dm)"
    using Cons.prems by (simp add: uis_read_connect)
  then show ?case
    using Cons.IH [OF uis_read_event [OF ok]] Cons.prems(2) event_stalls_stuck by fastforce
qed simp

section \<open>Learning\<close>

lemma remember_always:
  assumes "always_action d = Some act" and "covering_watch (dm_policy dm) path = Some w"
  shows "dm_rules (remember sv su ae d (covering_watch (dm_policy dm) path) path exe cwd dm) =
    rules_push (watch_learned_rule (ae_clock ae) w act exe path (Some cwd)) (dm_rules dm)"
  using assms by (simp add: remember_def Let_def)

lemma remember_once:
  "always_action d = None \<Longrightarrow> remember sv su ae d c path exe cwd dm = dm"
  by (simp add: remember_def)

lemma remember_uncovered: "remember sv su ae d None path exe cwd dm = dm"
  by (simp add: remember_def split: option.split)

lemma policy_prompt_covered:
  "policy_evaluate api p path exe = OutPrompt \<Longrightarrow> \<exists>w. covering_watch p path = Some w"
  by (auto simp: policy_evaluate_def split: option.splits)

lemma always_action_allows:
  "always_action d = Some act \<Longrightarrow> decision_allows d \<longleftrightarrow> act = RuleAllow"
  by (auto simp: always_action_def decision_allows_def split: decision.splits)

text \<open>Rules are only added while events are handled.\<close>

lemma process_event_rules:
  "set (rs_rules (dm_rules dm)) \<subseteq> set (rs_rules (dm_rules (process_event sv su ae ev dm)))"
  by (auto simp: process_event_eq decide_event_def ask_user_eq remember_def rules_push_simps Let_def
      split: outcome.split sum.split option.split)

lemma process_events_rules:
  "set (rs_rules (dm_rules dm)) \<subseteq> set (rs_rules (dm_rules (process_events sv su aes news evs dm)))"
proof (induction evs arbitrary: aes news dm)
  case (Cons ev evs)
  then show ?case
    using process_event_rules [of "connect_uis (news 0) dm" sv su "aes 0" ev] by fastforce
qed simp

text \<open>An "Always" answer appends the rule for this access, which matches it.\<close>

lemma always_records:
  assumes "\<not> passes_by sv su ae ev dm" and "outcome_of sv ae ev dm = OutPrompt"
    and "prompt_recovering (sv_codec sv)
      (access_request su (covering_watch (dm_policy dm) (event_path (ae_proc ae) ev)) (ae_proc ae) ev
        (event_path (ae_proc ae) ev) (event_exe (ae_proc ae) ev) (event_cwd (ae_proc ae) ev))
      (dm_ui dm) (dm_server dm) = (Inr d, ui', srv')"
    and "always_action d = Some act"
  obtains w where "covering_watch (dm_policy dm) (event_path (ae_proc ae) ev) = Some w"
    "dm_rules (snd (decide_event sv su ae ev dm)) =
       rules_push (watch_learned_rule (ae_clock ae) w act (event_exe (ae_proc ae) ev)
         (event_path (ae_proc ae) ev) (Some (event_cwd (ae_proc ae) ev))) (dm_rules dm)"
    "rule_matches (watch_learned_rule (ae_clock ae) w act (event_exe (ae_proc ae) ev)
         (event_path (ae_proc ae) ev) (Some (event_cwd (ae_proc ae) ev)))
       (event_path (ae_proc ae) ev) (event_exe (ae_proc ae) ev) (Some (event_cwd (ae_proc ae) ev))"
proof -
  have "policy_evaluate (sv_api sv) (dm_policy dm) (event_path (ae_proc ae) ev) (event_exe (ae_proc ae) ev) = OutPrompt"
    using assms(2) by (auto simp: access_outcome_def combine_iff)
  then obtain w where w: "covering_watch (dm_policy dm) (event_path (ae_proc ae) ev) = Some w"
    using policy_prompt_covered by blast
  have "covers w (event_path (ae_proc ae) ev)"
    using covering_watch_Some [OF w] by (simp add: covers_def)
  then show thesis
    by (intro that [OF w] learned_rule_matches)
      (use assms w in \<open>simp_all add: decide_event_def Let_def ask_user_eq remember_def\<close>)
qed

text \<open>
  An "Always" answer settles the same access in every later state with the same policy that kept the
  rules and learned no deny for it.
\<close>

lemma always_settles:
  assumes "\<not> passes_by sv su ae ev dm" and "outcome_of sv ae ev dm = OutPrompt"
    and "prompt_recovering (sv_codec sv)
      (access_request su (covering_watch (dm_policy dm) (event_path (ae_proc ae) ev)) (ae_proc ae) ev
        (event_path (ae_proc ae) ev) (event_exe (ae_proc ae) ev) (event_cwd (ae_proc ae) ev))
      (dm_ui dm) (dm_server dm) = (Inr d, ui', srv')"
    and "always_action d = Some act"
    and "event_path (ae_proc ae2) ev2 = event_path (ae_proc ae) ev"
    and "event_exe (ae_proc ae2) ev2 = event_exe (ae_proc ae) ev"
    and "event_cwd (ae_proc ae2) ev2 = event_cwd (ae_proc ae) ev"
    and "is_open_perm ev2" and "ev_pid ev2 \<noteq> su_own_pid su"
    and "dm_policy dm2 = dm_policy dm"
    and "set (rs_rules (dm_rules (process_event sv su ae ev dm))) \<subseteq> set (rs_rules (dm_rules dm2))"
    and "decision_allows d \<Longrightarrow> \<forall>r \<in> set (rs_rules (dm_rules dm2)).
      rule_matches r (event_path (ae_proc ae) ev) (event_exe (ae_proc ae) ev)
        (Some (event_cwd (ae_proc ae) ev)) \<longrightarrow> lr_action r \<noteq> RuleDeny"
  shows "decide_event sv su ae2 ev2 dm2 = (decision_allows d, dm2)"
proof -
  let ?p = "event_path (ae_proc ae) ev" and ?x = "event_exe (ae_proc ae) ev"
    and ?c = "event_cwd (ae_proc ae) ev"
  have cfg: "policy_evaluate (sv_api sv) (dm_policy dm) ?p ?x = OutPrompt"
    using assms(2) by (auto simp: access_outcome_def combine_iff)
  obtain w where "covering_watch (dm_policy dm) ?p = Some w"
    and "dm_rules (snd (decide_event sv su ae ev dm)) =
       rules_push (watch_learned_rule (ae_clock ae) w act ?x ?p (Some ?c)) (dm_rules dm)"
    and m: "rule_matches (watch_learned_rule (ae_clock ae) w act ?x ?p (Some ?c)) ?p ?x (Some ?c)"
    by (rule always_records [OF assms(1-4)])
  then obtain r where "r \<in> set (rs_rules (dm_rules dm2))" "lr_action r = act" "rule_matches r ?p ?x (Some ?c)"
    using assms(11) m learned_rule_object(3)
    by (fastforce simp: process_event_eq rules_push_simps)
  then have "rules_evaluate (dm_rules dm2) ?p ?x (Some ?c) = Some act"
    using assms(12) always_action_allows [OF assms(4)]
    by (cases act) (auto simp: rules_evaluate_spec)
  then have out: "outcome_of sv ae2 ev2 dm2 = (if act = RuleAllow then OutAllow else OutDeny)"
    using cfg assms(5-7,10) by (cases act) (simp_all add: access_outcome_def)
  have "\<not> passes_by sv su ae2 ev2 dm2"
    using assms(1,5,8-10) by (auto simp: passes_by_def Let_def)
  then show ?thesis
    using out always_action_allows [OF assms(4)] by (simp add: decide_event_def)
qed

text \<open>
  A rule is added only for an "Always" answer to a request that was sent, and the request showed
  what the rule holds.
\<close>

lemma shown_is_recorded:
  assumes "dm_rules (snd (decide_event sv su ae ev dm)) \<noteq> dm_rules dm"
  shows "\<exists>req d act rule link link'. link \<in> candidates (dm_ui dm) (dm_server dm) \<and>
    answered_by (sv_codec sv) req d link link' \<and>
    dm_ui (snd (decide_event sv su ae ev dm)) = Some link' \<and> always_action d = Some act \<and>
    dm_rules (snd (decide_event sv su ae ev dm)) = rules_push rule (dm_rules dm) \<and>
    lr_action rule = act \<and> lr_exe rule = pr_exe req \<and> display (lr_object rule) = pr_always_object req \<and>
    (lr_object_kind rule = KindTree \<longleftrightarrow> pr_always_tree req) \<and>
    lr_cwd rule = (if pr_always_cwd_pinned req then Some (pr_cwd req) else None) \<and>
    pr_path req = display (event_path (ae_proc ae) ev) \<and>
    rule_matches rule (event_path (ae_proc ae) ev) (pr_exe req) (Some (pr_cwd req))"
proof (rule decide_event_cases [of sv su ae ev dm])
  let ?p = "event_path (ae_proc ae) ev" and ?x = "event_exe (ae_proc ae) ev"
    and ?c = "event_cwd (ae_proc ae) ev"
  let ?req = "access_request su (covering_watch (dm_policy dm) ?p) (ae_proc ae) ev ?p ?x ?c"
  assume np: "\<not> passes_by sv su ae ev dm" and out: "outcome_of sv ae ev dm = OutPrompt"
    and ask: "decide_event sv su ae ev dm = ask_user sv su ae ev ?p ?x ?c dm"
  obtain a ui' srv' where pr: "prompt_recovering (sv_codec sv) ?req (dm_ui dm) (dm_server dm) = (a, ui', srv')"
    by (cases "prompt_recovering (sv_codec sv) ?req (dm_ui dm) (dm_server dm)")
  obtain d act where d: "a = Inr d" "always_action d = Some act"
    using assms ask pr
    by (cases a) (auto simp: ask_user_eq remember_def Let_def split: option.splits)
  obtain w where w: "covering_watch (dm_policy dm) ?p = Some w"
    and rs: "dm_rules (snd (decide_event sv su ae ev dm)) =
       rules_push (watch_learned_rule (ae_clock ae) w act ?x ?p (Some ?c)) (dm_rules dm)"
    and m: "rule_matches (watch_learned_rule (ae_clock ae) w act ?x ?p (Some ?c)) ?p ?x (Some ?c)"
    by (rule always_records [OF np out pr [unfolded d(1)] d(2)])
  obtain link link' where l: "link \<in> candidates (dm_ui dm) (dm_server dm)"
    "answered_by (sv_codec sv) ?req d link link'" "ui' = Some link'"
    using prompt_recovering_answered pr d(1) by blast
  have "dm_ui (snd (decide_event sv su ae ev dm)) = ui'"
    using ask pr by (simp add: ask_user_eq Let_def split: sum.split)
  with l d rs m w show ?thesis
    by (intro exI [of _ ?req] exI [of _ d] exI [of _ act] exI [of _ link] exI [of _ link']
        exI [of _ "watch_learned_rule (ae_clock ae) w act ?x ?p (Some ?c)"])
      (simp add: access_request_def always_scope_def case_prod_beta learned_rule_object Let_def)
qed (use assms in auto)

lemma unknown_uncovered: "has_root r \<Longrightarrow> \<not> starts_with ''<unknown>'' r"
proof -
  assume "has_root r"
  then obtain s where r: "r = CHR ''/'' # s"
    by (cases r) (auto simp: has_root_def)
  have "components ''<unknown>'' = [Normal ''<unknown>'']"
    by (rule components_plain) (simp add: plain_name_def)
  then show ?thesis
    by (simp add: starts_with_def r components_root)
qed

section \<open>Properties\<close>

text \<open>
  The setting of the witnesses: a watch on \<open>/w\<close> that prompts, process 77 running \<open>/bin/cat\<close>
  which opens \<open>/w/k\<close> on descriptor 5.
\<close>

definition demo_services :: "(string, unit) services" where
  "demo_services =
     \<lparr>sv_api = demo_globs, sv_codec = demo_codec,
      sv_control = \<lparr>cc_dec_request = (\<lambda>_. Some Dump), cc_enc_dump = (\<lambda>_. Inr [])\<rparr>,
      sv_rules_to_toml = (\<lambda>_. Some ''x''), sv_rules_from_toml = (\<lambda>_. None),
      sv_config_from_toml =
        (\<lambda>t. if t = ''bad'' then None else
         Some \<lparr>rc_default_action = None, rc_prompt_timeout_seconds = None, rc_socket_path = None,
               rc_control_socket_path = None, rc_rules_path = None,
               rc_watch = Some [\<lparr>rw_path = ''/w'', rw_allow = None, rw_exclude = None,
                 rw_learn_object = None, rw_learn_match = None, rw_patterns = None\<rparr>]\<rparr>),
      sv_host = \<lparr>ho_home = None, ho_canonicalize = Inr\<rparr>, sv_fan = demo_fan,
      sv_inotify = \<lparr>ik_init = None, ik_add = (\<lambda>ws p m. Inr (of_nat (length ws)))\<rparr>\<rparr>"

definition demo_params :: params where
  "demo_params = \<lparr>su_rules_path = ''/r.toml'', su_config_path = ''/c.toml'', su_own_pid = 1,
     su_ui_timeout_ms = 25000\<rparr>"

definition demo_proc :: proc_fs where
  "demo_proc = \<lparr>ps_link = (\<lambda>p. if p = ''/proc/self/fd/5'' then Inr ''/w/k''
                              else if p = ''/proc/77/exe'' then Inr ''/bin/cat'' else Inr ''/home''),
                ps_file = (\<lambda>_. Inr ''cat'')\<rparr>"

definition demo_access :: access_env where
  "demo_access = \<lparr>ae_proc = demo_proc, ae_clock = 0, ae_save = demo_save_env\<rparr>"

definition demo_event :: event where
  "demo_event = \<lparr>ev_mask = fan_open_perm, ev_pid = 77, ev_fd = 5, ev_pidfd = Some 6\<rparr>"

definition demo_daemon :: "rules \<Rightarrow> ui_link option \<Rightarrow> unit daemon" where
  "demo_daemon rs ui =
     \<lparr>dm_policy = demo_policy, dm_rules = rs, dm_fan = \<lparr>fa_marks = [], fa_dropped = [], fa_answers = []\<rparr>,
      dm_marks = mark_set_new, dm_tree = \<lparr>tw_inotify = True, tw_wd_map = []\<rparr>, dm_ui = ui,
      dm_server = demo_server [], dm_control = None, dm_files = (\<lambda>_. None), dm_reload = False\<rparr>"

lemma demo_names:
  "event_path demo_proc demo_event = ''/w/k''" "event_exe demo_proc demo_event = ''/bin/cat''"
  "event_cwd demo_proc demo_event = ''/home''"
proof -
  have fd: "''/proc/self/fd/'' @ show_i32 5 = ''/proc/self/fd/5''" by code_simp
  have exe: "''/proc/'' @ show_nat 77 @ ''/exe'' = ''/proc/77/exe''" by code_simp
  have cwd: "''/proc/'' @ show_nat 77 @ ''/cwd'' = ''/proc/77/cwd''" by code_simp
  have asc: "ascii ''/bin/cat''" "ascii ''/home''" by code_simp+
  show "event_path demo_proc demo_event = ''/w/k''"
    by (simp add: event_path_def accessed_path_def demo_event_def demo_proc_def fd [simplified])
  show "event_exe demo_proc demo_event = ''/bin/cat''"
    using display_ascii [OF asc(1)]
    by (simp add: event_exe_def demo_event_def demo_proc_def exe [simplified])
  show "event_cwd demo_proc demo_event = ''/home''"
    using display_ascii [OF asc(2)]
    by (simp add: event_cwd_def proc_cwd_def demo_event_def demo_proc_def cwd [simplified])
qed

lemma demo_cover: "covering_watch demo_policy ''/w/k'' = Some (demo_watch ''/w'' KindFile True)"
proof -
  have "starts_with ''/w/k'' ''/w''" by code_simp
  then show ?thesis
    by (simp add: covering_watch_def demo_policy_def covers_def) (simp add: demo_watch_def)
qed

lemma demo_open: "is_open_perm demo_event" "ev_pid demo_event \<noteq> su_own_pid demo_params"
  by (simp_all add: is_open_perm_def demo_event_def fan_open_perm_def demo_params_def)

lemma demo_not_passed:
  "dm_policy dm = demo_policy \<Longrightarrow> \<not> passes_by demo_services demo_params demo_access demo_event dm"
  using demo_open
  by (simp add: passes_by_def demo_access_def demo_names demo_cover demo_services_def demo_globs_def
      is_excluded_def is_included_def)

lemma demo_prompts:
  assumes "dm_policy dm = demo_policy" and "dm_rules dm = rules_default"
  shows "access_outcome demo_services dm ''/w/k'' ''/bin/cat'' ''/home'' = OutPrompt"
  using assms
  by (simp add: access_outcome_def policy_evaluate_def demo_cover watch_evaluate_def demo_services_def
      demo_globs_def demo_watch_def outcome_of_action_def rules_evaluate_def rules_default_def)

text \<open>
  C1: the daemon allows an access only if it is out of its scope (not an open, its own, excluded or
  matched by no pattern of the covering watch), or the policy and the learned rules allow it, or
  they leave it open and then the request for this access went out, whole and as one frame, to the UI
  that is held afterwards (the one held before, or one that was waiting), and a whole frame read from
  this UI decodes to an allow. The messages carry no number, so the frame may be the late answer to
  an earlier request.
\<close>

theorem access_is_allowed_for_a_reason:
  assumes "fst (decide_event sv su ae ev dm)"
  shows "passes_by sv su ae ev dm \<or> outcome_of sv ae ev dm = OutAllow \<or>
    outcome_of sv ae ev dm = OutPrompt \<and> (\<exists>d. decision_allows d \<and> user_decided sv su ae ev dm d)"
  by (rule allow_justified [OF assms])

theorem access_is_allowed_for_a_reason_witness:
  "\<exists>d. decision_allows d \<and> user_decided demo_services demo_params demo_access demo_event
     (demo_daemon rules_default (Some (demo_link [Data [0, 0, 0, 1, 2]]))) d"
proof -
  let ?dm = "demo_daemon rules_default (Some (demo_link [Data [0, 0, 0, 1, 2]]))"
  have p: "dm_policy ?dm = demo_policy" "dm_rules ?dm = rules_default"
    by (simp_all add: demo_daemon_def)
  have out: "outcome_of demo_services demo_access demo_event ?dm = OutPrompt"
    using demo_prompts [OF p] by (simp add: demo_access_def demo_names)
  have "fst (prompt_recovering demo_codec req (dm_ui ?dm) srv) = Inr AllowAlways" for req srv
    by (simp add: demo_daemon_def prompt_recovering_def ensure_link_def demo_answer)
  then have "fst (decide_event demo_services demo_params demo_access demo_event ?dm)"
    using out demo_not_passed [OF p(1)]
    by (simp add: decide_event_def Let_def ask_user_eq demo_services_def decision_allows_def)
  from access_is_allowed_for_a_reason [OF this] show ?thesis
    using out demo_not_passed [OF p(1)] by simp
qed

text \<open>
  C3: an access in scope that some learned rule denies is denied, whatever the configuration, the
  other rules or the user say: nobody is asked and nothing changes.
\<close>

theorem deny_rule_always_denies:
  assumes "\<not> passes_by sv su ae ev dm" and "r \<in> set (rs_rules (dm_rules dm))"
    and "lr_action r = RuleDeny"
    and "rule_matches r (event_path (ae_proc ae) ev) (event_exe (ae_proc ae) ev)
           (Some (event_cwd (ae_proc ae) ev))"
  shows "decide_event sv su ae ev dm = (False, dm)"
  by (rule deny_rule_denies [OF assms])

theorem deny_rule_always_denies_witness:
  "fst (decide_event demo_services demo_params demo_access demo_event
     (demo_daemon \<lparr>rs_next_id = 3, rs_rules = [demo_rule 1 RuleAllow ''/w/k'' KindFile,
        demo_rule 2 RuleDeny ''/w'' KindTree]\<rparr> None)) = False"
proof -
  let ?dm = "demo_daemon \<lparr>rs_next_id = 3, rs_rules = [demo_rule 1 RuleAllow ''/w/k'' KindFile,
        demo_rule 2 RuleDeny ''/w'' KindTree]\<rparr> None"
  have "starts_with ''/w/k'' ''/w''" by code_simp
  then show ?thesis
    using deny_rule_always_denies [of demo_services demo_params demo_access demo_event ?dm
        "demo_rule 2 RuleDeny ''/w'' KindTree"] demo_not_passed [of ?dm]
    by (simp add: demo_access_def demo_names demo_daemon_def demo_rule_def rule_matches_iff)
qed

text \<open>
  C2: when an access that needs the user gets no answer (no UI, a timeout, a dead link, a malformed
  reply), it is denied, nothing is learned and nothing is written.
\<close>

theorem unanswered_access_is_denied:
  assumes "\<not> passes_by sv su ae ev dm" and "outcome_of sv ae ev dm = OutPrompt"
    and "prompt_recovering (sv_codec sv)
      (access_request su (covering_watch (dm_policy dm) (event_path (ae_proc ae) ev)) (ae_proc ae) ev
        (event_path (ae_proc ae) ev) (event_exe (ae_proc ae) ev) (event_cwd (ae_proc ae) ev))
      (dm_ui dm) (dm_server dm) = (Inl e, ui', srv')"
  shows "decide_event sv su ae ev dm = (False, dm\<lparr>dm_ui := ui', dm_server := srv'\<rparr>)"
  by (rule no_answer_denies [OF assms])

theorem unanswered_access_is_denied_witness:
  "fst (decide_event demo_services demo_params demo_access demo_event (demo_daemon rules_default None)) = False"
proof -
  let ?dm = "demo_daemon rules_default None"
  have p: "dm_policy ?dm = demo_policy" "dm_rules ?dm = rules_default"
    by (simp_all add: demo_daemon_def)
  have "prompt_recovering (sv_codec demo_services) req (dm_ui ?dm) (dm_server ?dm) =
      (Inl NotConnected, None, demo_server [])" for req
    using prompt_recovering_no_ui [of "demo_server []"]
    by (simp add: demo_daemon_def demo_server_def)
  from unanswered_access_is_denied [OF demo_not_passed [OF p(1)] _ this] show ?thesis
    using demo_prompts [OF p] by (simp add: demo_access_def demo_names)
qed



text \<open>
  C29: what the user is shown is what is recorded. Whenever an access adds to the rules, a request
  went out whole to a UI, an "Always" answer was read from this UI, exactly one rule is appended, with
  the action of the answer, and the program, the object (its display form), whether the whole tree
  is meant and the pinned directory of the rule are those the request named for "Always"; the
  request is about the file of this access, and the rule matches this access.
\<close>

theorem dialog_shows_what_is_recorded:
  assumes "dm_rules (snd (decide_event sv su ae ev dm)) \<noteq> dm_rules dm"
  shows "\<exists>req d act rule link link'. link \<in> candidates (dm_ui dm) (dm_server dm) \<and>
    answered_by (sv_codec sv) req d link link' \<and>
    dm_ui (snd (decide_event sv su ae ev dm)) = Some link' \<and> always_action d = Some act \<and>
    dm_rules (snd (decide_event sv su ae ev dm)) = rules_push rule (dm_rules dm) \<and>
    lr_action rule = act \<and> lr_exe rule = pr_exe req \<and> display (lr_object rule) = pr_always_object req \<and>
    (lr_object_kind rule = KindTree \<longleftrightarrow> pr_always_tree req) \<and>
    lr_cwd rule = (if pr_always_cwd_pinned req then Some (pr_cwd req) else None) \<and>
    pr_path req = display (event_path (ae_proc ae) ev) \<and>
    rule_matches rule (event_path (ae_proc ae) ev) (pr_exe req) (Some (pr_cwd req))"
  by (rule shown_is_recorded [OF assms])

theorem dialog_shows_what_is_recorded_witness:
  "let dm = demo_daemon rules_default (Some (demo_link [Data [0, 0, 0, 1, 2]]))
   in \<exists>(req :: prompt_request) rule link'. dm_ui (snd (decide_event demo_services demo_params demo_access demo_event dm)) = Some link' \<and>
     dm_rules (snd (decide_event demo_services demo_params demo_access demo_event dm)) = rules_push rule rules_default \<and>
     display (lr_object rule) = pr_always_object req \<and> pr_path req = display ''/w/k''"
proof -
  let ?dm = "demo_daemon rules_default (Some (demo_link [Data [0, 0, 0, 1, 2]]))"
  have p: "dm_policy ?dm = demo_policy" "dm_rules ?dm = rules_default"
    by (simp_all add: demo_daemon_def)
  have out: "outcome_of demo_services demo_access demo_event ?dm = OutPrompt"
    using demo_prompts [OF p] by (simp add: demo_access_def demo_names)
  have ans: "prompt_recovering (sv_codec demo_services) req (dm_ui ?dm) (dm_server ?dm) =
      (Inr AllowAlways, Some \<lparr>sk_in = [], sk_out = [0, 0, 0, 1, 1], sk_room = None\<rparr>, demo_server [])" for req
    by (simp add: demo_daemon_def prompt_recovering_def ensure_link_def demo_answer demo_services_def)
  have "always_action AllowAlways = Some RuleAllow" by (simp add: always_action_def)
  from always_records [OF demo_not_passed [OF p(1)] out ans this] obtain rule where
    "dm_rules (snd (decide_event demo_services demo_params demo_access demo_event ?dm)) = rules_push rule (dm_rules ?dm)"
    by blast
  then have "rs_rules (dm_rules (snd (decide_event demo_services demo_params demo_access demo_event ?dm))) \<noteq> []"
    by (simp add: rules_push_simps)
  then have "dm_rules (snd (decide_event demo_services demo_params demo_access demo_event ?dm)) \<noteq> dm_rules ?dm"
    unfolding p by (auto simp: rules_default_def)
  from dialog_shows_what_is_recorded [OF this] obtain req :: prompt_request and rule link' where
    "dm_ui (snd (decide_event demo_services demo_params demo_access demo_event ?dm)) = Some link'"
    "dm_rules (snd (decide_event demo_services demo_params demo_access demo_event ?dm)) = rules_push rule (dm_rules ?dm)"
    "display (lr_object rule) = pr_always_object req"
    "pr_path req = display (event_path (ae_proc demo_access) demo_event)"
    by blast
  then show ?thesis
    unfolding Let_def p
    by (intro exI [of _ req] exI [of _ rule] exI [of _ link']) (simp add: demo_access_def demo_names)
qed

text \<open>
  A batch of events is answered completely and in order: one answer per event, on its own
  descriptor, with the verdict reached on it, when the kernel takes the answers.
\<close>

theorem batch_is_answered_in_order:
  assumes "\<And>h b. fk_write (sv_fan sv) h b = None"
  shows "fa_answers (dm_fan (process_events sv su aes news evs dm)) =
      fa_answers (dm_fan dm) @ map2 answer_bytes evs (verdicts sv su aes news evs dm) \<and>
    length (verdicts sv su aes news evs dm) = length evs"
  using process_events_answers [OF assms] by simp

theorem batch_is_answered_in_order_witness:
  "length (fa_answers (dm_fan (process_events demo_services demo_params (\<lambda>_. demo_access) (\<lambda>_. [])
     [demo_event, demo_event] (demo_daemon rules_default None)))) = 2"
proof -
  have "fk_write (sv_fan demo_services) h b = None" for h b
    by (simp add: demo_services_def demo_fan_def)
  from batch_is_answered_in_order [OF this, of demo_params "\<lambda>_. demo_access" "\<lambda>_. []"
      "[demo_event, demo_event]" "demo_daemon rules_default None"]
  show ?thesis by (simp add: demo_daemon_def)
qed

text \<open>
  C39: an access whose path cannot be resolved is judged as the relative path \<open><unknown>\<close>, which no
  watch with an absolute root covers: unless a learned rule denies that name, it is allowed without
  asking.
\<close>

theorem unresolvable_access_is_allowed:
  assumes "ps_link (ae_proc ae) (''/proc/self/fd/'' @ show_i32 (ev_fd ev)) = Inl e"
    and "\<forall>w \<in> set (po_watches (dm_policy dm)). has_root (wp_root w)"
    and "rules_evaluate (dm_rules dm) ''<unknown>'' (event_exe (ae_proc ae) ev)
           (Some (event_cwd (ae_proc ae) ev)) \<noteq> Some RuleDeny"
  shows "decide_event sv su ae ev dm = (True, dm)"
proof -
  have path: "event_path (ae_proc ae) ev = ''<unknown>''"
    using assms(1) by (simp add: event_path_def accessed_path_def)
  have "covering_watch (dm_policy dm) ''<unknown>'' = None"
    using assms(2) unknown_uncovered by (auto simp: covering_watch_None)
  then have "outcome_of sv ae ev dm = OutAllow"
    using assms(3) by (simp add: path access_outcome_def policy_evaluate_def combine_iff)
  then show ?thesis
    by (simp add: decide_event_def)
qed

theorem unresolvable_access_is_allowed_witness:
  "decide_event demo_services demo_params
     (demo_access\<lparr>ae_proc := \<lparr>ps_link = (\<lambda>_. Inl NotFound), ps_file = (\<lambda>_. Inl NotFound)\<rparr>\<rparr>) demo_event
     (demo_daemon rules_default None) = (True, demo_daemon rules_default None)"
  by (rule unresolvable_access_is_allowed [where e = NotFound])
    (simp_all add: demo_daemon_def demo_policy_def demo_watch_def has_root_def rules_evaluate_def
      rules_default_def)

text \<open>
  Programs are told apart by the display form of their path, which is lossy: two programs whose
  names differ only in bytes that are not UTF-8 are the same program to every rule and allow list.
\<close>

theorem distinct_programs_can_look_the_same:
  "event_exe \<lparr>ps_link = (\<lambda>_. Inr (''/opt/'' @ [CHR 0xFF])), ps_file = f\<rparr> ev =
   event_exe \<lparr>ps_link = (\<lambda>_. Inr (''/opt/'' @ [CHR 0xFE])), ps_file = f\<rparr> ev"
proof -
  have "display (''/opt/'' @ [CHR 0xFF]) = display (''/opt/'' @ [CHR 0xFE])"
    by code_simp
  then show ?thesis by (simp add: event_exe_def)
qed

end
