(* ===== verification/FW_Loop.thy ===== *)
theory FW_Loop
  imports FW_Daemon
begin

text \<open>
  The daemon's startup, its reload and one iteration of its event loop (\<open>run\<close> and \<open>event_loop\<close> of
  \<open>filewalld/src/main.rs\<close>), the states it can reach, and their invariant.
\<close>

section \<open>Startup\<close>

definition default_config :: path where "default_config = ''/etc/filewall/config.toml''"
definition pidfile_path :: path where "pidfile_path = ''/run/filewall/filewalld.pid''"
definition ui_timeout_margin_ms :: nat where "ui_timeout_margin_ms = 5000"

text \<open>\<open>saturating_mul\<close>, \<open>saturating_sub\<close> and \<open>clamp\<close> on \<open>u64\<close>.\<close>

definition sat_mul :: "u64 \<Rightarrow> nat \<Rightarrow> nat" where
  "sat_mul a b = min (unat a * b) (2 ^ 64 - 1)"

definition sat_sub :: "nat \<Rightarrow> nat \<Rightarrow> nat" where
  "sat_sub a b = (if b \<le> a then a - b else 0)"

definition ui_timeout_ms :: "u64 \<Rightarrow> u32" where
  "ui_timeout_ms prompt_timeout_seconds =
     of_nat (min (max (sat_sub (sat_mul prompt_timeout_seconds 1000) ui_timeout_margin_ms) 2000)
              (2 ^ 32 - 1))"

definition write_pidfile ::
    "io_kind option \<Rightarrow> write_outcome \<Rightarrow> path \<Rightarrow> u32 \<Rightarrow> file_map \<Rightarrow> unit io_result \<times> file_map list" where
  "write_pidfile mkdir w path pid fm =
     (case (if parent path = None then None else mkdir) of
        Some e \<Rightarrow> (Inl e, [])
      | None \<Rightarrow> fs_write w path (show_nat (unat pid) @ newline) fm)"

datatype daemon_exit =
    ExitConfig config_error
  | ExitInit io_kind
  | ExitBind io_kind
  | ExitIo io_kind
  | ExitFault parse_fault

record start_env =
  te_args :: "string list"
  te_pid :: u32
  te_files :: file_map
  te_fan_init :: "u32 \<Rightarrow> u32 \<Rightarrow> io_kind option"
  te_pid_mkdir :: "io_kind option"
  te_pid_write :: write_outcome
  te_ui_bind :: bind_env
  te_control_bind :: bind_env
  te_fs :: fs_view

definition config_path_of :: "string list \<Rightarrow> path" where
  "config_path_of args = (case drop 1 args of [] \<Rightarrow> default_config | a # _ \<Rightarrow> a)"

definition startup ::
    "('g, 's) services \<Rightarrow> start_env \<Rightarrow> (daemon_exit + params \<times> 's daemon) option" where
  "startup sv te =
     (let config_path = config_path_of (te_args te)
      in (case config_load (sv_config_from_toml sv) (te_files te) config_path of
            Inl e \<Rightarrow> Some (Inl (ExitConfig e))
          | Inr cfg \<Rightarrow>
          (case build_policy (sv_api sv) (sv_host sv) cfg of
            Inl e \<Rightarrow> Some (Inl (ExitConfig e))
          | Inr policy \<Rightarrow>
          (let timeout = cf_prompt_timeout_seconds cfg;
               rules_path = cf_rules_path cfg;
               rules = rules_load (sv_rules_from_toml sv) (te_files te) rules_path
           in (case fan_init (te_fan_init te) of
                 Inl e \<Rightarrow> Some (Inl (ExitInit e))
               | Inr fan0 \<Rightarrow>
               (let files = after_save (write_pidfile (te_pid_mkdir te) (te_pid_write te)
                                          pidfile_path (te_pid te) (te_files te)) (te_files te)
                in (case ui_bind (te_ui_bind te) (cf_socket_path cfg) timeout of
                      Inl e \<Rightarrow> Some (Inl (ExitBind e))
                    | Inr server \<Rightarrow>
                    (let control = (case control_bind (te_control_bind te) (cf_control_socket_path cfg) of
                                      Inl _ \<Rightarrow> None | Inr c \<Rightarrow> Some c)
                     in (case mark_all (sv_fan sv) (te_fs te) (sv_api sv) policy
                                (fan0, mark_set_new) of
                           None \<Rightarrow> None
                         | Some (marked, fan, marks) \<Rightarrow>
                         (case tree_build (sv_inotify sv) (te_fs te) (sv_api sv) policy of
                            None \<Rightarrow> None
                          | Some treewatch \<Rightarrow>
                              Some (Inr
                                (\<lparr>su_rules_path = rules_path, su_config_path = config_path,
                                  su_own_pid = te_pid te, su_ui_timeout_ms = ui_timeout_ms timeout\<rparr>,
                                 \<lparr>dm_policy = policy, dm_rules = rules, dm_fan = fan, dm_marks = marks,
                                  dm_tree = treewatch, dm_ui = None, dm_server = server,
                                  dm_control = control, dm_files = files,
                                  dm_reload = False\<rparr>))))))))))))"

section \<open>Reloading\<close>

definition reload ::
    "('g, 's) services \<Rightarrow> params \<Rightarrow> fs_view \<Rightarrow> 's daemon \<Rightarrow> 's daemon option" where
  "reload sv su fs dm =
     (case config_load (sv_config_from_toml sv) (dm_files dm) (su_config_path su) of
        Inl e \<Rightarrow> Some dm
      | Inr new_cfg \<Rightarrow>
          (case build_policy (sv_api sv) (sv_host sv) new_cfg of
             Inl e \<Rightarrow> Some dm
           | Inr new_policy \<Rightarrow>
               (let rules = rules_load (sv_rules_from_toml sv) (dm_files dm) (su_rules_path su)
                in (case mark_all (sv_fan sv) fs (sv_api sv) new_policy (dm_fan dm, dm_marks dm) of
                      None \<Rightarrow> None
                    | Some (n, fan, marks) \<Rightarrow>
                        (case tree_build (sv_inotify sv) fs (sv_api sv) new_policy of
                           None \<Rightarrow> None
                         | Some treewatch \<Rightarrow>
                             Some (dm\<lparr>dm_policy := new_policy, dm_rules := rules, dm_fan := fan,
                                      dm_marks := marks, dm_tree := treewatch\<rparr>))))))"

section \<open>One iteration\<close>

datatype poll_result = PollFailed io_kind | PollTimeout | PollReady bool bool bool

text \<open>
  What an iteration meets: the result of \<open>poll\<close>, what the three descriptors have to offer, what
  other processes did to the disk, the marks the kernel has dropped since, the clients and UIs that
  connected, a reload raised by the watcher thread or a signal, and the surroundings of each event.
\<close>

record iter =
  it_poll :: poll_result
  it_edit :: "file_map \<Rightarrow> file_map"
  it_gone :: "path \<times> u64 \<Rightarrow> bool"
  it_raise :: bool
  it_inotify :: "inotify_event list io_result"
  it_fs :: fs_view
  it_clients :: "(io_kind + socket) list"
  it_clock :: int
  it_read :: "bytes io_result"
  it_fs_reload :: fs_view
  it_access :: "nat \<Rightarrow> access_env"
  it_uis :: "nat \<Rightarrow> (io_kind + socket) list"

definition live_mark ::
    "('g, 's) services \<Rightarrow> iter \<Rightarrow> 's daemon \<Rightarrow> 's daemon option" where
  "live_mark sv it dm =
     (case on_ready (sv_inotify sv) (sv_fan sv) (it_fs it) (sv_api sv) (dm_policy dm) (it_inotify it)
             \<lparr>tc_tree = dm_tree dm, tc_fan = dm_fan dm, tc_marks = dm_marks dm,
              tc_reload = dm_reload dm\<rparr> of
        None \<Rightarrow> None
      | Some tc \<Rightarrow> Some (dm\<lparr>dm_tree := tc_tree tc, dm_fan := tc_fan tc, dm_marks := tc_marks tc,
                           dm_reload := tc_reload tc\<rparr>))"

definition dump_of :: "params \<Rightarrow> int \<Rightarrow> 's daemon \<Rightarrow> dump_response" where
  "dump_of su clock dm =
     \<lparr>dr_pid = su_own_pid su, dr_generated_unix = now_unix clock,
      dr_objects = build_dump (dm_marks dm) (is_watching (dm_tree dm))\<rparr>"

definition answer_control :: "('g, 's) services \<Rightarrow> params \<Rightarrow> iter \<Rightarrow> 's daemon \<Rightarrow> 's daemon" where
  "answer_control sv su it dm =
     (case dm_control dm of
        None \<Rightarrow> dm
      | Some ctl \<Rightarrow>
          dm\<lparr>dm_control := Some (snd (handle_ready (sv_control sv)
               (\<lambda>_. dump_of su (it_clock it) dm)
               (ctl\<lparr>cs_backlog := cs_backlog ctl @ it_clients it\<rparr>)))\<rparr>)"

definition gather ::
    "('g, 's) services \<Rightarrow> params \<Rightarrow> iter \<Rightarrow> 's daemon \<Rightarrow>
     (daemon_exit + event list \<times> 's daemon) option" where
  "gather sv su it dm =
     (case it_poll it of
        PollFailed e \<Rightarrow> if e = Interrupted then Some (Inr ([], dm)) else Some (Inl (ExitIo e))
      | PollTimeout \<Rightarrow> Some (Inr ([], dm))
      | PollReady fan_in tree_in control_in \<Rightarrow>
          (case (if tree_in then live_mark sv it dm else Some dm) of
             None \<Rightarrow> None
           | Some dm1 \<Rightarrow>
               (let dm2 = (if control_in then answer_control sv su it dm1 else dm1)
                in if \<not> fan_in then Some (Inr ([], dm2))
                   else (case read_ready (it_read it) of
                           Inl e \<Rightarrow> Some (Inl (ExitIo e))
                         | Inr (Inl f) \<Rightarrow> Some (Inl (ExitFault f))
                         | Inr (Inr evs) \<Rightarrow> Some (Inr (evs, dm2))))))"

text \<open>What happened outside since the last iteration.\<close>

definition meanwhile :: "iter \<Rightarrow> 's daemon \<Rightarrow> 's daemon" where
  "meanwhile it dm =
     dm\<lparr>dm_files := it_edit it (dm_files dm), dm_fan := kernel_drops (it_gone it) (dm_fan dm)\<rparr>"

lemma meanwhile_fields [simp]:
  "dm_policy (meanwhile it dm) = dm_policy dm"
  "dm_rules (meanwhile it dm) = dm_rules dm"
  "dm_fan (meanwhile it dm) = kernel_drops (it_gone it) (dm_fan dm)"
  "dm_marks (meanwhile it dm) = dm_marks dm"
  "dm_tree (meanwhile it dm) = dm_tree dm"
  "dm_ui (meanwhile it dm) = dm_ui dm"
  "dm_server (meanwhile it dm) = dm_server dm"
  "dm_control (meanwhile it dm) = dm_control dm"
  "dm_files (meanwhile it dm) = it_edit it (dm_files dm)"
  "dm_reload (meanwhile it dm) = dm_reload dm"
  by (simp_all add: meanwhile_def)

text \<open>
  The record does not learn of a mark the kernel has dropped: the next dump is the same, whatever is
  gone.
\<close>

lemma dropped_mark_stays_reported:
  assumes "it_gone it = (\<lambda>_. True)"
  shows "fa_marks (dm_fan (meanwhile it dm)) = [] \<and>
    dump_of su clock (meanwhile it dm) = dump_of su clock dm"
  using assms by (simp add: dump_of_def kernel_drops_def)

text \<open>An iteration does not return when a walk does not, or when a prompt of the batch stalls.\<close>

definition iteration ::
    "('g, 's) services \<Rightarrow> params \<Rightarrow> iter \<Rightarrow> 's daemon \<Rightarrow> (daemon_exit + 's daemon) option" where
  "iteration sv su it dm =
     (case gather sv su it (meanwhile it dm) of
        None \<Rightarrow> None
      | Some (Inl e) \<Rightarrow> Some (Inl e)
      | Some (Inr (events, dm1)) \<Rightarrow>
          (let raised = dm_reload dm1 \<or> it_raise it;
               dm2 = dm1\<lparr>dm_reload := False\<rparr>
           in (case (if raised then reload sv su (it_fs_reload it) dm2 else Some dm2) of
                 None \<Rightarrow> None
               | Some dm3 \<Rightarrow>
                   if events_stall sv su (it_access it) (it_uis it) events dm3 then None
                   else Some (Inr (process_events sv su (it_access it) (it_uis it) events dm3)))))"

section \<open>Reachable states\<close>

text \<open>
  What the kernel answers and how paths resolve may change from one iteration to the next; the
  libraries, and what the daemon was started with, do not.
\<close>

definition world ::
    "('g, 's) services \<Rightarrow> host \<Rightarrow> fan_kernel \<Rightarrow> inotify_kernel \<Rightarrow> ('g, 's) services" where
  "world sv ho k ik = sv\<lparr>sv_host := ho, sv_fan := k, sv_inotify := ik\<rparr>"

lemma world_same [simp]: "world sv (sv_host sv) (sv_fan sv) (sv_inotify sv) = sv"
  by (simp add: world_def)

inductive daemon_reach :: "('g, 's) services \<Rightarrow> params \<Rightarrow> 's daemon \<Rightarrow> bool"
  for sv :: "('g, 's) services" and su :: params where
  reach_start: "startup sv te = Some (Inr (su, dm)) \<Longrightarrow> daemon_reach sv su dm"
| reach_step:
    "daemon_reach sv su dm \<Longrightarrow> iteration (world sv ho k ik) su it dm = Some (Inr dm') \<Longrightarrow>
     daemon_reach sv su dm'"

inductive_cases daemon_reachE: "daemon_reach sv su dm"

definition daemon_ok :: "('g, 's) services \<Rightarrow> 's daemon \<Rightarrow> bool" where
  "daemon_ok sv dm \<longleftrightarrow>
     marks_accounted (dm_fan dm, dm_marks dm) \<and> tree_ok (dm_tree dm) \<and>
     (\<exists>cfg ho. build_policy (sv_api sv) ho cfg = Inr (dm_policy dm))"

lemma daemon_ok_world [simp]: "daemon_ok (world sv ho k ik) dm = daemon_ok sv dm"
  by (simp add: daemon_ok_def world_def)

section \<open>The invariant\<close>

lemma daemon_ok_access:
  "daemon_ok sv (process_event sv su ae ev dm) = daemon_ok sv dm"
  "daemon_ok sv (connect_uis news dm) = daemon_ok sv dm"
  by (simp_all add: daemon_ok_def backed_but_def)

text \<open>One access as a step: what it finds around it, the UIs that connected before it, the event.\<close>

definition access_step ::
    "('g, 's) services \<Rightarrow> params \<Rightarrow> 's daemon \<Rightarrow> access_env \<times> (io_kind + socket) list \<times> event \<Rightarrow>
     's daemon" where
  "access_step sv su dm a =
     process_event sv su (fst a) (snd (snd a)) (connect_uis (fst (snd a)) dm)"

interpretation accesses: machine "access_step sv su" "daemon_ok sv"
  for sv :: "('g, 's) services" and su :: params
  by unfold_locales (simp add: access_step_def daemon_ok_access)

lemma process_events_run:
  "process_events sv su aes news evs dm =
     foldl (access_step sv su) dm (map (\<lambda>i. (aes i, news i, evs ! i)) [0..<length evs])"
proof (induction evs arbitrary: aes news dm)
  case Nil
  then show ?case by simp
next
  case (Cons ev evs)
  have "[0..<length (ev # evs)] = 0 # map Suc [0..<length evs]"
    by (simp add: upt_conv_Cons map_Suc_upt del: upt_Suc)
  then show ?case
    by (simp add: Cons.IH access_step_def comp_def del: upt_Suc)
qed

lemma daemon_ok_events:
  "daemon_ok sv dm \<Longrightarrow> daemon_ok sv (process_events sv su aes news evs dm)"
  unfolding process_events_run by (rule accesses.inv_run)

lemma daemon_ok_live_mark:
  assumes "live_mark sv it dm = Some dm'" and "daemon_ok sv dm"
  shows "daemon_ok sv dm'"
proof -
  obtain tc where tc: "on_ready (sv_inotify sv) (sv_fan sv) (it_fs it) (sv_api sv) (dm_policy dm) (it_inotify it)
       \<lparr>tc_tree = dm_tree dm, tc_fan = dm_fan dm, tc_marks = dm_marks dm, tc_reload = dm_reload dm\<rparr> = Some tc"
    and dm': "dm' = dm\<lparr>dm_tree := tc_tree tc, dm_fan := tc_fan tc, dm_marks := tc_marks tc,
                           dm_reload := tc_reload tc\<rparr>"
    using assms(1) by (auto simp: live_mark_def split: option.splits)
  have "tree_ctx_but (set (fa_dropped (dm_fan dm))) tc"
    using assms(2) by (intro on_ready_ok [OF tc]) (simp add: tree_ctx_but_def daemon_ok_def)
  moreover have "fa_dropped (tc_fan tc) = fa_dropped (dm_fan dm)"
    using on_ready_answers [OF tc] by simp
  ultimately show ?thesis
    using assms(2) by (simp add: dm' daemon_ok_def tree_ctx_but_def)
qed

lemma answer_control_fields [simp]:
  "dm_policy (answer_control sv su it dm) = dm_policy dm"
  "dm_rules (answer_control sv su it dm) = dm_rules dm"
  "dm_fan (answer_control sv su it dm) = dm_fan dm"
  "dm_marks (answer_control sv su it dm) = dm_marks dm"
  "dm_tree (answer_control sv su it dm) = dm_tree dm"
  "dm_ui (answer_control sv su it dm) = dm_ui dm"
  "dm_server (answer_control sv su it dm) = dm_server dm"
  "dm_files (answer_control sv su it dm) = dm_files dm"
  "dm_reload (answer_control sv su it dm) = dm_reload dm"
  by (simp_all add: answer_control_def split: option.split)

lemma daemon_ok_gather:
  "gather sv su it dm = Some (Inr (evs, dm')) \<Longrightarrow> daemon_ok sv dm \<Longrightarrow> daemon_ok sv dm'"
proof (cases "it_poll it")
  case (PollReady f t c)
  assume g: "gather sv su it dm = Some (Inr (evs, dm'))" and ok: "daemon_ok sv dm"
  obtain dm1 where dm1: "(if t then live_mark sv it dm else Some dm) = Some dm1"
    and dm': "dm' = (if c then answer_control sv su it dm1 else dm1)"
    using g PollReady
    by (cases "if t then live_mark sv it dm else Some dm")
      (auto simp: gather_def Let_def split: if_splits sum.splits)
  have "daemon_ok sv dm1"
    using dm1 ok daemon_ok_live_mark [of sv it dm dm1] by (auto split: if_splits)
  then show "daemon_ok sv dm'"
    by (simp add: dm' daemon_ok_def)
qed (auto simp: gather_def split: if_splits)

lemma daemon_ok_reload:
  assumes "reload sv su fs dm = Some dm'" and "daemon_ok sv dm"
  shows "daemon_ok sv dm'"
proof (cases "config_load (sv_config_from_toml sv) (dm_files dm) (su_config_path su)")
  case (Inl e)
  then show ?thesis using assms by (simp add: reload_def)
next
  case cfg: (Inr cfg)
  show ?thesis
  proof (cases "build_policy (sv_api sv) (sv_host sv) cfg")
    case (Inl e)
    then show ?thesis using assms cfg by (simp add: reload_def)
  next
    case (Inr p)
    obtain n fan marks tw where
      m: "mark_all (sv_fan sv) fs (sv_api sv) p (dm_fan dm, dm_marks dm) = Some (n, fan, marks)"
      and t: "tree_build (sv_inotify sv) fs (sv_api sv) p = Some tw"
      and dm': "dm_policy dm' = p" "dm_fan dm' = fan" "dm_marks dm' = marks" "dm_tree dm' = tw"
      using assms(1) cfg Inr by (auto simp: reload_def Let_def split: option.splits prod.splits)
    show ?thesis
      using mark_all_backed(1) [OF m, of "set (fa_dropped fan)"] tree_build_ok [OF t] Inr dm'
      by (auto simp: daemon_ok_def)
  qed
qed

lemma daemon_ok_iteration:
  assumes "iteration sv su it dm = Some (Inr dm')" and "daemon_ok sv dm"
  shows "daemon_ok sv dm'"
proof -
  obtain events dm1 dm3 where
    g: "gather sv su it (meanwhile it dm) = Some (Inr (events, dm1))"
    and r: "(if dm_reload dm1 \<or> it_raise it
             then reload sv su (it_fs_reload it) (dm1\<lparr>dm_reload := False\<rparr>)
             else Some (dm1\<lparr>dm_reload := False\<rparr>)) = Some dm3"
    and dm': "dm' = process_events sv su (it_access it) (it_uis it) events dm3"
    using assms(1)
    by (auto simp: iteration_def Let_def split: option.split_asm sum.split_asm prod.split_asm if_split_asm)
  have "daemon_ok sv (meanwhile it dm)"
    using assms(2) kernel_drops_accounted by (simp add: daemon_ok_def)
  then have ok1: "daemon_ok sv dm1"
    by (rule daemon_ok_gather [OF g])
  then have "daemon_ok sv (dm1\<lparr>dm_reload := False\<rparr>)"
    by (simp add: daemon_ok_def)
  then have "daemon_ok sv dm3"
    using r daemon_ok_reload by (auto split: if_splits)
  then show ?thesis
    unfolding dm' by (rule daemon_ok_events)
qed

lemma startup_shape:
  assumes "startup sv te = Some (Inr (su, dm))"
  shows "\<exists>cfg p n fan marks.
    config_load (sv_config_from_toml sv) (te_files te) (config_path_of (te_args te)) = Inr cfg \<and>
    build_policy (sv_api sv) (sv_host sv) cfg = Inr p \<and>
    mark_all (sv_fan sv) (te_fs te) (sv_api sv) p
      (\<lparr>fa_marks = [], fa_dropped = [], fa_answers = []\<rparr>, mark_set_new) = Some (n, fan, marks) \<and>
    tree_build (sv_inotify sv) (te_fs te) (sv_api sv) p = Some (dm_tree dm) \<and>
    dm_policy dm = p \<and> dm_fan dm = fan \<and> dm_marks dm = marks \<and> dm_ui dm = None \<and>
    dm_rules dm = rules_load (sv_rules_from_toml sv) (te_files te) (cf_rules_path cfg) \<and>
    su_own_pid su = te_pid te \<and> su_rules_path su = cf_rules_path cfg \<and>
    su_ui_timeout_ms su = ui_timeout_ms (cf_prompt_timeout_seconds cfg)"
  using assms
  by (auto simp: startup_def Let_def dest!: fan_init_empty
      split: sum.split_asm option.split_asm prod.split_asm)

lemma daemon_ok_startup:
  assumes "startup sv te = Some (Inr (su, dm))"
  shows "daemon_ok sv dm"
proof -
  obtain cfg p n where "build_policy (sv_api sv) (sv_host sv) cfg = Inr p" "dm_policy dm = p"
    and m: "mark_all (sv_fan sv) (te_fs te) (sv_api sv) p
      (\<lparr>fa_marks = [], fa_dropped = [], fa_answers = []\<rparr>, mark_set_new) = Some (n, dm_fan dm, dm_marks dm)"
    and t: "tree_build (sv_inotify sv) (te_fs te) (sv_api sv) p = Some (dm_tree dm)"
    using startup_shape [OF assms] by blast
  then show ?thesis
    using mark_all_backed(1) [OF m, of "set (fa_dropped (dm_fan dm))"] tree_build_ok [OF t]
    by (auto simp: daemon_ok_def)
qed

lemma daemon_reach_ok: "daemon_reach sv su dm \<Longrightarrow> daemon_ok sv dm"
proof (induction rule: daemon_reach.induct)
  case (reach_start te dm)
  then show ?case by (rule daemon_ok_startup)
next
  case (reach_step dm it dm')
  then show ?case using daemon_ok_iteration [of "world sv ho k ik" for ho k ik] by fastforce
qed

lemma daemon_reach_params:
  "daemon_reach sv su dm \<Longrightarrow> \<exists>cfg :: config. su_ui_timeout_ms su = ui_timeout_ms (cf_prompt_timeout_seconds cfg)"
proof (induction rule: daemon_reach.induct)
  case (reach_start te dm)
  then show ?case using startup_shape by metis
qed

section \<open>Timeouts\<close>

lemma ui_timeout_value:
  "unat (ui_timeout_ms s) =
     min (max (min (unat s * 1000) (2 ^ 64 - 1) - 5000) 2000) (2 ^ 32 - 1)"
proof -
  let ?v = "min (max (min (unat s * 1000) (2 ^ 64 - 1) - 5000) 2000) (2 ^ 32 - 1) :: nat"
  have "ui_timeout_ms s = of_nat ?v"
    by (simp add: ui_timeout_ms_def sat_sub_def sat_mul_def ui_timeout_margin_ms_def)
  moreover have "?v < 2 ^ 32" by simp
  ultimately show ?thesis by (simp only: unat_of_len)
qed

section \<open>Reloading: lemmas\<close>

lemma reload_config_error:
  "config_load (sv_config_from_toml sv) (dm_files dm) (su_config_path su) = Inl e \<Longrightarrow>
   reload sv su fs dm = Some dm"
  by (simp add: reload_def)

lemma reload_policy_error:
  "config_load (sv_config_from_toml sv) (dm_files dm) (su_config_path su) = Inr cfg \<Longrightarrow>
   build_policy (sv_api sv) (sv_host sv) cfg = Inl e \<Longrightarrow> reload sv su fs dm = Some dm"
  by (simp add: reload_def)

lemma reload_success:
  assumes "fs_bounded path_max width fs"
    and "config_load (sv_config_from_toml sv) (dm_files dm) (su_config_path su) = Inr cfg"
    and "build_policy (sv_api sv) (sv_host sv) cfg = Inr p"
  shows "\<exists>dm'. reload sv su fs dm = Some dm' \<and> dm_policy dm' = p \<and>
    dm_rules dm' = rules_load (sv_rules_from_toml sv) (dm_files dm) (su_rules_path su) \<and>
    dm_ui dm' = dm_ui dm \<and> dm_server dm' = dm_server dm \<and> dm_files dm' = dm_files dm \<and>
    dm_reload dm' = dm_reload dm \<and> set (fa_marks (dm_fan dm)) \<subseteq> set (fa_marks (dm_fan dm')) \<and>
    (\<forall>q. mark_set_get (dm_marks dm') q \<noteq> None \<longleftrightarrow>
       (\<exists>w \<in> set (po_watches p). \<exists>e \<in> set (watch_objects fs (sv_api sv) w). path_eq (snd (snd e)) q))"
proof -
  obtain n fan marks where
    m: "mark_all (sv_fan sv) fs (sv_api sv) p (dm_fan dm, dm_marks dm) = Some (n, fan, marks)"
    using mark_all_total [OF assms(1)] by (metis prod.exhaust)
  obtain tw where t: "tree_build (sv_inotify sv) fs (sv_api sv) p = Some tw"
    using tree_build_total [OF assms(1)] by blast
  show ?thesis
    using assms(2,3) m t mark_all_backed(2) [OF m] mark_all_recorded [OF m] by (simp add: reload_def)
qed

lemma reload_total:
  assumes "fs_bounded path_max width fs"
  shows "\<exists>dm'. reload sv su fs dm = Some dm'"
proof (cases "config_load (sv_config_from_toml sv) (dm_files dm) (su_config_path su)")
  case (Inl e)
  then show ?thesis using reload_config_error by blast
next
  case cfg: (Inr cfg)
  show ?thesis
  proof (cases "build_policy (sv_api sv) (sv_host sv) cfg")
    case (Inl e)
    then show ?thesis using reload_policy_error [OF cfg] by blast
  next
    case (Inr p)
    then show ?thesis using reload_success [OF assms cfg] by blast
  qed
qed

section \<open>An iteration returns\<close>

lemma gather_total:
  assumes "fs_bounded path_max width (it_fs it)"
  shows "\<exists>r. gather sv su it dm = Some r"
proof -
  have "\<exists>dm'. live_mark sv it dm = Some dm'"
    using on_ready_total [OF assms, of "sv_inotify sv" "sv_fan sv" "sv_api sv" "dm_policy dm" "it_inotify it"
        "\<lparr>tc_tree = dm_tree dm, tc_fan = dm_fan dm, tc_marks = dm_marks dm, tc_reload = dm_reload dm\<rparr>"]
    by (auto simp: live_mark_def)
  then show ?thesis
    by (auto simp: gather_def Let_def split: poll_result.split sum.split)
qed

lemma gather_uis:
  assumes "gather sv su it dm = Some (Inr (evs, dm'))"
  shows "dm_ui dm' = dm_ui dm \<and> dm_server dm' = dm_server dm \<and> dm_policy dm' = dm_policy dm \<and>
    dm_rules dm' = dm_rules dm \<and> dm_files dm' = dm_files dm"
  using assms
  by (auto simp: gather_def live_mark_def Let_def
      split: poll_result.split_asm option.split_asm sum.split_asm if_split_asm)

lemma reload_uis:
  "reload sv su fs dm = Some dm' \<Longrightarrow> dm_ui dm' = dm_ui dm \<and> dm_server dm' = dm_server dm"
  by (auto simp: reload_def Let_def split: sum.split_asm option.split_asm prod.split_asm)

text \<open>The UIs of an iteration that connect keep reading.\<close>

definition news_read :: "iter \<Rightarrow> bool" where
  "news_read it \<longleftrightarrow> (\<forall>i s. Inr s \<in> set (it_uis it i) \<longrightarrow> keeps_reading s)"

text \<open>An iteration returns, or a prompt of its batch waits for a UI that has stopped reading.\<close>

lemma iteration_returns_or_stalls:
  assumes "fs_bounded path_max width (it_fs it)" and "fs_bounded path_max width (it_fs_reload it)"
    and "iteration sv su it dm = None"
  shows "\<exists>evs dm3. events_stall sv su (it_access it) (it_uis it) evs dm3 \<and>
    dm_ui dm3 = dm_ui dm \<and> dm_server dm3 = dm_server dm"
proof -
  obtain r where g: "gather sv su it (meanwhile it dm) = Some r"
    using gather_total [OF assms(1)] by blast
  then obtain evs dm1 where r: "r = Inr (evs, dm1)"
    using assms(3) by (cases r) (auto simp: iteration_def)
  obtain dm2 where l: "reload sv su (it_fs_reload it) (dm1\<lparr>dm_reload := False\<rparr>) = Some dm2"
    using reload_total [OF assms(2)] by blast
  have "events_stall sv su (it_access it) (it_uis it) evs
      (if dm_reload dm1 \<or> it_raise it then dm2 else dm1\<lparr>dm_reload := False\<rparr>)"
    using assms(3) g r l by (auto simp: iteration_def Let_def split: if_split_asm)
  then show ?thesis
    using gather_uis [OF g [unfolded r]] reload_uis [OF l]
    by (intro exI [of _ evs] exI [of _ "if dm_reload dm1 \<or> it_raise it then dm2 else dm1\<lparr>dm_reload := False\<rparr>"])
      simp
qed

lemma iteration_total:
  assumes "fs_bounded path_max width (it_fs it)" and "fs_bounded path_max width (it_fs_reload it)"
    and "uis_read dm" and "news_read it"
  shows "\<exists>r. iteration sv su it dm = Some r"
proof (rule ccontr)
  assume "\<nexists>r. iteration sv su it dm = Some r"
  then obtain evs dm3 where "events_stall sv su (it_access it) (it_uis it) evs dm3"
    and "dm_ui dm3 = dm_ui dm" "dm_server dm3 = dm_server dm"
    using iteration_returns_or_stalls [OF assms(1,2), of sv su dm] by auto
  moreover from this(2,3) have "uis_read dm3"
    using assms(3) by (simp add: uis_read_def)
  ultimately show False
    using events_stall_stuck [of dm3 "it_uis it" sv su "it_access it" evs] assms(4) by (simp add: news_read_def)
qed

text \<open>The UIs that are held or wait keep reading when those before and those that connected do.\<close>

lemma uis_read_events:
  "uis_read dm \<Longrightarrow> \<forall>i s. Inr s \<in> set (news i) \<longrightarrow> keeps_reading s \<Longrightarrow>
   uis_read (process_events sv su aes news evs dm)"
proof (induction evs arbitrary: aes news dm)
  case (Cons ev evs)
  have "uis_read (process_event sv su (aes 0) ev (connect_uis (news 0) dm))"
    using Cons.prems by (intro uis_read_event uis_read_connect) auto
  then show ?case
    using Cons.IH Cons.prems(2) by simp
qed simp

lemma uis_read_iteration:
  assumes "iteration sv su it dm = Some (Inr dm')" and "uis_read dm" and "news_read it"
  shows "uis_read dm'"
proof -
  obtain events dm1 dm3 where
    g: "gather sv su it (meanwhile it dm) = Some (Inr (events, dm1))"
    and r: "(if dm_reload dm1 \<or> it_raise it
             then reload sv su (it_fs_reload it) (dm1\<lparr>dm_reload := False\<rparr>)
             else Some (dm1\<lparr>dm_reload := False\<rparr>)) = Some dm3"
    and dm': "dm' = process_events sv su (it_access it) (it_uis it) events dm3"
    using assms(1)
    by (auto simp: iteration_def Let_def split: option.split_asm sum.split_asm prod.split_asm if_split_asm)
  have "dm_ui dm3 = dm_ui dm" "dm_server dm3 = dm_server dm"
    using gather_uis [OF g] r reload_uis by (fastforce split: if_split_asm)+
  then show ?thesis
    unfolding dm' using assms(2,3) by (intro uis_read_events) (simp_all add: uis_read_def news_read_def)
qed

text \<open>A turn for which the reload flag is up ends on the new configuration.\<close>

lemma raised_turn:
  assumes "iteration sv su it dm = Some (Inr dm')" and "it_raise it"
    and "fs_bounded path_max width (it_fs_reload it)"
    and "config_load (sv_config_from_toml sv) (it_edit it (dm_files dm)) (su_config_path su) = Inr cfg"
    and "build_policy (sv_api sv) (sv_host sv) cfg = Inr p"
  shows "dm_policy dm' = p \<and> \<not> dm_reload dm' \<and>
    set (rs_rules (rules_load (sv_rules_from_toml sv) (it_edit it (dm_files dm)) (su_rules_path su))) \<subseteq>
      set (rs_rules (dm_rules dm'))"
proof -
  obtain events dm1 dm3 where
    g: "gather sv su it (meanwhile it dm) = Some (Inr (events, dm1))"
    and r: "reload sv su (it_fs_reload it) (dm1\<lparr>dm_reload := False\<rparr>) = Some dm3"
    and dm': "dm' = process_events sv su (it_access it) (it_uis it) events dm3"
    using assms(1,2)
    by (auto simp: iteration_def Let_def split: option.split_asm sum.split_asm prod.split_asm if_split_asm)
  have files: "dm_files dm1 = it_edit it (dm_files dm)"
    using gather_uis [OF g] by simp
  have "dm_policy dm3 = p" "\<not> dm_reload dm3"
    "dm_rules dm3 = rules_load (sv_rules_from_toml sv) (it_edit it (dm_files dm)) (su_rules_path su)"
    using reload_success [OF assms(3), of sv "dm1\<lparr>dm_reload := False\<rparr>" su cfg p] assms(4,5) files r by auto
  then show ?thesis
    unfolding dm' using process_events_rules [of dm3 sv su "it_access it" "it_uis it" events] by simp
qed

text \<open>A UI that does not read and is to be asked: the iteration does not return.\<close>

lemma outcome_cong:
  assumes "dm_policy dm' = dm_policy dm" and "dm_rules dm' = dm_rules dm"
  shows "passes_by sv su ae ev dm' = passes_by sv su ae ev dm"
    and "outcome_of sv ae ev dm' = outcome_of sv ae ev dm"
  using assms by (simp_all add: passes_by_def access_outcome_def)

lemma stuck_ui_stalls:
  assumes "it_poll it = PollReady True False c" and "read_ready (it_read it) = Inr (Inr (ev # evs))"
    and "\<not> dm_reload dm" and "\<not> it_raise it"
    and "\<not> passes_by sv su (it_access it 0) ev dm" and "outcome_of sv (it_access it 0) ev dm = OutPrompt"
    and "uc_enc_request (sv_codec sv)
      (access_request su (covering_watch (dm_policy dm) (event_path (ae_proc (it_access it 0)) ev))
        (ae_proc (it_access it 0)) ev (event_path (ae_proc (it_access it 0)) ev)
        (event_exe (ae_proc (it_access it 0)) ev) (event_cwd (ae_proc (it_access it 0)) ev)) = Inr out"
    and "length out \<le> unat max_msg_len" and "dm_ui dm = Some link"
    and "sk_room link = Some (n, WouldBlock)" and "n < length (frame out)"
  shows "iteration sv su it dm = None"
proof -
  let ?ae = "it_access it 0"
  obtain dm1 where g: "gather sv su it (meanwhile it dm) = Some (Inr (ev # evs, dm1))"
    and d: "dm_reload dm1 = dm_reload dm"
    using assms(1,2) by (simp add: gather_def Let_def)
  let ?dm = "connect_uis (it_uis it 0) (dm1\<lparr>dm_reload := False\<rparr>)"
  have f: "dm_policy ?dm = dm_policy dm" "dm_rules ?dm = dm_rules dm" "dm_ui ?dm = Some link"
    using gather_uis [OF g] assms(9) by simp_all
  have "link_stalls (sv_codec sv)
      (access_request su (covering_watch (dm_policy ?dm) (event_path (ae_proc ?ae) ev)) (ae_proc ?ae) ev
        (event_path (ae_proc ?ae) ev) (event_exe (ae_proc ?ae) ev) (event_cwd (ae_proc ?ae) ev)) link"
    unfolding f(1) link_stalls_iff using assms(7,8,10,11) by blast
  then have "event_stalls sv su ?ae ev ?dm"
    using assms(5,6) f(3)
    by (simp add: event_stalls_def prompt_stalls_def ensure_link_def outcome_cong [OF f(1,2)] Let_def)
  then show ?thesis
    using g d assms(3,4) by (simp add: iteration_def Let_def)
qed

section \<open>Every event is answered\<close>

lemma live_mark_answers:
  "live_mark sv it dm = Some dm' \<Longrightarrow> fa_answers (dm_fan dm') = fa_answers (dm_fan dm)"
  by (auto simp: live_mark_def dest!: on_ready_answers split: option.splits)

lemma reload_answers:
  "reload sv su fs dm = Some dm' \<Longrightarrow> fa_answers (dm_fan dm') = fa_answers (dm_fan dm)"
  by (auto simp: reload_def Let_def dest!: mark_all_answers
      split: sum.split_asm option.split_asm prod.split_asm)

lemma gather_events:
  assumes "gather sv su it dm = Some (Inr (evs, dm'))" and "it_poll it = PollReady True t c"
  shows "read_ready (it_read it) = Inr (Inr evs) \<and>
    fa_answers (dm_fan dm') = fa_answers (dm_fan dm)"
proof -
  obtain dm1 where dm1: "(if t then live_mark sv it dm else Some dm) = Some dm1"
    using assms by (cases "if t then live_mark sv it dm else Some dm") (simp_all add: gather_def)
  then have "fa_answers (dm_fan dm1) = fa_answers (dm_fan dm)"
    using live_mark_answers by (auto split: if_splits)
  then show ?thesis
    using assms dm1 by (auto simp: gather_def Let_def split: sum.split_asm if_split_asm)
qed

lemma iteration_answers:
  assumes "\<And>h b. fk_write (sv_fan sv) h b = None" and "it_poll it = PollReady True t c"
    and "read_ready (it_read it) = Inr (Inr evs)" and "iteration sv su it dm = Some (Inr dm')"
  shows "\<exists>allowed. length allowed = length evs \<and>
    fa_answers (dm_fan dm') = fa_answers (dm_fan dm) @ map2 answer_bytes evs allowed"
proof -
  obtain events dm1 dm3 where
    g: "gather sv su it (meanwhile it dm) = Some (Inr (events, dm1))"
    and r: "(if dm_reload dm1 \<or> it_raise it
             then reload sv su (it_fs_reload it) (dm1\<lparr>dm_reload := False\<rparr>)
             else Some (dm1\<lparr>dm_reload := False\<rparr>)) = Some dm3"
    and dm': "dm' = process_events sv su (it_access it) (it_uis it) events dm3"
    using assms(4)
    by (auto simp: iteration_def Let_def split: option.split_asm sum.split_asm prod.split_asm if_split_asm)
  have "events = evs" and "fa_answers (dm_fan dm1) = fa_answers (dm_fan dm)"
    using gather_events [OF g assms(2)] assms(3) by simp_all
  moreover have "fa_answers (dm_fan dm3) = fa_answers (dm_fan dm1)"
    using r reload_answers by (fastforce split: if_splits)
  ultimately have "fa_answers (dm_fan dm') =
      fa_answers (dm_fan dm) @ map2 answer_bytes evs (verdicts sv su (it_access it) (it_uis it) evs dm3)"
    using process_events_answers [OF assms(1)] dm' by simp
  then show ?thesis
    by (intro exI [of _ "verdicts sv su (it_access it) (it_uis it) evs dm3"]) simp
qed

section \<open>Properties\<close>

definition demo_files :: file_map where
  "demo_files = (\<lambda>c. if c = components ''/etc/filewall/config.toml'' \<or> c = components ''/c.toml''
                    then Some [] else None)"

definition demo_start :: start_env where
  "demo_start =
     \<lparr>te_args = [''filewalld''], te_pid = 1, te_files = demo_files, te_fan_init = (\<lambda>_ _. None),
      te_pid_mkdir = None, te_pid_write = CreateFails PermissionDenied,
      te_ui_bind = \<lparr>be_mkdir = None, be_remove = Some NotFound, be_bind = None, be_chmod = None\<rparr>,
      te_control_bind = \<lparr>be_mkdir = None, be_remove = None, be_bind = Some PermissionDenied, be_chmod = None\<rparr>,
      te_fs = demo_fs\<rparr>"

lemma demo_config_loads:
  "read_to_string demo_files p = Inr [] \<Longrightarrow>
   \<exists>cfg pol. config_load (sv_config_from_toml demo_services) demo_files p = Inr cfg \<and>
     build_policy (sv_api demo_services) (sv_host demo_services) cfg = Inr pol"
  by (simp add: config_load_def config_from_str_def demo_services_def config_of_def or_default_def
      watch_config_of_def build_policy_def build_watch_def watch_policy_new_def build_globs_def
      demo_globs_def Let_def)

lemma demo_starts: "\<exists>su dm. startup demo_services demo_start = Some (Inr (su, dm))"
proof -
  have "read_to_string demo_files ''/etc/filewall/config.toml'' = Inr []"
    by (simp add: read_to_string_def demo_files_def)
  then obtain cfg pol where
    c: "config_load (sv_config_from_toml demo_services) demo_files ''/etc/filewall/config.toml'' = Inr cfg"
    and p: "build_policy (sv_api demo_services) (sv_host demo_services) cfg = Inr pol"
    using demo_config_loads by blast
  obtain n fan ms where m: "mark_all (sv_fan demo_services) demo_fs (sv_api demo_services) pol
      (\<lparr>fa_marks = [], fa_dropped = [], fa_answers = []\<rparr>, mark_set_new) = Some (n, fan, ms)"
    using mark_all_total [OF demo_fs_bounded] by (metis prod.exhaust)
  obtain tw where t: "tree_build (sv_inotify demo_services) demo_fs (sv_api demo_services) pol = Some tw"
    using tree_build_total [OF demo_fs_bounded] by blast
  show ?thesis
    using c p m t
    by (simp add: startup_def demo_start_def config_path_of_def default_config_def ui_bind_def
        bind_socket_def control_bind_def fan_init_def Let_def)
qed

text \<open>
  C4: in every state the daemon can reach, from a start through any sequence of iterations (live
  marking, dumps, reloads that succeed or fail, accesses, the kernel dropping marks and answering as
  it likes), the mark record is sorted by path, and an object it claims as marked was marked with the
  mask of its kind by a request the kernel accepted: this mark is in place, or the kernel has dropped
  it since (the object was deleted), which the record does not see. The inotify table of the daemon
  maps each descriptor to one directory, and the policy in force was compiled from one whole
  configuration.
\<close>

theorem reachable_daemon_is_consistent:
  assumes "daemon_reach sv su dm"
  shows "marks_sorted (dm_marks dm) \<and>
    (\<forall>p e. (p, e) \<in> set (ms_entries (dm_marks dm)) \<and> me_ok e \<longrightarrow>
       (\<exists>q. path_eq p q \<and>
          ((q, mark_mask (me_kind e)) \<in> set (fa_marks (dm_fan dm)) \<or>
           (q, mark_mask (me_kind e)) \<in> set (fa_dropped (dm_fan dm))))) \<and>
    tree_ok (dm_tree dm) \<and>
    (\<exists>cfg ho. build_policy (sv_api sv) ho cfg = Inr (dm_policy dm))"
  using daemon_reach_ok [OF assms] by (simp add: daemon_ok_def backed_but_def)

theorem reachable_daemon_is_consistent_witness:
  "\<exists>su dm. startup demo_services demo_start = Some (Inr (su, dm)) \<and>
     (\<forall>p e. (p, e) \<in> set (ms_entries (dm_marks dm)) \<and> me_ok e \<longrightarrow>
       (\<exists>q. path_eq p q \<and>
          ((q, mark_mask (me_kind e)) \<in> set (fa_marks (dm_fan dm)) \<or>
           (q, mark_mask (me_kind e)) \<in> set (fa_dropped (dm_fan dm)))))"
proof -
  obtain su dm where s: "startup demo_services demo_start = Some (Inr (su, dm))"
    using demo_starts by blast
  then show ?thesis
    using reachable_daemon_is_consistent [OF reach_start [OF s]] by blast
qed


definition demo_iter :: "bytes \<Rightarrow> bool \<Rightarrow> iter" where
  "demo_iter data raised =
     \<lparr>it_poll = PollReady True False False, it_edit = id, it_gone = (\<lambda>_. False), it_raise = raised, it_inotify = Inr [],
      it_fs = demo_fs, it_clients = [], it_clock = 0, it_read = Inr data, it_fs_reload = demo_fs,
      it_access = (\<lambda>_. demo_access), it_uis = (\<lambda>_. [])\<rparr>"


text \<open>
  C18: the daemon sets no write timeout on the stream of a UI. A UI that is held, does not read and does
  not answer makes every access that is put to it a deny, and it stays held with so much less room in
  the socket buffers; once a request does not fit any more, the iteration does not return, and no
  event is answered from then on.
\<close>

theorem silent_ui_stops_the_daemon:
  assumes "\<not> passes_by sv su (it_access it 0) ev dm" and "outcome_of sv (it_access it 0) ev dm = OutPrompt"
    and "uc_enc_request (sv_codec sv)
      (access_request su (covering_watch (dm_policy dm) (event_path (ae_proc (it_access it 0)) ev))
        (ae_proc (it_access it 0)) ev (event_path (ae_proc (it_access it 0)) ev)
        (event_exe (ae_proc (it_access it 0)) ev) (event_cwd (ae_proc (it_access it 0)) ev)) = Inr out"
    and "length out \<le> unat max_msg_len" and "dm_ui dm = Some link"
    and "sk_room link = Some (n, WouldBlock)" and "sk_in link = Fail WouldBlock # q"
  shows "(length (frame out) \<le> n \<longrightarrow>
      decide_event sv su (it_access it 0) ev dm =
        (False, dm\<lparr>dm_ui := Some (link\<lparr>sk_in := q, sk_out := sk_out link @ frame out,
           sk_room := Some (n - length (frame out), WouldBlock)\<rparr>)\<rparr>)) \<and>
    (n < length (frame out) \<and> it_poll it = PollReady True False c \<and>
      read_ready (it_read it) = Inr (Inr (ev # evs)) \<and> \<not> dm_reload dm \<and> \<not> it_raise it \<longrightarrow>
      iteration sv su it dm = None)"
proof (intro conjI impI)
  assume "length (frame out) \<le> n"
  from no_answer_denies [OF assms(1,2), unfolded assms(5), OF prompt_recovering_unread
      [OF assms(3,4,6) this assms(7)]]
  show "decide_event sv su (it_access it 0) ev dm =
      (False, dm\<lparr>dm_ui := Some (link\<lparr>sk_in := q, sk_out := sk_out link @ frame out,
         sk_room := Some (n - length (frame out), WouldBlock)\<rparr>)\<rparr>)"
    by simp
next
  assume "n < length (frame out) \<and> it_poll it = PollReady True False c \<and>
      read_ready (it_read it) = Inr (Inr (ev # evs)) \<and> \<not> dm_reload dm \<and> \<not> it_raise it"
  then show "iteration sv su it dm = None"
    using stuck_ui_stalls [OF _ _ _ _ assms(1-6)] by blast
qed

theorem silent_ui_stops_the_daemon_witness:
  "iteration demo_services demo_params (demo_iter (encode_event 3 demo_event) False)
     (demo_daemon rules_default (Some \<lparr>sk_in = [Fail WouldBlock], sk_out = [], sk_room = Some (2, WouldBlock)\<rparr>)) = None"
proof -
  let ?link = "\<lparr>sk_in = [Fail WouldBlock], sk_out = [], sk_room = Some (2, WouldBlock)\<rparr>"
  let ?it = "demo_iter (encode_event 3 demo_event) False" and ?dm = "demo_daemon rules_default (Some ?link)"
  have p: "dm_policy ?dm = demo_policy" "dm_rules ?dm = rules_default"
    by (simp_all add: demo_daemon_def)
  have ae: "it_access ?it 0 = demo_access" by (simp add: demo_iter_def)
  have out: "outcome_of demo_services (it_access ?it 0) demo_event ?dm = OutPrompt"
    using demo_prompts [OF p] unfolding ae by (simp add: demo_access_def demo_names)
  have pass: "\<not> passes_by demo_services demo_params (it_access ?it 0) demo_event ?dm"
    unfolding ae using demo_not_passed [OF p(1)] .
  have ok: "\<forall>ev \<in> set [demo_event]. event_ok ev"
    by (simp add: event_ok_def demo_event_def)
  have "read_ready (it_read ?it) = Inr (Inr [demo_event])"
    using read_ready_encode [OF ok, of _ 3 "[]"] by (simp add: demo_iter_def meta_size_def)
  then show ?thesis
    using silent_ui_stops_the_daemon [OF pass out, of "[1]" ?link 2 "[]", THEN conjunct2, rule_format, of False "[]"]
    by (simp add: demo_services_def demo_codec_def demo_daemon_def demo_frame max_msg_len_def demo_iter_def)
qed

text \<open>
  C5: no event is lost in an iteration that returns, a reload in the middle included: when the kernel
  takes every answer, the events that were read are answered one by one in the order of the buffer,
  and nothing else is answered.
\<close>

theorem every_read_event_is_answered:
  assumes "\<And>h b. fk_write (sv_fan sv) h b = None" and "it_poll it = PollReady True t c"
    and "it_read it = Inr (concat (map (encode_event vers) evs))" and "\<forall>ev \<in> set evs. event_ok ev"
    and "iteration sv su it dm = Some (Inr dm')"
  shows "\<exists>allowed. length allowed = length evs \<and>
    fa_answers (dm_fan dm') = fa_answers (dm_fan dm) @ map2 answer_bytes evs allowed"
proof -
  have "read_ready (it_read it) = Inr (Inr evs)"
    using read_ready_encode [OF assms(4), of _ vers "[]"] assms(3) by (simp add: meta_size_def)
  then show ?thesis
    by (rule iteration_answers [OF assms(1,2) _ assms(5)])
qed

theorem every_read_event_is_answered_witness:
  "\<exists>dm' a. iteration demo_services demo_params (demo_iter (encode_event 3 demo_event) False)
       (demo_daemon rules_default None) = Some (Inr dm') \<and>
     fa_answers (dm_fan dm') = [answer_bytes demo_event a]"
proof -
  let ?it = "demo_iter (encode_event 3 demo_event) False" and ?dm = "demo_daemon rules_default None"
  have ok: "\<forall>ev \<in> set [demo_event]. event_ok ev"
    by (simp add: event_ok_def demo_event_def)
  have "read_ready (it_read ?it) = Inr (Inr [demo_event])"
    using read_ready_encode [OF ok, of _ 3 "[]"] by (simp add: demo_iter_def meta_size_def)
  moreover have "\<not> events_stall demo_services demo_params (\<lambda>_. demo_access) (\<lambda>_. []) [demo_event] dm3"
    if "dm_ui dm3 = None" "dm_server dm3 = demo_server []" for dm3
    using that by (intro events_stall_stuck) (simp_all add: uis_read_def candidates_def demo_server_def)
  ultimately obtain dm' where it: "iteration demo_services demo_params ?it ?dm = Some (Inr dm')"
    by (simp add: iteration_def gather_def demo_iter_def demo_daemon_def Let_def del: events_stall.simps)
  have "fk_write (sv_fan demo_services) h b = None" for h b
    by (simp add: demo_services_def demo_fan_def)
  from every_read_event_is_answered [OF this _ _ ok it, of False False 3]
  obtain allowed where "length allowed = length [demo_event]"
    and a: "fa_answers (dm_fan dm') = fa_answers (dm_fan ?dm) @ map2 answer_bytes [demo_event] allowed"
    by (auto simp: demo_iter_def)
  then obtain b where "allowed = [b]" by (auto simp: length_Suc_conv)
  then show ?thesis
    using it a by (intro exI [of _ dm'] exI [of _ b]) (simp add: demo_daemon_def)
qed

text \<open>
  C10: a reload takes effect as a whole or not at all. When the new configuration does not load or
  does not compile, the daemon goes on exactly as it was; otherwise it runs on the policy compiled
  from it and on the rules that are on disk, keeps the UI it is connected to, takes back no mark, and
  has attempted to mark exactly the objects the new watches resolve to.
\<close>

theorem reload_is_all_or_nothing:
  assumes "fs_bounded path_max width fs"
  shows "case (case config_load (sv_config_from_toml sv) (dm_files dm) (su_config_path su) of
                 Inl e \<Rightarrow> Inl e | Inr cfg \<Rightarrow> build_policy (sv_api sv) (sv_host sv) cfg) of
      Inl e \<Rightarrow> reload sv su fs dm = Some dm
    | Inr p \<Rightarrow>
        (\<exists>dm'. reload sv su fs dm = Some dm' \<and> dm_policy dm' = p \<and>
           dm_rules dm' = rules_load (sv_rules_from_toml sv) (dm_files dm) (su_rules_path su) \<and>
           dm_ui dm' = dm_ui dm \<and> dm_server dm' = dm_server dm \<and> dm_files dm' = dm_files dm \<and>
           set (fa_marks (dm_fan dm)) \<subseteq> set (fa_marks (dm_fan dm')) \<and>
           (\<forall>q. mark_set_get (dm_marks dm') q \<noteq> None \<longleftrightarrow>
              (\<exists>w \<in> set (po_watches p). \<exists>e \<in> set (watch_objects fs (sv_api sv) w). path_eq (snd (snd e)) q)))"
proof (cases "config_load (sv_config_from_toml sv) (dm_files dm) (su_config_path su)")
  case (Inl e)
  then show ?thesis by (simp add: reload_config_error)
next
  case cfg: (Inr cfg)
  show ?thesis
  proof (cases "build_policy (sv_api sv) (sv_host sv) cfg")
    case (Inl e)
    then show ?thesis using cfg by (simp add: reload_policy_error)
  next
    case (Inr p)
    then show ?thesis using reload_success [OF assms cfg Inr] cfg by auto
  qed
qed

theorem reload_is_all_or_nothing_witness:
  "reload demo_services demo_params demo_fs (demo_daemon rules_default None) =
     Some (demo_daemon rules_default None) \<and>
   (\<exists>dm' cfg. reload demo_services demo_params demo_fs ((demo_daemon rules_default None)\<lparr>dm_files := demo_files\<rparr>) =
       Some dm' \<and> config_load (sv_config_from_toml demo_services) demo_files ''/c.toml'' = Inr cfg \<and>
     build_policy (sv_api demo_services) (sv_host demo_services) cfg = Inr (dm_policy dm') \<and>
     dm_rules dm' = rules_default)"
proof
  show "reload demo_services demo_params demo_fs (demo_daemon rules_default None) =
      Some (demo_daemon rules_default None)"
    using reload_is_all_or_nothing [OF demo_fs_bounded, of demo_services demo_params "demo_daemon rules_default None"]
    by (simp add: demo_daemon_def demo_params_def config_load_def read_to_string_def)
next
  let ?dm = "(demo_daemon rules_default None)\<lparr>dm_files := demo_files\<rparr>"
  have "read_to_string demo_files ''/c.toml'' = Inr []"
    by (simp add: read_to_string_def demo_files_def)
  then obtain cfg pol where
    cfg: "config_load (sv_config_from_toml demo_services) demo_files ''/c.toml'' = Inr cfg"
    and pol: "build_policy (sv_api demo_services) (sv_host demo_services) cfg = Inr pol"
    using demo_config_loads by blast
  have no_rules: "rules_load (sv_rules_from_toml demo_services) demo_files p = rules_default" for p
    by (simp add: rules_load_def demo_services_def split: sum.split)
  have files: "dm_files ?dm = demo_files" "su_config_path demo_params = ''/c.toml''"
    by (simp_all add: demo_params_def)
  obtain dm' where "reload demo_services demo_params demo_fs ?dm = Some dm'" "dm_policy dm' = pol"
    "dm_rules dm' = rules_default"
    using reload_is_all_or_nothing [OF demo_fs_bounded, of demo_services demo_params ?dm]
    unfolding files cfg sum.case pol no_rules by blast
  with cfg pol show "\<exists>dm' cfg. reload demo_services demo_params demo_fs ?dm = Some dm' \<and>
      config_load (sv_config_from_toml demo_services) demo_files ''/c.toml'' = Inr cfg \<and>
      build_policy (sv_api demo_services) (sv_host demo_services) cfg = Inr (dm_policy dm') \<and>
      dm_rules dm' = rules_default"
    by blast
qed

text \<open>
  C36: the time a UI is given to answer is at least 2 seconds. For a prompt timeout of 7 seconds or
  more it ends at least 5 seconds before the daemon gives up, and no configured value makes the
  computation wrap. For a prompt timeout of 2 seconds or less it does not end before the daemon gives
  up, so an answer in time for the UI can be late for the daemon.
\<close>

theorem ui_window_within_prompt_timeout:
  "2000 \<le> unat (ui_timeout_ms s) \<and>
   (7 \<le> unat s \<longrightarrow> unat (ui_timeout_ms s) + 5000 \<le> unat s * 1000) \<and>
   (unat s \<le> 2 \<longrightarrow> unat s * 1000 \<le> unat (ui_timeout_ms s))"
  by (auto simp: ui_timeout_value min_def max_def)

theorem ui_window_within_prompt_timeout_witness:
  "unat (ui_timeout_ms 30) + 5000 \<le> 30000 \<and> 1000 \<le> unat (ui_timeout_ms 1)"
  using ui_window_within_prompt_timeout [of 30] ui_window_within_prompt_timeout [of 1] by simp

end
