(* ===== verification/FW_Ctl.thy ===== *)
theory FW_Ctl
  imports FW_Rules FW_Proto
begin

text \<open>
  The command line tool (\<open>filewallctl/src/main.rs\<close>, \<open>format.rs\<close>, \<open>render.rs\<close>): the commands as
  functions of what they find (files, the answers of \<open>kill\<close>, the control socket), with what they
  print, the files they leave and the signals they send as results. The JSON and YAML encoders and
  the display of system errors are parameters.
\<close>

section \<open>Output formats\<close>

datatype format = FmtTable | FmtJson | FmtYaml

fun parse_format_loop :: "format \<Rightarrow> string list \<Rightarrow> string list \<Rightarrow> format \<times> string list" where
  "parse_format_loop fmt rest [] = (fmt, rest)"
| "parse_format_loop fmt rest (a # as) =
     (if a = ''--json'' then parse_format_loop FmtJson rest as
      else if a = ''--yaml'' then parse_format_loop FmtYaml rest as
      else if a = ''--table'' then parse_format_loop FmtTable rest as
      else parse_format_loop fmt (rest @ [a]) as)"

definition parse_format :: "string list \<Rightarrow> format \<times> string list" where
  "parse_format args = parse_format_loop FmtTable [] args"

definition emit :: "('v \<Rightarrow> string + string) \<Rightarrow> ('v \<Rightarrow> string + string) \<Rightarrow> 'v \<Rightarrow> format \<Rightarrow> string + string" where
  "emit to_json to_yaml v fmt =
     (case fmt of
        FmtJson \<Rightarrow> to_json v
      | FmtYaml \<Rightarrow> to_yaml v
      | FmtTable \<Rightarrow> Inl ''emit() called with Format::Table'')"

section \<open>Tables\<close>

text \<open>Column widths are byte lengths; the padding of \<open>{:width$}\<close> counts characters.\<close>

definition pad_to :: "nat \<Rightarrow> string \<Rightarrow> string" where
  "pad_to w s = s @ replicate (w - char_count s) (CHR '' '')"

text \<open>\<open>widths[i] = widths[i].max(cell.len())\<close> for the cells that have a column.\<close>

fun widen :: "nat list \<Rightarrow> string list \<Rightarrow> nat list" where
  "widen (w # ws) (c # cs) = max w (length c) # widen ws cs"
| "widen ws cs = ws"

definition column_widths :: "string list \<Rightarrow> string list list \<Rightarrow> nat list" where
  "column_widths headers rows = foldl widen (map length headers) rows"

definition fmt_row :: "nat list \<Rightarrow> string list \<Rightarrow> string" where
  "fmt_row widths cells = trim_end (join_with ''  '' (map2 pad_to widths cells))"

definition render_table :: "string list \<Rightarrow> string list list \<Rightarrow> string" where
  "render_table headers rows =
     (let widths = column_widths headers rows
      in fmt_row widths headers @ newline @ concat (map (\<lambda>row. fmt_row widths row @ newline) rows))"

definition yes_no :: "bool \<Rightarrow> string" where
  "yes_no b = (if b then ''yes'' else ''no'')"

definition dump_row :: "watched_object \<Rightarrow> string list" where
  "dump_row wo =
     [wo_path wo, (case wo_kind wo of ObjFile \<Rightarrow> ''file'' | ObjDir \<Rightarrow> ''dir''),
      yes_no (wo_recursive wo), yes_no (wo_fanotify wo),
      (case wo_live_marked wo of None \<Rightarrow> ''-'' | Some b \<Rightarrow> yes_no b), wo_watch wo]"

definition dump_table :: "dump_response \<Rightarrow> string" where
  "dump_table resp =
     render_table [''PATH'', ''KIND'', ''RECURSIVE'', ''FANOTIFY'', ''LIVE'', ''WATCH'']
       (map dump_row (dr_objects resp)) @
     newline @ show_nat (length (dr_objects resp)) @ '' object(s) (pid '' @
     show_nat (unat (dr_pid resp)) @ '')'' @ newline"

definition rule_row :: "learned_rule \<Rightarrow> string list" where
  "rule_row r =
     [show_nat (unat (lr_id r)),
      (case lr_action r of RuleAllow \<Rightarrow> ''allow'' | RuleDeny \<Rightarrow> ''deny''),
      lr_exe r, display (lr_object r),
      (case lr_object_kind r of KindFile \<Rightarrow> ''file'' | KindTree \<Rightarrow> ''tree''),
      (case lr_cwd r of None \<Rightarrow> ''-'' | Some c \<Rightarrow> c),
      show_nat (unat (lr_created_unix r))]"

definition list_table :: "learned_rule list \<Rightarrow> path \<Rightarrow> string" where
  "list_table rules path =
     render_table [''ID'', ''ACTION'', ''EXE'', ''OBJECT'', ''KIND'', ''CWD'', ''CREATED'']
       (map rule_row rules) @
     newline @ show_nat (length rules) @ '' rule(s) ('' @ display path @ '')'' @ newline"

section \<open>Removing rules\<close>

fun retain_loop :: "u64 list \<Rightarrow> learned_rule list \<Rightarrow> learned_rule list \<Rightarrow> learned_rule list \<times> learned_rule list" where
  "retain_loop ids removed [] = ([], removed)"
| "retain_loop ids removed (r # rs) =
     (if lr_id r \<in> set ids then retain_loop ids (removed @ [r]) rs
      else (let (kept, removed') = retain_loop ids removed rs in (r # kept, removed')))"

definition remove_ids :: "rules \<Rightarrow> u64 list \<Rightarrow> rules \<times> learned_rule list \<times> u64 list" where
  "remove_ids rules ids =
     (let (kept, removed) = retain_loop ids [] (rs_rules rules);
          missing = filter (\<lambda>id. \<not> list_ex (\<lambda>r. lr_id r = id) removed) ids
      in (rules\<lparr>rs_rules := kept\<rparr>, removed, missing))"

section \<open>The daemon's pid and liveness\<close>

datatype errno = EPERM | ESRCH | EINVAL | ErrnoOther nat

datatype liveness = Running | Stale | Unknown errno

definition parse_pidfile :: "string \<Rightarrow> int option" where
  "parse_pidfile s = parse_signed 32 (trim s)"

definition classify_liveness :: "errno option \<Rightarrow> liveness" where
  "classify_liveness probe =
     (case probe of
        None \<Rightarrow> Running
      | Some e \<Rightarrow> if e = EPERM then Running else if e = ESRCH then Stale else Unknown e)"

record status_report =
  sr_running :: bool
  sr_pid :: "int option"
  sr_state :: string

record ack =
  ak_ok :: bool
  ak_pid :: "int option"
  ak_detail :: string
  ak_removed :: "u64 list"
  ak_missing :: "u64 list"

section \<open>The world of a command\<close>

text \<open>What a command finds, and the libraries it calls.\<close>

record ctl_env =
  ce_rules_to_toml :: "rules \<Rightarrow> string option"
  ce_rules_from_toml :: "string \<Rightarrow> rules option"
  ce_save :: save_env
  ce_hup :: "int \<Rightarrow> errno option"             \<comment> \<open>\<open>kill(pid, SIGHUP)\<close>\<close>
  ce_probe :: "int \<Rightarrow> errno option"           \<comment> \<open>\<open>kill(pid, 0)\<close>\<close>
  ce_connect :: "path \<Rightarrow> socket io_result"
  ce_enc_request :: "control_request \<Rightarrow> bytes io_result"
  ce_dec_dump :: "bytes \<Rightarrow> dump_response option"
  ce_rules_out :: "format \<Rightarrow> learned_rule list \<Rightarrow> string + string"
  ce_ack_out :: "format \<Rightarrow> ack \<Rightarrow> string + string"
  ce_status_out :: "format \<Rightarrow> status_report \<Rightarrow> string + string"
  ce_dump_out :: "format \<Rightarrow> dump_response \<Rightarrow> string + string"
  ce_error_out :: "format \<Rightarrow> string \<Rightarrow> string + string"
  ce_show_io :: "io_kind \<Rightarrow> string"
  ce_show_errno :: "errno \<Rightarrow> string"

datatype printed = Stdout string | Stderr string

text \<open>What a command does: success or failure, what it prints, the files after it, the pids it sent SIGHUP to.\<close>

record ctl_result =
  ct_ok :: bool
  ct_out :: "printed list"
  ct_files :: file_map
  ct_hups :: "int list"

text \<open>\<open>emit\<close> with the encoders of the value's type.\<close>

definition emit_with :: "(format \<Rightarrow> 'v \<Rightarrow> string + string) \<Rightarrow> 'v \<Rightarrow> format \<Rightarrow> string + string" where
  "emit_with enc v fmt = emit (enc FmtJson) (enc FmtYaml) v fmt"

definition render_failed :: "string \<Rightarrow> printed" where
  "render_failed e = Stderr (''filewallctl: render failed: '' @ e @ newline)"

definition show_int :: "int \<Rightarrow> string" where
  "show_int n = (if n < 0 then CHR ''-'' # show_nat (nat (- n)) else show_nat (nat n))"

section \<open>The commands\<close>

definition cmd_list :: "ctl_env \<Rightarrow> file_map \<Rightarrow> path \<Rightarrow> format \<Rightarrow> ctl_result" where
  "cmd_list ce fm path fmt =
     (let rules = rs_rules (rules_load (ce_rules_from_toml ce) fm path)
      in (case fmt of
            FmtTable \<Rightarrow>
              if rules = []
              then \<lparr>ct_ok = True, ct_out = [Stdout (''No learned rules ('' @ display path @ '')'' @ newline)],
                    ct_files = fm, ct_hups = []\<rparr>
              else \<lparr>ct_ok = True, ct_out = [Stdout (list_table rules path)], ct_files = fm, ct_hups = []\<rparr>
          | _ \<Rightarrow>
              (case emit_with (ce_rules_out ce) rules fmt of
                 Inr s \<Rightarrow> \<lparr>ct_ok = True, ct_out = [Stdout (s @ newline)], ct_files = fm, ct_hups = []\<rparr>
               | Inl e \<Rightarrow> \<lparr>ct_ok = False, ct_out = [render_failed e], ct_files = fm, ct_hups = []\<rparr>)))"

text \<open>The result, and the pid the signal was delivered to.\<close>

definition send_sighup :: "ctl_env \<Rightarrow> file_map \<Rightarrow> path \<Rightarrow> string + int" where
  "send_sighup ce fm pidfile =
     (case read_to_string fm pidfile of
        Inl e \<Rightarrow> Inl (''reading '' @ display pidfile @ '': '' @ ce_show_io ce e)
      | Inr text \<Rightarrow>
          (case parse_pidfile text of
             None \<Rightarrow> Inl (''invalid pidfile '' @ display pidfile)
           | Some pid \<Rightarrow>
               (case ce_hup ce pid of
                  Some e \<Rightarrow> Inl (''kill '' @ show_int pid @ '': '' @ ce_show_errno ce e)
                | None \<Rightarrow> Inr pid)))"

definition print_ack :: "ctl_env \<Rightarrow> ack \<Rightarrow> format \<Rightarrow> printed" where
  "print_ack ce ack fmt =
     (case emit_with (ce_ack_out ce) ack fmt of
        Inr s \<Rightarrow> Stdout (s @ newline)
      | Inl e \<Rightarrow> render_failed e)"

definition hups_of :: "string + int \<Rightarrow> int list" where
  "hups_of r = (case r of Inl _ \<Rightarrow> [] | Inr pid \<Rightarrow> [pid])"

definition cmd_remove :: "ctl_env \<Rightarrow> file_map \<Rightarrow> u64 list \<Rightarrow> path \<Rightarrow> path \<Rightarrow> format \<Rightarrow> ctl_result" where
  "cmd_remove ce fm ids rules_path pidfile fmt =
     (let (rules, removed, missing) = remove_ids (rules_load (ce_rules_from_toml ce) fm rules_path) ids;
          saved = (if removed = [] then (Inr (), [])
                   else save_atomic (ce_rules_to_toml ce) (ce_save ce) rules rules_path fm);
          fm' = after_save saved fm
      in (case fst saved of
            Inl e \<Rightarrow>
              (let a = \<lparr>ak_ok = False, ak_pid = None,
                        ak_detail = ''could not write '' @ display rules_path @ '': '' @ ce_show_io ce e,
                        ak_removed = [], ak_missing = []\<rparr>
               in \<lparr>ct_ok = False,
                   ct_out = [case fmt of
                               FmtTable \<Rightarrow> Stderr (''filewallctl: '' @ ak_detail a @ newline)
                             | _ \<Rightarrow> print_ack ce a fmt],
                   ct_files = fm', ct_hups = []\<rparr>)
          | Inr _ \<Rightarrow>
              (let hup = (if removed = [] then Inl [] else send_sighup ce fm' pidfile);
                   pid = (case hup of Inl _ \<Rightarrow> None | Inr p \<Rightarrow> Some p);
                   ok = (missing = []);
                   detail = ''removed '' @ show_nat (length removed) @ '' rule(s), '' @
                            show_nat (length missing) @ '' missing''
               in \<lparr>ct_ok = ok,
                   ct_out =
                     (case fmt of
                        FmtTable \<Rightarrow>
                          map (\<lambda>r. Stdout (''Removed ['' @ show_nat (unat (lr_id r)) @ ''] '' @ lr_exe r @
                                           '' -> '' @ display (lr_object r) @ newline)) removed @
                          (if missing = [] then []
                           else [Stderr (''filewallctl: no rule with id '' @
                                  join_with '', '' (map (\<lambda>id. show_nat (unat id)) missing) @ newline)])
                      | _ \<Rightarrow>
                          [print_ack ce \<lparr>ak_ok = ok, ak_pid = pid, ak_detail = detail,
                             ak_removed = map lr_id removed, ak_missing = missing\<rparr> fmt]),
                   ct_files = fm', ct_hups = hups_of hup\<rparr>)))"

definition cmd_reload :: "ctl_env \<Rightarrow> file_map \<Rightarrow> path \<Rightarrow> format \<Rightarrow> ctl_result" where
  "cmd_reload ce fm pidfile fmt =
     (case send_sighup ce fm pidfile of
        Inr pid \<Rightarrow>
          \<lparr>ct_ok = True,
           ct_out = [case fmt of
                       FmtTable \<Rightarrow> Stdout (''Sent SIGHUP to filewalld (pid '' @ show_int pid @ '')'' @ newline)
                     | _ \<Rightarrow> print_ack ce \<lparr>ak_ok = True, ak_pid = Some pid, ak_detail = ''sent SIGHUP'',
                              ak_removed = [], ak_missing = []\<rparr> fmt],
           ct_files = fm, ct_hups = [pid]\<rparr>
      | Inl e \<Rightarrow>
          \<lparr>ct_ok = False,
           ct_out = [case fmt of
                       FmtTable \<Rightarrow> Stderr (''filewallctl: reload failed: '' @ e @ newline)
                     | _ \<Rightarrow> print_ack ce \<lparr>ak_ok = False, ak_pid = None, ak_detail = ''reload failed: '' @ e,
                              ak_removed = [], ak_missing = []\<rparr> fmt],
           ct_files = fm, ct_hups = []\<rparr>)"

definition status_report_of :: "ctl_env \<Rightarrow> file_map \<Rightarrow> path \<Rightarrow> status_report" where
  "status_report_of ce fm pidfile =
     (case read_to_string fm pidfile of
        Inl _ \<Rightarrow> \<lparr>sr_running = False, sr_pid = None, sr_state = ''no-pidfile''\<rparr>
      | Inr text \<Rightarrow>
          (case parse_pidfile text of
             None \<Rightarrow> \<lparr>sr_running = False, sr_pid = None, sr_state = ''bad-pidfile''\<rparr>
           | Some pid \<Rightarrow>
               (case classify_liveness (ce_probe ce pid) of
                  Running \<Rightarrow> \<lparr>sr_running = True, sr_pid = Some pid, sr_state = ''running''\<rparr>
                | Stale \<Rightarrow> \<lparr>sr_running = False, sr_pid = Some pid, sr_state = ''stale''\<rparr>
                | Unknown _ \<Rightarrow> \<lparr>sr_running = False, sr_pid = Some pid, sr_state = ''unknown''\<rparr>)))"

definition cmd_status :: "ctl_env \<Rightarrow> file_map \<Rightarrow> path \<Rightarrow> format \<Rightarrow> ctl_result" where
  "cmd_status ce fm pidfile fmt =
     (let report = status_report_of ce fm pidfile;
          pid = show_int (case sr_pid report of None \<Rightarrow> 0 | Some p \<Rightarrow> p)
      in (case fmt of
            FmtTable \<Rightarrow>
              \<lparr>ct_ok = sr_running report,
               ct_out = [Stdout (''filewalld: '' @
                 (if sr_state report = ''running'' then ''running (pid '' @ pid @ '')''
                  else if sr_state report = ''stale'' then ''not running (stale pid '' @ pid @ '')''
                  else if sr_state report = ''no-pidfile'' then ''not running (no pidfile)''
                  else if sr_state report = ''bad-pidfile'' then ''unknown (bad pidfile)''
                  else sr_state report @ '' (pid '' @ pid @ '')'') @ newline)],
               ct_files = fm, ct_hups = []\<rparr>
          | _ \<Rightarrow>
              (case emit_with (ce_status_out ce) report fmt of
                 Inr s \<Rightarrow> \<lparr>ct_ok = sr_running report, ct_out = [Stdout (s @ newline)], ct_files = fm,
                           ct_hups = []\<rparr>
               | Inl e \<Rightarrow> \<lparr>ct_ok = False, ct_out = [render_failed e], ct_files = fm, ct_hups = []\<rparr>)))"

definition fetch_dump :: "ctl_env \<Rightarrow> path \<Rightarrow> dump_response io_result" where
  "fetch_dump ce sock =
     (case ce_connect ce sock of
        Inl e \<Rightarrow> Inl e
      | Inr stream \<Rightarrow>
          (case write_msg_capped sock_write sock_flush (ce_enc_request ce) max_control_msg_len Dump stream of
             (Inl e, _) \<Rightarrow> Inl e
           | (Inr _, stream1) \<Rightarrow>
               fst (read_msg_capped sock_read (ce_dec_dump ce) max_control_msg_len stream1)))"

definition emit_error :: "ctl_env \<Rightarrow> format \<Rightarrow> string \<Rightarrow> printed" where
  "emit_error ce fmt msg =
     (case fmt of
        FmtTable \<Rightarrow> Stderr (''filewallctl: '' @ msg @ newline)
      | _ \<Rightarrow>
          (case emit_with (ce_error_out ce) msg fmt of
             Inr s \<Rightarrow> Stderr (s @ newline)
           | Inl _ \<Rightarrow> Stderr (''filewallctl: '' @ msg @ newline)))"

definition cmd_dump :: "ctl_env \<Rightarrow> file_map \<Rightarrow> path \<Rightarrow> format \<Rightarrow> ctl_result" where
  "cmd_dump ce fm sock fmt =
     (case fetch_dump ce sock of
        Inr resp \<Rightarrow>
          (case fmt of
             FmtTable \<Rightarrow> \<lparr>ct_ok = True, ct_out = [Stdout (dump_table resp)], ct_files = fm, ct_hups = []\<rparr>
           | _ \<Rightarrow>
               (case emit_with (ce_dump_out ce) resp fmt of
                  Inr s \<Rightarrow> \<lparr>ct_ok = True, ct_out = [Stdout (s @ newline)], ct_files = fm, ct_hups = []\<rparr>
                | Inl e \<Rightarrow> \<lparr>ct_ok = False, ct_out = [render_failed e], ct_files = fm, ct_hups = []\<rparr>))
      | Inl e \<Rightarrow>
          \<lparr>ct_ok = False,
           ct_out = [emit_error ce fmt (''could not query daemon on '' @ display sock @ '' ('' @
             ce_show_io ce e @ ''); is filewalld running?'')],
           ct_files = fm, ct_hups = []\<rparr>)"

section \<open>Dispatch\<close>

definition default_rules :: path where "default_rules = ''/var/lib/filewall/rules.toml''"
definition default_pidfile :: path where "default_pidfile = ''/run/filewall/filewalld.pid''"
definition default_control_sock :: path where "default_control_sock = ''/run/filewall/control.sock''"

definition usage_text :: string where
  "usage_text =
     ''usage:'' @ newline @
     ''  filewallctl [--json|--yaml|--table] <command>'' @ newline @ newline @
     ''commands:'' @ newline @
     ''  list   [rules_path]      Print learned rules'' @ newline @
     ''  dump   [control_socket]  Print objects the daemon is protecting'' @ newline @
     ''  remove <id> [id...]      Remove rules by stable id, then SIGHUP the daemon'' @ newline @
     ''  reload [pidfile]         Send SIGHUP to the running daemon'' @ newline @
     ''  status [pidfile]         Report whether the daemon is running'' @ newline"

definition usage :: "file_map \<Rightarrow> printed list \<Rightarrow> ctl_result" where
  "usage fm out = \<lparr>ct_ok = False, ct_out = out @ [Stderr usage_text], ct_files = fm, ct_hups = []\<rparr>"

definition arg_or :: "string list \<Rightarrow> path \<Rightarrow> path" where
  "arg_or args d = (case drop 1 args of [] \<Rightarrow> d | a # _ \<Rightarrow> a)"

definition parse_ids :: "string list \<Rightarrow> unit + u64 list" where
  "parse_ids args =
     collect_results (map (\<lambda>s. case parse_unsigned 64 s of None \<Rightarrow> Inl () | Some n \<Rightarrow> Inr (of_nat n)) args)"

definition ctl_main :: "ctl_env \<Rightarrow> file_map \<Rightarrow> string list \<Rightarrow> ctl_result" where
  "ctl_main ce fm raw =
     (let (fmt, args) = parse_format raw
      in (case args of
            [] \<Rightarrow> usage fm []
          | cmd # rest \<Rightarrow>
              if cmd = ''dump'' then cmd_dump ce fm (arg_or args default_control_sock) fmt
              else if cmd = ''list'' then cmd_list ce fm (arg_or args default_rules) fmt
              else if cmd = ''remove'' then
                (case parse_ids rest of
                   Inr ids \<Rightarrow>
                     if ids \<noteq> [] then cmd_remove ce fm ids default_rules default_pidfile fmt
                     else usage fm [Stderr (''filewallctl: remove needs one or more numeric <id>'' @ newline)]
                 | Inl _ \<Rightarrow>
                     usage fm [Stderr (''filewallctl: remove needs one or more numeric <id>'' @ newline)])
              else if cmd = ''reload'' then cmd_reload ce fm (arg_or args default_pidfile) fmt
              else if cmd = ''status'' then cmd_status ce fm (arg_or args default_pidfile) fmt
              else usage fm []))"

section \<open>Lemmas\<close>

lemma retain_loop_eq:
  "retain_loop ids acc rs =
     (filter (\<lambda>r. lr_id r \<notin> set ids) rs, acc @ filter (\<lambda>r. lr_id r \<in> set ids) rs)"
  by (induction rs arbitrary: acc) auto

lemma remove_ids_eq:
  "remove_ids rs ids =
     (rs\<lparr>rs_rules := filter (\<lambda>r. lr_id r \<notin> set ids) (rs_rules rs)\<rparr>,
      filter (\<lambda>r. lr_id r \<in> set ids) (rs_rules rs),
      filter (\<lambda>i. i \<notin> lr_id ` set (rs_rules rs)) ids)"
proof -
  have "filter (\<lambda>i. \<not> list_ex (\<lambda>r. lr_id r = i) (filter (\<lambda>r. lr_id r \<in> set ids) (rs_rules rs))) ids =
        filter (\<lambda>i. i \<notin> lr_id ` set (rs_rules rs)) ids"
    by (rule filter_cong) (auto simp: list_ex_iff)
  then show ?thesis
    by (simp add: remove_ids_def retain_loop_eq)
qed

lemma rules_inv_remove:
  "rules_inv rs \<Longrightarrow> rules_inv (fst (remove_ids rs ids))"
  by (auto simp: rules_inv_def remove_ids_eq distinct_map_filter)

lemma parse_format_loop_eq:
  "parse_format_loop fmt rest as =
     (case filter (\<lambda>a. a \<in> {''--json'', ''--yaml'', ''--table''}) as of
        [] \<Rightarrow> fmt
      | fs \<Rightarrow> (if last fs = ''--json'' then FmtJson else if last fs = ''--yaml'' then FmtYaml else FmtTable),
      rest @ filter (\<lambda>a. a \<notin> {''--json'', ''--yaml'', ''--table''}) as)"
  by (induction fmt rest as rule: parse_format_loop.induct) (auto split: list.split)

lemma parse_pidfile_written:
  "unat pid < 2 ^ 31 \<Longrightarrow> parse_pidfile (show_nat (unat (pid :: u32)) @ newline) = Some (int (unat pid))"
  using parse_signed_show [of 32 "unat pid"] trim_newline [OF _ show_nat_digits, of "unat pid"]
  by (simp add: parse_pidfile_def)

lemma emit_other_files:
  "ct_files (cmd_list ce fm path fmt) = fm" "ct_hups (cmd_list ce fm path fmt) = []"
  "ct_files (cmd_status ce fm path fmt) = fm" "ct_hups (cmd_status ce fm path fmt) = []"
  "ct_files (cmd_dump ce fm path fmt) = fm" "ct_hups (cmd_dump ce fm path fmt) = []"
  "ct_files (cmd_reload ce fm path fmt) = fm"
  "ct_hups (cmd_reload ce fm path fmt) = hups_of (send_sighup ce fm path)"
  by (simp_all add: cmd_list_def cmd_status_def cmd_dump_def cmd_reload_def hups_of_def Let_def
      split: format.split sum.split)

lemma cmd_remove_nothing:
  assumes "fst (snd (remove_ids (rules_load (ce_rules_from_toml ce) fm rules_path) ids)) = []"
  shows "ct_files (cmd_remove ce fm ids rules_path pidfile fmt) = fm"
    and "ct_hups (cmd_remove ce fm ids rules_path pidfile fmt) = []"
    and "ct_ok (cmd_remove ce fm ids rules_path pidfile fmt) \<longleftrightarrow> ids = []"
proof -
  have none: "filter (\<lambda>r. lr_id r \<in> set ids) (rs_rules (rules_load (ce_rules_from_toml ce) fm rules_path)) = []"
    using assms by (simp add: remove_ids_eq)
  show "ct_files (cmd_remove ce fm ids rules_path pidfile fmt) = fm"
    and "ct_hups (cmd_remove ce fm ids rules_path pidfile fmt) = []"
    using none by (simp_all add: cmd_remove_def remove_ids_eq Let_def after_save_def hups_of_def)
  have "filter (\<lambda>i. i \<notin> lr_id ` set (rs_rules (rules_load (ce_rules_from_toml ce) fm rules_path))) ids = [] \<longleftrightarrow> ids = []"
    using none by (cases ids) (auto simp: filter_empty_conv)
  then show "ct_ok (cmd_remove ce fm ids rules_path pidfile fmt) \<longleftrightarrow> ids = []"
    using none by (simp add: cmd_remove_def remove_ids_eq Let_def after_save_def)
qed

text \<open>The file a removal leaves, and when it succeeds.\<close>

lemma cmd_remove_file:
  assumes "file_name rules_path \<noteq> Some (tmp_name (ce_save ce))"
    and "remove_ids (rules_load (ce_rules_from_toml ce) fm rules_path) ids = (rules, removed, missing)"
    and "removed \<noteq> []"
  shows "ct_files (cmd_remove ce fm ids rules_path pidfile fmt) (components rules_path) =
      (if is_ok (fst (save_atomic (ce_rules_to_toml ce) (ce_save ce) rules rules_path fm))
       then ce_rules_to_toml ce rules else fm (components rules_path))"
    and "ct_ok (cmd_remove ce fm ids rules_path pidfile fmt) \<longleftrightarrow>
      is_ok (fst (save_atomic (ce_rules_to_toml ce) (ce_save ce) rules rules_path fm)) \<and> missing = []"
proof -
  let ?s = "save_atomic (ce_rules_to_toml ce) (ce_save ce) rules rules_path fm"
  have "ct_files (cmd_remove ce fm ids rules_path pidfile fmt) = after_save ?s fm"
    using assms(2,3) by (cases "fst ?s") (simp_all add: cmd_remove_def Let_def)
  then show "ct_files (cmd_remove ce fm ids rules_path pidfile fmt) (components rules_path) =
      (if is_ok (fst ?s) then ce_rules_to_toml ce rules else fm (components rules_path))"
    using save_result [OF assms(1)] by simp
  show "ct_ok (cmd_remove ce fm ids rules_path pidfile fmt) \<longleftrightarrow> is_ok (fst ?s) \<and> missing = []"
    using assms(2,3) by (cases "fst ?s") (simp_all add: cmd_remove_def Let_def)
qed

text \<open>
  The width of a column is a number of bytes, what it is padded to a number of characters: a cell of
  one character in three bytes under a one letter header makes a column of three.
\<close>

lemma multibyte_cells_widen_columns:
  "column_widths [''A''] [[[CHR 0xE2, CHR 0x80, CHR 0xA6]]] = [3]"
  "char_count [CHR 0xE2, CHR 0x80, CHR 0xA6] = 1" "length (pad_to 3 [CHR 0xE2, CHR 0x80, CHR 0xA6]) = 5"
  by code_simp+

section \<open>Properties\<close>

text \<open>
  Removing by id takes out exactly the rules with a requested id and leaves the others in their
  order; what is reported missing is exactly the requested ids no rule has; the set stays
  well-formed, and a rule that is learned next gets none of the old ids, removed ones included.
\<close>

theorem removal_is_exact:
  assumes "rules_inv rs"
  shows "let (rs', removed, missing) = remove_ids rs ids
   in rs_rules rs' = filter (\<lambda>r. lr_id r \<notin> set ids) (rs_rules rs) \<and>
      removed = filter (\<lambda>r. lr_id r \<in> set ids) (rs_rules rs) \<and>
      missing = filter (\<lambda>i. i \<notin> lr_id ` set (rs_rules rs)) ids \<and>
      rules_inv rs' \<and>
      (\<forall>r. lr_id (last (rs_rules (rules_push r rs'))) \<notin> lr_id ` set (rs_rules rs))"
proof -
  have "rules_inv (fst (remove_ids rs ids))"
    by (rule rules_inv_remove [OF assms])
  moreover have "lr_id q < max (rs_next_id rs) 1" if "q \<in> set (rs_rules rs)" for q
    using assms that by (auto simp: rules_inv_def less_max_iff_disj)
  then have "max (rs_next_id rs) 1 \<notin> lr_id ` set (rs_rules rs)"
    using order.irrefl by fastforce
  ultimately show ?thesis
    by (simp add: remove_ids_eq rules_push_simps)
qed

theorem removal_is_exact_witness:
  "snd (remove_ids \<lparr>rs_next_id = 8, rs_rules = [demo_rule 3 RuleAllow ''/a'' KindFile,
      demo_rule 7 RuleDeny ''/b'' KindTree]\<rparr> [7, 9]) = ([demo_rule 7 RuleDeny ''/b'' KindTree], [9])"
proof -
  have "rules_inv \<lparr>rs_next_id = 8, rs_rules = [demo_rule 3 RuleAllow ''/a'' KindFile,
      demo_rule 7 RuleDeny ''/b'' KindTree]\<rparr>"
    by (simp add: rules_inv_def demo_rule_def)
  from removal_is_exact [OF this, of "[7, 9]"] show ?thesis
    by (auto simp: Let_def case_prod_beta prod_eq_iff) (simp_all add: demo_rule_def)
qed

text \<open>
  C32: the remove command rewrites the rule file only when the file holds a rule with a requested id.
  Then the file holds afterwards exactly the rules with another id, in their order and with the id
  counter unchanged, or is as it was, when writing failed. The command succeeds exactly when that
  worked and every requested id was the id of a rule. The other commands never touch a file, and
  only remove and reload send a signal.
\<close>

theorem remove_command_writes_the_rest:
  assumes "file_name rules_path \<noteq> Some (tmp_name (ce_save ce))"
    and "rs = rules_load (ce_rules_from_toml ce) fm rules_path"
    and "rest = \<lparr>rs_next_id = rs_next_id rs, rs_rules = filter (\<lambda>r. lr_id r \<notin> set ids) (rs_rules rs)\<rparr>"
    and "written \<longleftrightarrow> is_ok (fst (save_atomic (ce_rules_to_toml ce) (ce_save ce) rest rules_path fm))"
  shows "((\<exists>r \<in> set (rs_rules rs). lr_id r \<in> set ids) \<longrightarrow>
      ct_files (cmd_remove ce fm ids rules_path pidfile fmt) (components rules_path) =
        (if written then ce_rules_to_toml ce rest else fm (components rules_path)) \<and>
      (ct_ok (cmd_remove ce fm ids rules_path pidfile fmt) \<longleftrightarrow>
        written \<and> (\<forall>i \<in> set ids. \<exists>r \<in> set (rs_rules rs). lr_id r = i))) \<and>
    (\<not> (\<exists>r \<in> set (rs_rules rs). lr_id r \<in> set ids) \<longrightarrow>
      ct_files (cmd_remove ce fm ids rules_path pidfile fmt) = fm \<and>
      ct_hups (cmd_remove ce fm ids rules_path pidfile fmt) = [] \<and>
      (ct_ok (cmd_remove ce fm ids rules_path pidfile fmt) \<longleftrightarrow> ids = [])) \<and>
    ct_files (cmd_list ce fm p fmt) = fm \<and> ct_files (cmd_status ce fm p fmt) = fm \<and>
    ct_files (cmd_dump ce fm p fmt) = fm \<and> ct_files (cmd_reload ce fm p fmt) = fm \<and>
    ct_hups (cmd_list ce fm p fmt) @ ct_hups (cmd_status ce fm p fmt) @ ct_hups (cmd_dump ce fm p fmt) = []"
proof (intro conjI impI)
  let ?hit = "\<exists>r \<in> set (rs_rules rs). lr_id r \<in> set ids"
  have rest: "rs\<lparr>rs_rules := filter (\<lambda>r. lr_id r \<notin> set ids) (rs_rules rs)\<rparr> = rest"
    by (simp add: assms(3))
  have "remove_ids (rules_load (ce_rules_from_toml ce) fm rules_path) ids =
      (rest, filter (\<lambda>r. lr_id r \<in> set ids) (rs_rules rs), filter (\<lambda>i. i \<notin> lr_id ` set (rs_rules rs)) ids)"
    unfolding assms(2) [symmetric] remove_ids_eq rest by simp
  note after = cmd_remove_file [OF assms(1) this, of pidfile fmt, folded assms(4)]
  show "ct_files (cmd_remove ce fm ids rules_path pidfile fmt) (components rules_path) =
      (if written then ce_rules_to_toml ce rest else fm (components rules_path))" if ?hit
    using after(1) that by (auto simp: filter_empty_conv)
  have "(filter (\<lambda>i. i \<notin> lr_id ` set (rs_rules rs)) ids = []) \<longleftrightarrow>
      (\<forall>i \<in> set ids. \<exists>r \<in> set (rs_rules rs). lr_id r = i)"
    by (auto simp: filter_empty_conv)
  then show "ct_ok (cmd_remove ce fm ids rules_path pidfile fmt) \<longleftrightarrow>
      written \<and> (\<forall>i \<in> set ids. \<exists>r \<in> set (rs_rules rs). lr_id r = i)" if ?hit
    using after(2) that by (auto simp: filter_empty_conv)
  have idle: "fst (snd (remove_ids (rules_load (ce_rules_from_toml ce) fm rules_path) ids)) = []" if "\<not> ?hit"
    using that assms(2) by (auto simp: remove_ids_eq filter_empty_conv)
  show "ct_files (cmd_remove ce fm ids rules_path pidfile fmt) = fm" if "\<not> ?hit"
    by (rule cmd_remove_nothing(1) [OF idle [OF that]])
  show "ct_hups (cmd_remove ce fm ids rules_path pidfile fmt) = []" if "\<not> ?hit"
    by (rule cmd_remove_nothing(2) [OF idle [OF that]])
  show "ct_ok (cmd_remove ce fm ids rules_path pidfile fmt) \<longleftrightarrow> ids = []" if "\<not> ?hit"
    by (rule cmd_remove_nothing(3) [OF idle [OF that]])
qed (simp_all add: emit_other_files)

definition demo_ctl :: ctl_env where
  "demo_ctl = \<lparr>ce_rules_to_toml = (\<lambda>_. Some ''new''), ce_rules_from_toml =
     (\<lambda>_. Some \<lparr>rs_next_id = 8, rs_rules = [demo_rule 7 RuleDeny ''/b'' KindTree]\<rparr>), ce_save = demo_save_env,
     ce_hup = (\<lambda>_. None), ce_probe = (\<lambda>_. None), ce_connect = (\<lambda>_. Inl NotFound),
     ce_enc_request = (\<lambda>_. Inr []), ce_dec_dump = (\<lambda>_. None), ce_rules_out = (\<lambda>_ _. Inr []),
     ce_ack_out = (\<lambda>_ _. Inr []), ce_status_out = (\<lambda>_ _. Inr []), ce_dump_out = (\<lambda>_ _. Inr []),
     ce_error_out = (\<lambda>_ _. Inr []), ce_show_io = (\<lambda>_. []), ce_show_errno = (\<lambda>_. [])\<rparr>"

theorem remove_command_writes_the_rest_witness:
  "ct_files (cmd_remove demo_ctl (\<lambda>_. Some ''old'') [7] ''/r.toml'' ''/p'' FmtTable) (components ''/r.toml'') =
     Some ''new'' \<and> ct_ok (cmd_remove demo_ctl (\<lambda>_. Some ''old'') [7] ''/r.toml'' ''/p'' FmtTable)"
proof -
  let ?fm = "\<lambda>_. Some ''old''" and ?rs = "\<lparr>rs_next_id = 8, rs_rules = [demo_rule 7 RuleDeny ''/b'' KindTree]\<rparr>"
  have load: "?rs = rules_load (ce_rules_from_toml demo_ctl) ?fm ''/r.toml''"
    by (rule sym, simp add: rules_load_def read_to_string_def demo_ctl_def ascii_valid_utf8 ascii_def)
      (rule backfill_idle, simp_all add: rules_inv_def demo_rule_def)
  have name: "file_name ''/r.toml'' \<noteq> Some (tmp_name (ce_save demo_ctl))"
    by (simp add: tmp_name_def) code_simp
  have "is_ok (fst (save_atomic (ce_rules_to_toml demo_ctl) (ce_save demo_ctl) rs' ''/r.toml'' ?fm))" for rs'
    by (simp add: save_atomic_def demo_ctl_def demo_save_env_def fs_write_def is_ok_def Let_def)
  then have saved: "True \<longleftrightarrow>
      is_ok (fst (save_atomic (ce_rules_to_toml demo_ctl) (ce_save demo_ctl) rs' ''/r.toml'' ?fm))" for rs'
    by simp
  show ?thesis
    using remove_command_writes_the_rest [OF name load refl saved, of "[7]" "''/p''" FmtTable]
    by (simp add: demo_rule_def demo_ctl_def)
qed

text \<open>
  The format flags count wherever they stand, the last one wins, the table is the default, and
  the other arguments reach the command in their order.
\<close>

theorem format_flags_anywhere:
  "snd (parse_format args) = filter (\<lambda>a. a \<notin> {''--json'', ''--yaml'', ''--table''}) args \<and>
   fst (parse_format args) =
     (case filter (\<lambda>a. a \<in> {''--json'', ''--yaml'', ''--table''}) args of
        [] \<Rightarrow> FmtTable
      | fs \<Rightarrow> (if last fs = ''--json'' then FmtJson else if last fs = ''--yaml'' then FmtYaml else FmtTable))"
  by (simp add: parse_format_def parse_format_loop_eq)

text \<open>
  What the pidfile holds is signalled as it is, negative numbers included: with -1 in it, a
  reload sends SIGHUP to every process the caller may signal, and status calls -1 running.
\<close>

theorem pidfile_number_is_trusted:
  assumes "read_to_string fm pidfile = Inr ''-1''" and "ce_hup ce (- 1) = None" and "ce_probe ce (- 1) = None"
  shows "ct_hups (cmd_reload ce fm pidfile fmt) = [- 1] \<and>
    sr_running (status_report_of ce fm pidfile) \<and> sr_pid (status_report_of ce fm pidfile) = Some (- 1)"
proof -
  have "trim ''-1'' = ''-1''"
    by code_simp
  then have "parse_pidfile ''-1'' = Some (- 1)"
    by (simp add: parse_pidfile_def parse_signed_def parse_digits_def is_digit_def digit_val_def)
  then show ?thesis
    using assms by (simp add: emit_other_files send_sighup_def hups_of_def status_report_of_def classify_liveness_def)
qed

theorem pidfile_number_is_trusted_witness:
  "ct_hups (cmd_reload demo_ctl (\<lambda>_. Some ''-1'') ''/p'' FmtTable) = [- 1]"
proof -
  have "read_to_string (\<lambda>_. Some ''-1'') ''/p'' = Inr ''-1''"
    by (simp add: read_to_string_def ascii_valid_utf8 ascii_def)
  then show ?thesis
    using pidfile_number_is_trusted [of "\<lambda>_. Some ''-1''" "''/p''" demo_ctl FmtTable]
    by (simp add: demo_ctl_def)
qed

end
