(* ===== verification/FW_Ui.thy ===== *)
theory FW_Ui
  imports FW_Server
begin

text \<open>
  What the two prompt helpers (\<open>filewall-ui\<close>, \<open>filewall-ui-iced\<close>) have in common: the loop that
  reads a request, gets an answer and writes it back, the connection loop around it, and the
  shortening of paths under the home directory. Where the answer comes from is an argument.
\<close>

section \<open>State\<close>

text \<open>The JSON decoder and encoder of the two messages, as the helpers use them.\<close>

record helper_codec =
  hc_dec_request :: "bytes \<Rightarrow> prompt_request option"
  hc_enc_response :: "prompt_response \<Rightarrow> bytes io_result"

text \<open>How a serving loop ends: the link dropped, or the program is to stop.\<close>

datatype flow = Continue | Break

section \<open>Serving one connection\<close>

text \<open>
  Each request takes at least the four bytes of its length from what arrives, so the loop over one
  connection ends.
\<close>

lemma read_msg_consumes:
  "read_msg sock_read dec s = (Inr req, s') \<Longrightarrow>
   length (arriving (sk_in s')) < length (arriving (sk_in s))"
  using receiving.read_msg_only_frames [of dec max_msg_len s req s']
  by (auto simp: read_msg_def frame_def)

lemma write_msg_in': "write_msg sock_write sock_flush enc m s = (r, s') \<Longrightarrow> sk_in s' = sk_in s"
  by (simp add: write_msg_def write_msg_in)

function serve_with ::
    "helper_codec \<Rightarrow> (nat \<Rightarrow> prompt_request \<Rightarrow> decision option) \<Rightarrow> nat \<Rightarrow> socket \<Rightarrow> flow \<times> socket" where
  "serve_with hc answer i stream =
     (case read_msg sock_read (hc_dec_request hc) stream of
        (Inl e, stream1) \<Rightarrow> (Continue, stream1)
      | (Inr req, stream1) \<Rightarrow>
          (case answer i req of
             None \<Rightarrow> (Break, stream1)
           | Some d \<Rightarrow>
               (case write_msg sock_write sock_flush (hc_enc_response hc) \<lparr>pp_decision = d\<rparr> stream1 of
                  (Inl e, stream2) \<Rightarrow> (Continue, stream2)
                | (Inr _, stream2) \<Rightarrow> serve_with hc answer (Suc i) stream2)))"
  by pat_completeness auto
termination
  by (relation "measure (\<lambda>(hc, answer, i, stream). length (arriving (sk_in stream)))")
    (auto dest!: write_msg_in' [OF sym] dest: read_msg_consumes [OF sym])

declare serve_with.simps [simp del]

section \<open>Connecting\<close>

text \<open>
  \<open>connect_forever\<close> on the results of its attempts, one a second: the connection and the attempts
  that are left, or nothing while none has succeeded.
\<close>

fun connect_forever :: "socket io_result list \<Rightarrow> (socket \<times> socket io_result list) option" where
  "connect_forever [] = None"
| "connect_forever (Inr s # tries) = Some (s, tries)"
| "connect_forever (Inl e # tries) = connect_forever tries"

lemma connect_forever_shorter:
  "connect_forever tries = Some (s, rest) \<Longrightarrow> length rest < length tries"
  by (induction tries rule: connect_forever.induct) auto

lemma connect_forever_iff:
  "connect_forever tries = Some (s, rest) \<longleftrightarrow>
     (\<exists>failed. tries = map Inl failed @ Inr s # rest)"
proof (induction tries rule: connect_forever.induct)
  case (3 e tries)
  then show ?case
    by (auto simp: Cons_eq_append_conv Cons_eq_map_conv)
qed (auto simp: Cons_eq_append_conv Cons_eq_map_conv append_eq_Cons_conv)

section \<open>Paths under the home directory\<close>

definition abbrev :: "string \<Rightarrow> string \<Rightarrow> string" where
  "abbrev path home =
     (if home = [] then path
      else if path = home then ''~''
      else if prefix home path \<and> prefix ''/'' (drop (length home) path)
        then ''~'' @ drop (length home) path
      else path)"

text \<open>Only the home directory itself and what is below it are shortened.\<close>

lemma abbrev_cases:
  "abbrev path home = path \<or>
   (home \<noteq> [] \<and> (\<exists>rest. path = home @ rest \<and> abbrev path home = ''~'' @ rest \<and>
      (rest = [] \<or> prefix ''/'' rest)))"
  by (auto simp: abbrev_def prefix_def)

section \<open>What a served connection is answered\<close>

lemma read_msg_next:
  assumes "arriving (sk_in s) = frame body @ rest" and "length body \<le> unat max_msg_len"
    and "dec body = Some m"
  shows "\<exists>s'. read_msg sock_read dec s = (Inr m, s') \<and> arriving (sk_in s') = rest \<and>
    sk_out s' = sk_out s \<and> sk_room s' = sk_room s"
proof -
  obtain s' where s': "read_msg_capped sock_read dec max_msg_len s = (Inr m, s')" "arriving (sk_in s') = rest"
    using receiving.read_msg_frame [where from_slice = dec, OF assms(1,2,3)] by blast
  then show ?thesis
    using read_msg_out [OF s'(1)] read_msg_room [OF s'(1)] by (auto simp: read_msg_def)
qed


lemma read_msg_nothing:
  assumes "arriving (sk_in s) = []"
  shows "\<exists>e s'. read_msg sock_read dec s = (Inl e, s') \<and> sk_out s' = sk_out s"
proof (cases "read_msg sock_read dec s")
  case (Pair r s')
  then have "sk_out s' = sk_out s"
    using read_msg_out by (auto simp: read_msg_def)
  moreover have "\<not> (\<exists>m. r = Inr m)"
    using read_msg_consumes [of dec s _ s'] Pair assms by auto
  ultimately show ?thesis
    using Pair by (cases r) auto
qed

lemma serve_with_next:
  assumes "arriving (sk_in s) = frame body @ rest" and "length body \<le> unat max_msg_len"
    and "hc_dec_request hc body = Some req" and "answer i req = Some d"
    and "hc_enc_response hc \<lparr>pp_decision = d\<rparr> = Inr out" and "length out \<le> unat max_msg_len"
    and "sk_room s = None"
  shows "\<exists>s'. serve_with hc answer i s = serve_with hc answer (Suc i) s' \<and> arriving (sk_in s') = rest \<and>
    sk_out s' = sk_out s @ frame out \<and> sk_room s' = None"
proof -
  obtain s1 where s1: "read_msg sock_read (hc_dec_request hc) s = (Inr req, s1)" "arriving (sk_in s1) = rest"
    "sk_out s1 = sk_out s" "sk_room s1 = None"
    using read_msg_next [where dec = "hc_dec_request hc", OF assms(1-3)] assms(7) by auto
  have "serve_with hc answer i s = serve_with hc answer (Suc i) (s1\<lparr>sk_out := sk_out s1 @ frame out\<rparr>)"
    using s1(1,4) assms(4) write_msg_fits [where enc = "hc_enc_response hc", OF assms(5,6) s1(4)]
    by (subst serve_with.simps) simp
  with s1 show ?thesis by auto
qed

lemma serve_with_end:
  assumes "arriving (sk_in s) = []"
  shows "fst (serve_with hc answer i s) = Continue \<and> sk_out (snd (serve_with hc answer i s)) = sk_out s"
  using read_msg_nothing [OF assms, of "hc_dec_request hc"]
  by (subst (1 2) serve_with.simps) auto

text \<open>The replies to a sequence of requests, with the position each has on the connection.\<close>

fun replies :: "(prompt_response \<Rightarrow> bytes) \<Rightarrow> (nat \<Rightarrow> prompt_request \<Rightarrow> decision) \<Rightarrow> nat \<Rightarrow> prompt_request list \<Rightarrow> bytes" where
  "replies enc ans i [] = []"
| "replies enc ans i (req # reqs) = frame (enc \<lparr>pp_decision = ans i req\<rparr>) @ replies enc ans (Suc i) reqs"

lemma serve_with_break:
  assumes "arriving (sk_in s) = frame body @ rest" and "length body \<le> unat max_msg_len"
    and "hc_dec_request hc body = Some req" and "answer i req = None"
  shows "fst (serve_with hc answer i s) = Break \<and> sk_out (snd (serve_with hc answer i s)) = sk_out s"
  using read_msg_next [where dec = "hc_dec_request hc", OF assms(1-3)] assms(4)
  by (subst (1 2) serve_with.simps) auto

text \<open>How many requests are answered before the first that is not.\<close>

fun answered :: "(nat \<Rightarrow> prompt_request \<Rightarrow> decision option) \<Rightarrow> nat \<Rightarrow> prompt_request list \<Rightarrow> nat" where
  "answered answer i [] = 0"
| "answered answer i (req # reqs) =
     (if answer i req = None then 0 else Suc (answered answer (Suc i) reqs))"

lemma answered_all: "(\<And>i req. answer i req \<noteq> None) \<Longrightarrow> answered answer i reqs = length reqs"
  by (induction reqs arbitrary: i) auto

text \<open>
  What the loop needs to know of where the answers come from: when there is one, it is the decision
  of this position and request. The client lemma is the behaviour of the loop on a connection.
\<close>

locale answerer =
  fixes answer :: "nat \<Rightarrow> prompt_request \<Rightarrow> decision option"
    and ans :: "nat \<Rightarrow> prompt_request \<Rightarrow> decision"
  assumes answer_law: "answer i req \<noteq> None \<Longrightarrow> answer i req = Some (ans i req)"
begin

lemma served:
  assumes "list_all2 (\<lambda>body req. length body \<le> unat max_msg_len \<and> hc_dec_request hc body = Some req) bodies reqs"
    and "arriving (sk_in s) = concat (map frame bodies)" and "sk_room s = None"
    and "\<And>resp. hc_enc_response hc resp = Inr (enc resp) \<and> length (enc resp) \<le> unat max_msg_len"
  shows "fst (serve_with hc answer i s) = (if answered answer i reqs = length reqs then Continue else Break) \<and>
    sk_out (snd (serve_with hc answer i s)) =
      sk_out s @ replies enc ans i (take (answered answer i reqs) reqs)"
  using assms(1-3)
proof (induction bodies reqs arbitrary: i s rule: list_all2_induct)
  case Nil
  then show ?case using serve_with_end [of s hc answer i] by simp
next
  case (Cons body bodies req reqs)
  have arr: "arriving (sk_in s) = frame body @ concat (map frame bodies)"
    using Cons.prems by simp
  show ?case
  proof (cases "answer i req = None")
    case True
    then show ?thesis
      using serve_with_break [OF arr, of hc req answer i] Cons.hyps(1) by simp
  next
    case False
    then have "answer i req = Some (ans i req)"
      by (rule answer_law)
    then obtain s' where "serve_with hc answer i s = serve_with hc answer (Suc i) s'"
      "arriving (sk_in s') = concat (map frame bodies)"
      "sk_out s' = sk_out s @ frame (enc \<lparr>pp_decision = ans i req\<rparr>)" "sk_room s' = None"
      using serve_with_next [OF arr, of hc req answer i "ans i req"] Cons.hyps(1) assms(4) Cons.prems(2) by blast
    then show ?thesis
      using Cons.IH [of s' "Suc i"] False by auto
  qed
qed

end

end
