(* ===== verification/FW_Yad.thy ===== *)
theory FW_Yad
  imports FW_Ui
begin

text \<open>
  The prompt helper that shows yad dialogs (\<open>filewall-ui/src/main.rs\<close>): the markup of the dialog,
  the call of yad, the meaning of its exit code. The program yad is a parameter: from its arguments
  to its exit code, or the error of starting it.
\<close>

section \<open>The text of the dialog\<close>

text \<open>\<open>s.replace(c, r)\<close> for a character; the three that occur are single bytes of UTF-8.\<close>

definition replace_char :: "char \<Rightarrow> string \<Rightarrow> string \<Rightarrow> string" where
  "replace_char c r s = concat (map (\<lambda>x. if x = c then r else [x]) s)"

definition pango_escape :: "string \<Rightarrow> string" where
  "pango_escape s =
     replace_char (CHR ''>'') ''&gt;'' (replace_char (CHR ''<'') ''&lt;'' (replace_char (CHR ''&'') ''&amp;'' s))"

text \<open>U+300C, U+300D, U+2014, U+26A0, U+2026 and U+00B7 in UTF-8.\<close>

definition left_bracket :: string where "left_bracket = [CHR 0xE3, CHR 0x80, CHR 0x8C]"
definition right_bracket :: string where "right_bracket = [CHR 0xE3, CHR 0x80, CHR 0x8D]"
definition em_dash :: string where "em_dash = [CHR 0xE2, CHR 0x80, CHR 0x94]"
definition warning_sign :: string where "warning_sign = [CHR 0xE2, CHR 0x9A, CHR 0xA0]"
definition ellipsis :: string where "ellipsis = [CHR 0xE2, CHR 0x80, CHR 0xA6]"
definition middle_dot :: string where "middle_dot = [CHR 0xC2, CHR 0xB7]"

definition proc_name_of :: "string \<Rightarrow> string" where
  "proc_name_of exe = (case file_name exe of Some n \<Rightarrow> display n | None \<Rightarrow> exe)"

definition cmdline_or_note :: "string \<Rightarrow> string" where
  "cmdline_or_note cmdline = (if cmdline = [] then ''<unavailable>'' else cmdline)"

definition quote_mark :: string where "quote_mark = [CHR 0x22]"

text \<open>The start tag of the red warning.\<close>

definition red_span :: string where
  "red_span = ''<span foreground='' @ quote_mark @ ''#cc0000'' @ quote_mark @ ''>''"

definition scope_block :: "bool \<Rightarrow> string \<Rightarrow> string" where
  "scope_block tree object =
     (if tree then
        red_span @ ''<b>'' @ left_bracket @ ''Always allow'' @ right_bracket @
        '' GRANTS ACCESS TO ALL FILES</b></span>'' @ newline @
        red_span @ ''    under '' @ object @ '' '' @ em_dash @
        '' every subfolder, not just the file above.</span>''
      else
        left_bracket @ ''Always allow'' @ right_bracket @ '' remembers only this one file:'' @ newline @
        ''    '' @ object)"

definition cwd_line :: "bool \<Rightarrow> string \<Rightarrow> string" where
  "cwd_line pinned cwd =
     (if pinned then newline @ ellipsis @ ''and only while it runs from '' @ cwd else [])"

definition build_dialog_text :: "prompt_request \<Rightarrow> string \<Rightarrow> string" where
  "build_dialog_text req home =
     (let esc = (\<lambda>s. pango_escape (abbrev s home));
          proc_name = pango_escape (proc_name_of (pr_exe req));
          exe = esc (pr_exe req);
          path = esc (pr_path req);
          object = esc (pr_always_object req);
          cwd = esc (pr_cwd req);
          cmdline = pango_escape (cmdline_or_note (pr_cmdline req))
      in ''<b>'' @ warning_sign @ ''  filewall '' @ em_dash @ '' sensitive file access</b>'' @ newline @ newline @
         ''<b>'' @ proc_name @ ''</b> wants to open:'' @ newline @ ''    '' @ path @ newline @ newline @
         scope_block (pr_always_tree req) object @ newline @ newline @
         ''Rule is tied to this program:'' @ newline @ ''    '' @ exe @
         cwd_line (pr_always_cwd_pinned req) cwd @ newline @ newline @
         ''<small>PID '' @ show_nat (unat (pr_pid req)) @ '' '' @ middle_dot @ '' cmd: '' @ cmdline @ ''</small>'')"

section \<open>Asking\<close>

definition classify :: "int option \<Rightarrow> decision" where
  "classify code =
     (case code of
        None \<Rightarrow> DenyOnce
      | Some n \<Rightarrow>
          if n = 10 then AllowOnce else if n = 12 then AllowAlways else if n = 13 then DenyAlways
          else DenyOnce)"

definition always_buttons :: "bool \<Rightarrow> string \<times> string" where
  "always_buttons tree =
     (if tree then (''Always allow ALL:12'', ''Always deny ALL:13'')
      else (''Always allow file:12'', ''Always deny file:13''))"

definition yad_args :: "prompt_request \<Rightarrow> string \<Rightarrow> string list" where
  "yad_args req text_arg =
     (let (allow_always, deny_always) = always_buttons (pr_always_tree req)
      in [''--title=filewall security prompt'', ''--width=520'', ''--image=dialog-warning'',
          ''--text'', text_arg,
          ''--button=Deny once:11'', ''--button=Allow once:10'',
          ''--button='' @ deny_always, ''--button='' @ allow_always])"

text \<open>\<open>$HOME\<close> when it is set (and is text), and yad.\<close>

record yad_env =
  ye_home :: "string option"
  ye_run :: "string list \<Rightarrow> int option io_result"

definition ask :: "yad_env \<Rightarrow> prompt_request \<Rightarrow> decision" where
  "ask ye req =
     (let home = (case ye_home ye of None \<Rightarrow> [] | Some h \<Rightarrow> h)
      in (case ye_run ye (yad_args req (build_dialog_text req home)) of
            Inr code \<Rightarrow> classify code
          | Inl e \<Rightarrow> DenyOnce))"

section \<open>Serving\<close>

text \<open>The surroundings of the dialogs, one for each request of the connection.\<close>

definition yad_serve :: "helper_codec \<Rightarrow> (nat \<Rightarrow> yad_env) \<Rightarrow> socket \<Rightarrow> socket" where
  "yad_serve hc yes stream = snd (serve_with hc (\<lambda>i req. Some (ask (yes i) req)) 0 stream)"

text \<open>
  The loop of \<open>main\<close> on the results of the connection attempts: the connections it served, as it
  left them.
\<close>

function yad_main :: "helper_codec \<Rightarrow> (nat \<Rightarrow> nat \<Rightarrow> yad_env) \<Rightarrow> nat \<Rightarrow> socket io_result list \<Rightarrow> socket list" where
  "yad_main hc yes k tries =
     (case connect_forever tries of
        None \<Rightarrow> []
      | Some (stream, rest) \<Rightarrow> yad_serve hc (yes k) stream # yad_main hc yes (Suc k) rest)"
  by pat_completeness auto
termination
  by (relation "measure (\<lambda>(hc, yes, k, tries). length tries)") (auto dest: connect_forever_shorter)

declare yad_main.simps [simp del]

definition yad_default_socket :: path where "yad_default_socket = ''/run/filewall/prompt.sock''"

definition yad_socket_of :: "string list \<Rightarrow> path" where
  "yad_socket_of args = (case drop 1 args of [] \<Rightarrow> yad_default_socket | a # _ \<Rightarrow> a)"

section \<open>How markup is read\<close>

text \<open>
  The reading of the markup that the dialog's text is written in: the tags in order, and the text
  that is shown. Text that is not well-formed has no reading.
\<close>

datatype markup_state = InText | InTag string | InEntity string

definition entity :: "string \<Rightarrow> char option" where
  "entity e =
     (if e = ''amp'' then Some (CHR ''&'') else if e = ''lt'' then Some (CHR ''<'')
      else if e = ''gt'' then Some (CHR ''>'') else None)"

definition tagged :: "string \<Rightarrow> (string list \<times> string) option \<Rightarrow> (string list \<times> string) option" where
  "tagged t = map_option (apfst (Cons t))"

definition shown :: "string \<Rightarrow> (string list \<times> string) option \<Rightarrow> (string list \<times> string) option" where
  "shown s = map_option (apsnd (append s))"

fun markup :: "markup_state \<Rightarrow> string \<Rightarrow> (string list \<times> string) option" where
  "markup InText [] = Some ([], [])"
| "markup (InTag t) [] = None"
| "markup (InEntity e) [] = None"
| "markup InText (c # s) =
     (if c = CHR ''<'' then markup (InTag []) s
      else if c = CHR ''&'' then markup (InEntity []) s
      else shown [c] (markup InText s))"
| "markup (InTag t) (c # s) =
     (if c = CHR ''>'' then tagged t (markup InText s) else markup (InTag (t @ [c])) s)"
| "markup (InEntity e) (c # s) =
     (if c = CHR '';''
      then (case entity e of None \<Rightarrow> None | Some x \<Rightarrow> shown [x] (markup InText s))
      else markup (InEntity (e @ [c])) s)"

lemma shown_shown [simp]: "shown s (shown t x) = shown (s @ t) x"
  by (cases x) (auto simp: shown_def)

lemma shown_nil [simp]: "shown [] x = x"
  by (cases x) (auto simp: shown_def)

lemma shown_tagged [simp]: "shown s (tagged t x) = tagged t (shown s x)"
  by (cases x) (auto simp: shown_def tagged_def)

lemma reading_Some [simp]:
  "shown s (Some (ts, v)) = Some (ts, s @ v)" "tagged t (Some (ts, v)) = Some (t # ts, v)"
  by (simp_all add: shown_def tagged_def)

lemma pango_escape_Nil [simp]: "pango_escape [] = []"
  by (simp add: pango_escape_def replace_char_def)

lemma pango_escape_Cons:
  "pango_escape (c # s) =
     (if c = CHR ''&'' then ''&amp;'' else if c = CHR ''<'' then ''&lt;''
      else if c = CHR ''>'' then ''&gt;'' else [c]) @ pango_escape s"
  by (simp add: pango_escape_def replace_char_def)

text \<open>What was escaped is shown as it is.\<close>

lemma markup_escaped: "markup InText (pango_escape s @ r) = shown s (markup InText r)"
  by (induction s) (auto simp: pango_escape_Cons entity_def)

lemma markup_plain:
  "list_all (\<lambda>c. c \<noteq> CHR ''<'' \<and> c \<noteq> CHR ''&'') s \<Longrightarrow> markup InText (s @ r) = shown s (markup InText r)"
  by (induction s) auto

lemma markup_number: "markup InText (show_nat n @ r) = shown (show_nat n) (markup InText r)"
  using show_nat_digits [of n]
  by (intro markup_plain) (auto simp: list_all_iff is_digit_def)

lemmas markup_parts = markup_escaped markup_number

text \<open>What the reader of a dialog is to see, with every field as it is.\<close>

definition dialog_shown :: "prompt_request \<Rightarrow> string \<Rightarrow> string" where
  "dialog_shown req home =
     warning_sign @ ''  filewall '' @ em_dash @ '' sensitive file access'' @ newline @ newline @
     proc_name_of (pr_exe req) @ '' wants to open:'' @ newline @
     ''    '' @ abbrev (pr_path req) home @ newline @ newline @
     (if pr_always_tree req then
        left_bracket @ ''Always allow'' @ right_bracket @ '' GRANTS ACCESS TO ALL FILES'' @ newline @
        ''    under '' @ abbrev (pr_always_object req) home @ '' '' @ em_dash @
        '' every subfolder, not just the file above.''
      else
        left_bracket @ ''Always allow'' @ right_bracket @ '' remembers only this one file:'' @ newline @
        ''    '' @ abbrev (pr_always_object req) home) @ newline @ newline @
     ''Rule is tied to this program:'' @ newline @ ''    '' @ abbrev (pr_exe req) home @
     (if pr_always_cwd_pinned req
      then newline @ ellipsis @ ''and only while it runs from '' @ abbrev (pr_cwd req) home else []) @
     newline @ newline @ ''PID '' @ show_nat (unat (pr_pid req)) @ '' '' @ middle_dot @ '' cmd: '' @
     cmdline_or_note (pr_cmdline req)"

definition dialog_tags :: "bool \<Rightarrow> string list" where
  "dialog_tags tree =
     [''b'', ''/b'', ''b'', ''/b''] @
     (let span = ''span foreground='' @ quote_mark @ ''#cc0000'' @ quote_mark
      in if tree then [span, ''b'', ''/b'', ''/span'', span, ''/span''] else []) @
     [''small'', ''/small'']"

lemmas dialog_literals = warning_sign_def em_dash_def ellipsis_def middle_dot_def left_bracket_def
  right_bracket_def quote_mark_def newline_def red_span_def

lemma markup_scope_block:
  "markup InText (scope_block tree (pango_escape object) @ r) =
     (if tree then
        (let span = ''span foreground='' @ quote_mark @ ''#cc0000'' @ quote_mark
         in tagged span (tagged ''b'' (tagged ''/b'' (tagged ''/span'' (tagged span (tagged ''/span''
              (shown (left_bracket @ ''Always allow'' @ right_bracket @ '' GRANTS ACCESS TO ALL FILES'' @ newline @
                ''    under '' @ object @ '' '' @ em_dash @ '' every subfolder, not just the file above.'')
                (markup InText r))))))))
      else shown (left_bracket @ ''Always allow'' @ right_bracket @ '' remembers only this one file:'' @ newline @
             ''    '' @ object) (markup InText r))"
  by (simp add: scope_block_def dialog_literals markup_parts Let_def)

lemma markup_cwd_line:
  "markup InText (cwd_line pinned (pango_escape cwd) @ r) =
     shown (if pinned then newline @ ellipsis @ ''and only while it runs from '' @ cwd else []) (markup InText r)"
  by (simp add: cwd_line_def dialog_literals markup_parts)

lemma markup_dialog:
  "markup InText (build_dialog_text req home) = Some (dialog_tags (pr_always_tree req), dialog_shown req home)"
  unfolding build_dialog_text_def dialog_shown_def dialog_tags_def Let_def
  by (simp add: markup_parts markup_scope_block markup_cwd_line Let_def,
      simp add: warning_sign_def em_dash_def middle_dot_def newline_def markup_parts markup_scope_block
        markup_cwd_line Let_def)

section \<open>Properties\<close>

lemma ask_allows_iff:
  "decision_allows (ask ye req) \<longleftrightarrow>
     ye_run ye (yad_args req (build_dialog_text req (case ye_home ye of None \<Rightarrow> [] | Some h \<Rightarrow> h)))
       \<in> {Inr (Some 10), Inr (Some 12)}"
  by (auto simp: ask_def classify_def decision_allows_def Let_def split: sum.splits option.splits)

interpretation dialogs: answerer "\<lambda>i req. Some (ask (yes i) req)" "\<lambda>i. ask (yes i)"
  for yes :: "nat \<Rightarrow> yad_env"
  by unfold_locales simp

lemma yad_serve_all:
  assumes "list_all2 (\<lambda>body req. length body \<le> unat max_msg_len \<and> hc_dec_request hc body = Some req) bodies reqs"
    and "arriving (sk_in s) = concat (map frame bodies)" and "sk_room s = None"
    and "\<And>resp. hc_enc_response hc resp = Inr (enc resp) \<and> length (enc resp) \<le> unat max_msg_len"
  shows "sk_out (yad_serve hc yes s) = sk_out s @ replies enc (\<lambda>i. ask (yes i)) 0 reqs"
  using dialogs.served [OF assms, of yes 0] by (simp add: yad_serve_def answered_all)

text \<open>
  C21: the dialog cannot be spoofed by what a program or a file is called: read as markup, its text
  has exactly the tags of the layout, which depend on nothing but whether the grant is for a tree,
  and it shows the program, the path, the scope, the directory and the command line literally.
\<close>

theorem markup_shows_fields_literally:
  "markup InText (build_dialog_text req home) = Some (dialog_tags (pr_always_tree req), dialog_shown req home)"
  by (rule markup_dialog)

text \<open>
  The yad helper answers every request of a connection, in order and one frame each, with what
  its dialog gave, and it allows an access exactly when yad ended with the code of one of the two
  allow buttons: an error of starting yad, a signal, Escape or any other code denies.
\<close>

theorem yad_serves_every_prompt:
  assumes "list_all2 (\<lambda>body req. length body \<le> unat max_msg_len \<and> hc_dec_request hc body = Some req) bodies reqs"
    and "arriving (sk_in s) = concat (map frame bodies)" and "sk_room s = None"
    and "\<And>resp. hc_enc_response hc resp = Inr (enc resp) \<and> length (enc resp) \<le> unat max_msg_len"
  shows "sk_out (yad_serve hc yes s) = sk_out s @ replies enc (\<lambda>i. ask (yes i)) 0 reqs \<and>
    (\<forall>i req. decision_allows (ask (yes i) req) \<longleftrightarrow>
       ye_run (yes i) (yad_args req
         (build_dialog_text req (case ye_home (yes i) of None \<Rightarrow> [] | Some h \<Rightarrow> h)))
         \<in> {Inr (Some 10), Inr (Some 12)})"
  using yad_serve_all [OF assms] by (simp add: ask_allows_iff)

definition demo_helper_codec :: helper_codec where
  "demo_helper_codec =
     \<lparr>hc_dec_request = (\<lambda>bs. if bs = [1] then Some (demo_request ''/a'') else None),
      hc_enc_response = (\<lambda>resp. Inr [if decision_allows (pp_decision resp) then 2 else 3])\<rparr>"

theorem yad_serves_every_prompt_witness:
  "sk_out (yad_serve demo_helper_codec
     (\<lambda>i. \<lparr>ye_home = None, ye_run = (\<lambda>_. if i = 0 then Inr (Some 10) else Inl NotFound)\<rparr>)
     (demo_link [Data [0, 0, 0, 1, 1, 0, 0, 0, 1, 1]])) = [0, 0, 0, 1, 2, 0, 0, 0, 1, 3]"
proof -
  let ?enc = "\<lambda>resp :: prompt_response. [if decision_allows (pp_decision resp) then 2 else 3 :: u8]"
  let ?yes = "\<lambda>i. \<lparr>ye_home = None, ye_run = (\<lambda>_. if i = (0 :: nat) then Inr (Some 10) else Inl NotFound)\<rparr>"
  have "sk_out (yad_serve demo_helper_codec ?yes (demo_link [Data [0, 0, 0, 1, 1, 0, 0, 0, 1, 1]])) =
      sk_out (demo_link [Data [0, 0, 0, 1, 1, 0, 0, 0, 1, 1]]) @
      replies ?enc (\<lambda>i. ask (?yes i)) 0 [demo_request ''/a'', demo_request ''/a'']"
    by (rule yad_serves_every_prompt [where bodies = "[[1], [1]]", THEN conjunct1])
      (simp_all add: demo_helper_codec_def demo_link_def demo_frame max_msg_len_def)
  also have "\<dots> = [0, 0, 0, 1, 2, 0, 0, 0, 1, 3]"
    by (simp add: demo_link_def demo_frame ask_def classify_def decision_allows_def Let_def)
  finally show ?thesis .
qed

end
