(* ===== verification/FW_Iced.thy ===== *)
theory FW_Iced
  imports FW_Yad
begin

text \<open>
  The native prompt helper (\<open>filewall-ui-iced\<close>): what a prompt shows, the application driven by the
  messages of the toolkit, and the worker thread that owns the socket. The toolkit, the clock and
  the session bus are parameters: the messages that arrive, the time of each, what a call of the
  portal answers, the identity of a window that is opened.
\<close>

section \<open>The light or dark theme\<close>

datatype theme = CatppuccinMocha | CatppuccinLatte

definition fallback_theme :: theme where "fallback_theme = CatppuccinLatte"

definition theme_from_scheme :: "u32 \<Rightarrow> theme" where
  "theme_from_scheme scheme =
     (if scheme = 1 then CatppuccinMocha else if scheme = 2 then CatppuccinLatte else fallback_theme)"

text \<open>A D-Bus value, as far as the helper looks into it.\<close>

datatype variant = VU32 u32 | VValue variant | VOther

fun unwrap_u32 :: "variant \<Rightarrow> u32 option" where
  "unwrap_u32 (VU32 n) = Some n"
| "unwrap_u32 (VValue inner) = unwrap_u32 inner"
| "unwrap_u32 VOther = None"

text \<open>What the portal answers to a method, if the call and the decoding of its reply succeed.\<close>

fun read_scheme_loop :: "(string \<Rightarrow> variant option) \<Rightarrow> string list \<Rightarrow> u32 option" where
  "read_scheme_loop call [] = None"
| "read_scheme_loop call (meth # ms) =
     (case call meth of
        None \<Rightarrow> read_scheme_loop call ms
      | Some val \<Rightarrow> (case unwrap_u32 val of Some n \<Rightarrow> Some n | None \<Rightarrow> read_scheme_loop call ms))"

definition read_scheme :: "(string \<Rightarrow> variant option) \<Rightarrow> u32 option" where
  "read_scheme call = read_scheme_loop call [''ReadOne'', ''Read'']"

definition detect :: "(string \<Rightarrow> variant option) \<Rightarrow> theme option" where
  "detect call = map_option theme_from_scheme (read_scheme call)"

section \<open>What a prompt shows\<close>

datatype scope = ScopeFile | ScopeTree

record prompt_view =
  pv_proc_name :: string
  pv_path :: string
  pv_exe :: string
  pv_object :: string
  pv_cwd :: string
  pv_cmdline :: string
  pv_pid :: u32
  pv_scope :: scope
  pv_cwd_pinned :: bool

definition max_field :: nat where "max_field = 400"

definition cap :: "string \<Rightarrow> string" where
  "cap s = (if char_count s \<le> max_field then s else take_chars max_field s @ ellipsis)"

definition iced_abbrev :: "string \<Rightarrow> string \<Rightarrow> string" where
  "iced_abbrev path home =
     (if home = [] then path
      else if path = home then ''~''
      else if prefix home path
        then (let rest = drop (length home) path in if prefix ''/'' rest then ''~'' @ rest else path)
      else path)"

text \<open>The copy of \<open>abbrev\<close> in this helper has not drifted from the original.\<close>

lemma iced_abbrev_eq: "iced_abbrev path home = abbrev path home"
  by (simp add: iced_abbrev_def abbrev_def Let_def)

definition view_build :: "prompt_request \<Rightarrow> string \<Rightarrow> prompt_view" where
  "view_build req home =
     (let esc = (\<lambda>s. cap (iced_abbrev s home));
          proc_name = (case file_name (pr_exe req) of Some n \<Rightarrow> display n | None \<Rightarrow> pr_exe req);
          cmdline = (if pr_cmdline req = [] then ''<unavailable>'' else cap (pr_cmdline req))
      in \<lparr>pv_proc_name = cap proc_name, pv_path = esc (pr_path req), pv_exe = esc (pr_exe req),
          pv_object = esc (pr_always_object req), pv_cwd = esc (pr_cwd req), pv_cmdline = cmdline,
          pv_pid = pr_pid req, pv_scope = (if pr_always_tree req then ScopeTree else ScopeFile),
          pv_cwd_pinned = pr_always_cwd_pinned req\<rparr>)"

definition allow_always_label :: "prompt_view \<Rightarrow> string" where
  "allow_always_label v = (case pv_scope v of ScopeTree \<Rightarrow> ''Always allow ALL'' | ScopeFile \<Rightarrow> ''Always allow file'')"

definition deny_always_label :: "prompt_view \<Rightarrow> string" where
  "deny_always_label v = (case pv_scope v of ScopeTree \<Rightarrow> ''Always deny ALL'' | ScopeFile \<Rightarrow> ''Always deny file'')"

section \<open>The application\<close>

text \<open>Instants are nanoseconds of the monotonic clock.\<close>

type_synonym instant = nat
type_synonym window_id = nat

record pending =
  pe_view :: prompt_view
  pe_deadline :: instant
  pe_remaining_s :: nat

record app =
  ap_decision_tx :: bool                \<comment> \<open>whether the worker's channel has been handed over\<close>
  ap_pending :: "pending option"
  ap_window :: "window_id option"
  ap_theme :: theme
  ap_portal :: bool

datatype message =
    WorkerReady
  | PromptMsg prompt_request
  | WindowOpened window_id
  | Decide decision
  | DenyMsg
  | Tick

text \<open>What the toolkit is asked to do.\<close>

datatype task = TaskNone | OpenWindow window_id | CloseWindow window_id

text \<open>What an update finds: the time, \<open>$HOME\<close>, the portal, the configured fallback, the next window.\<close>

record gui_env =
  ge_now :: instant
  ge_home :: string
  ge_portal :: "string \<Rightarrow> variant option"
  ge_fallback_ms :: "u32 option"
  ge_window :: window_id

definition default_fallback_ms :: u32 where "default_fallback_ms = 90000"

definition app_new :: "(string \<Rightarrow> variant option) option \<Rightarrow> app" where
  "app_new portal =
     \<lparr>ap_decision_tx = False, ap_pending = None, ap_window = None,
      ap_theme = (case portal of None \<Rightarrow> fallback_theme
                  | Some call \<Rightarrow> (case detect call of None \<Rightarrow> fallback_theme | Some t \<Rightarrow> t)),
      ap_portal = (portal \<noteq> None)\<rparr>"

text \<open>The next state, the decisions sent to the worker, and the task that is returned.\<close>

definition app_resolve :: "decision \<Rightarrow> app \<Rightarrow> app \<times> decision list \<times> task" where
  "app_resolve d app =
     (if ap_pending app = None then (app, [], TaskNone)
      else
        (app\<lparr>ap_pending := None, ap_window := None\<rparr>,
         (if ap_decision_tx app then [d] else []),
         (case ap_window app of Some w \<Rightarrow> CloseWindow w | None \<Rightarrow> TaskNone)))"

definition effective_ms :: "prompt_request \<Rightarrow> u32 \<Rightarrow> u32" where
  "effective_ms req fallback = (if 0 < pr_ui_timeout_ms req then pr_ui_timeout_ms req else fallback)"

definition app_update :: "gui_env \<Rightarrow> message \<Rightarrow> app \<Rightarrow> app \<times> decision list \<times> task" where
  "app_update ge msg app =
     (case msg of
        WorkerReady \<Rightarrow> (app\<lparr>ap_decision_tx := True\<rparr>, [], TaskNone)
      | PromptMsg req \<Rightarrow>
          (let (app1, sent, _) = app_resolve DenyOnce app;
               app2 = (if ap_portal app1
                       then (case detect (ge_portal ge) of
                               Some t \<Rightarrow> app1\<lparr>ap_theme := t\<rparr> | None \<Rightarrow> app1)
                       else app1);
               ms = unat (effective_ms req
                     (case ge_fallback_ms ge of Some f \<Rightarrow> f | None \<Rightarrow> default_fallback_ms))
           in (app2\<lparr>ap_pending := Some \<lparr>pe_view = view_build req (ge_home ge),
                                       pe_deadline = ge_now ge + ms * 1000000,
                                       pe_remaining_s = (ms + 999) div 1000\<rparr>,
                    ap_window := Some (ge_window ge)\<rparr>,
               sent, OpenWindow (ge_window ge)))
      | WindowOpened _ \<Rightarrow> (app, [], TaskNone)
      | Decide d \<Rightarrow> app_resolve d app
      | DenyMsg \<Rightarrow> app_resolve DenyOnce app
      | Tick \<Rightarrow>
          (case ap_pending app of
             None \<Rightarrow> (app, [], TaskNone)
           | Some p \<Rightarrow>
               if pe_deadline p \<le> ge_now ge then app_resolve DenyOnce app
               else (app\<lparr>ap_pending := Some (p\<lparr>pe_remaining_s :=
                            (pe_deadline p - ge_now ge) div 1000000000 + 1\<rparr>)\<rparr>, [], TaskNone)))"

section \<open>The window\<close>

datatype widget = Shown string | Button string message

definition scope_widgets :: "prompt_view \<Rightarrow> widget list" where
  "scope_widgets v =
     (case pv_scope v of
        ScopeTree \<Rightarrow>
          [Shown (quote_mark @ ''Always allow'' @ quote_mark @ '' GRANTS ACCESS TO ALL FILES''),
           Shown (''    under '' @ pv_object v @ '' '' @ em_dash @ '' every subfolder, not just the requested file.'')]
      | ScopeFile \<Rightarrow>
          [Shown (quote_mark @ ''Always allow'' @ quote_mark @ '' remembers only this one file:''),
           Shown (''    '' @ pv_object v)])"

definition app_view :: "app \<Rightarrow> widget list" where
  "app_view app =
     (case ap_pending app of
        None \<Rightarrow> [Shown []]
      | Some p \<Rightarrow>
          (let v = pe_view p;
               header = Shown (''filewall '' @ em_dash @ '' sensitive file access'');
               wants = [Shown (pv_proc_name v @ '' wants to open:''), Shown (pv_path v)];
               tied = [Shown ''Rule is tied to this program:'', Shown (''    '' @ pv_exe v)] @
                 (if pv_cwd_pinned v then [Shown (ellipsis @ ''and only while it runs from '' @ pv_cwd v)] else []);
               meta = Shown (''PID '' @ show_nat (unat (pv_pid v)) @ '' '' @ middle_dot @ '' cmd: '' @ pv_cmdline v);
               countdown = Shown (''auto-deny in '' @ show_nat (pe_remaining_s p) @ ''s'');
               buttons = [Button ''Deny once'' DenyMsg, Button ''Allow once'' (Decide AllowOnce),
                          Button (deny_always_label v) (Decide DenyAlways),
                          Button (allow_always_label v) (Decide AllowAlways)]
           in [header] @ scope_widgets v @ (wants @ tied @ [meta]) @ [countdown] @ buttons))"

text \<open>The events of the toolkit that are listened to, and when the clock ticks.\<close>

datatype key = Escape | Enter | OtherKey

datatype ui_event = CloseRequested | KeyPressed key | OtherEvent

definition event_message :: "ui_event \<Rightarrow> message option" where
  "event_message ev =
     (case ev of
        CloseRequested \<Rightarrow> Some DenyMsg
      | KeyPressed k \<Rightarrow> (case k of Escape \<Rightarrow> Some DenyMsg | Enter \<Rightarrow> Some DenyMsg | OtherKey \<Rightarrow> None)
      | OtherEvent \<Rightarrow> None)"

definition ticking :: "app \<Rightarrow> bool" where
  "ticking app \<longleftrightarrow> ap_pending app \<noteq> None"

section \<open>The worker\<close>

definition backstop_grace_ms :: nat where "backstop_grace_ms = 2000"

text \<open>
  The channels as the worker sees them for one request: the decisions that lie in the channel when
  the request comes, whether the application still takes requests, and what \<open>recv_timeout\<close> gives
  for a wait of so many milliseconds when the channel is empty.
\<close>

datatype reply = Got decision | Elapsed | Disconnected

record gui_port =
  gp_stale :: "decision list"
  gp_open :: bool
  gp_later :: "nat \<Rightarrow> reply"

fun drain :: "decision list \<Rightarrow> decision list" where
  "drain [] = []"
| "drain (d # ds) = drain ds"

definition recv_timeout :: "decision list \<Rightarrow> (nat \<Rightarrow> reply) \<Rightarrow> nat \<Rightarrow> reply" where
  "recv_timeout queue later wait = (case queue of d # _ \<Rightarrow> Got d | [] \<Rightarrow> later wait)"

definition worker_resolve :: "u32 \<Rightarrow> gui_port \<Rightarrow> prompt_request \<Rightarrow> decision option" where
  "worker_resolve fallback gp req =
     (let ms = effective_ms req fallback;
          queue = drain (gp_stale gp)
      in if \<not> gp_open gp then None
         else (case recv_timeout queue (gp_later gp) (unat ms + backstop_grace_ms) of
                 Got d \<Rightarrow> Some d
               | Elapsed \<Rightarrow> Some DenyOnce
               | Disconnected \<Rightarrow> None))"

definition worker_serve :: "helper_codec \<Rightarrow> u32 \<Rightarrow> (nat \<Rightarrow> gui_port) \<Rightarrow> socket \<Rightarrow> flow \<times> socket" where
  "worker_serve hc fallback gps stream =
     serve_with hc (\<lambda>i req. worker_resolve fallback (gps i) req) 0 stream"

text \<open>
  The attempts to connect, one a second, with the flag that keeps the log to one line: the connection,
  the attempts that are left and the number of lines logged, or nothing while none has succeeded.
\<close>

fun iced_connect ::
    "bool \<Rightarrow> socket io_result list \<Rightarrow> (socket \<times> socket io_result list \<times> nat) option" where
  "iced_connect logged [] = None"
| "iced_connect logged (Inr s # tries) = Some (s, tries, 0)"
| "iced_connect logged (Inl e # tries) =
     map_option (\<lambda>(s, rest, n). (s, rest, if logged then n else Suc n)) (iced_connect True tries)"

lemma iced_connect_logged: "iced_connect True tries = Some (s, rest, n) \<Longrightarrow> n = 0"
proof (induction tries arbitrary: s rest n)
  case (Cons t tries)
  then show ?case by (cases t) auto
qed simp

lemma iced_connect_eq:
  "map_option (\<lambda>(s, rest, n). (s, rest)) (iced_connect logged tries) = connect_forever tries"
  by (induction logged tries rule: iced_connect.induct)
    (auto simp: option.map_comp comp_def case_prod_unfold)

text \<open>A disconnected spell costs one line of the log, however long it is, and none if there is none.\<close>

lemma iced_connect_logs_once:
  assumes "iced_connect False tries = Some (s, rest, n)"
  shows "n = (if \<exists>e q. tries = Inl e # q then 1 else 0)"
proof (cases tries)
  case (Cons t q)
  then show ?thesis using assms by (cases t) (auto dest: iced_connect_logged)
qed (use assms in simp)

lemma iced_connect_shorter:
  assumes "iced_connect logged tries = Some (s, rest, n)"
  shows "length rest < length tries"
proof -
  have "connect_forever tries = Some (s, rest)"
    using assms iced_connect_eq [of logged tries] by simp
  then show ?thesis by (rule connect_forever_shorter)
qed

function run_socket ::
    "helper_codec \<Rightarrow> u32 \<Rightarrow> (nat \<Rightarrow> nat \<Rightarrow> gui_port) \<Rightarrow> nat \<Rightarrow> socket io_result list \<Rightarrow> socket list" where
  "run_socket hc fallback gps k tries =
     (case iced_connect False tries of
        None \<Rightarrow> []
      | Some (stream, rest, _) \<Rightarrow>
          (let (fl, stream') = worker_serve hc fallback (gps k) stream
           in stream' # (if fl = Break then [] else run_socket hc fallback gps (Suc k) rest)))"
  by pat_completeness auto
termination
  by (relation "measure (\<lambda>(hc, fallback, gps, k, tries). length tries)") (auto dest: iced_connect_shorter)

declare run_socket.simps [simp del]

section \<open>The command line\<close>

record worker_config =
  wk_socket :: path
  wk_fallback_ms :: u32
  wk_demo :: bool

definition saturating_seconds :: "nat \<Rightarrow> u32" where
  "saturating_seconds v = of_nat (min (v * 1000) (2 ^ 32 - 1))"

fun iced_args :: "string list \<Rightarrow> worker_config \<Rightarrow> worker_config" where
  "iced_args [] cfg = cfg"
| "iced_args (arg # args) cfg =
     (if arg = ''--demo'' then iced_args args (cfg\<lparr>wk_demo := True\<rparr>)
      else if arg = ''--fallback-timeout'' then
        (case args of
           [] \<Rightarrow> cfg
         | v # rest \<Rightarrow>
             iced_args rest
               (case parse_unsigned 32 v of
                  Some n \<Rightarrow> cfg\<lparr>wk_fallback_ms := saturating_seconds n\<rparr>
                | None \<Rightarrow> cfg))
      else if \<not> prefix ''-'' arg then iced_args args (cfg\<lparr>wk_socket := arg\<rparr>)
      else iced_args args cfg)"

definition iced_config :: "string list \<Rightarrow> worker_config" where
  "iced_config args =
     iced_args (drop 1 args)
       \<lparr>wk_socket = yad_default_socket, wk_fallback_ms = default_fallback_ms, wk_demo = False\<rparr>"

section \<open>What the worker answers\<close>

lemma drain_nil [simp]: "drain ds = []"
  by (induction ds) auto

text \<open>What comes within the wait, on an empty channel, and the decision made of it.\<close>

definition worker_wait :: "u32 \<Rightarrow> gui_port \<Rightarrow> prompt_request \<Rightarrow> reply" where
  "worker_wait fallback gp req = gp_later gp (unat (effective_ms req fallback) + backstop_grace_ms)"

definition worker_decision :: "u32 \<Rightarrow> (nat \<Rightarrow> gui_port) \<Rightarrow> nat \<Rightarrow> prompt_request \<Rightarrow> decision" where
  "worker_decision fallback gps i req = (case worker_wait fallback (gps i) req of Got d \<Rightarrow> d | _ \<Rightarrow> DenyOnce)"

lemma worker_resolve_eq:
  "worker_resolve fallback gp req =
     (if \<not> gp_open gp then None
      else (case worker_wait fallback gp req of Got d \<Rightarrow> Some d | Elapsed \<Rightarrow> Some DenyOnce | Disconnected \<Rightarrow> None))"
  by (simp add: worker_resolve_def recv_timeout_def worker_wait_def Let_def)

lemma worker_resolve_None:
  "worker_resolve fallback gp req = None \<longleftrightarrow> \<not> gp_open gp \<or> worker_wait fallback gp req = Disconnected"
  by (simp add: worker_resolve_eq split: reply.split)

interpretation worker_answers: answerer "\<lambda>i. worker_resolve fallback (gps i)" "worker_decision fallback gps"
  for fallback :: u32 and gps :: "nat \<Rightarrow> gui_port"
  by unfold_locales (auto simp: worker_resolve_eq worker_decision_def split: if_splits reply.splits)

end
