(* ===== verification/FW_Prompting.thy ===== *)
theory FW_Prompting
  imports FW_Iced
begin

text \<open>
  The native helper as a whole: the worker, the application, and the two channels between them, as a
  step relation. A flag says whether the worker's backstop timeout may fire. Two components of the
  state are there for the statements only: which request the window on screen shows, and the
  decisions that were given to it.
\<close>

section \<open>Steps\<close>

record helper =
  hp_app :: app
  hp_requests :: "prompt_request list"       \<comment> \<open>worker to application\<close>
  hp_decisions :: "decision list"            \<comment> \<open>application to worker\<close>
  hp_waiting :: "prompt_request option"      \<comment> \<open>the request \<open>resolve\<close> blocks on\<close>
  hp_answers :: "(prompt_request \<times> decision) list"
  hp_shown :: "prompt_request option"
  hp_given :: "(prompt_request \<times> decision) list"

text \<open>The messages that come from the user and from the clock, not from the worker.\<close>

definition user_message :: "message \<Rightarrow> bool" where
  "user_message m = (case m of WorkerReady \<Rightarrow> False | PromptMsg _ \<Rightarrow> False | _ \<Rightarrow> True)"

definition note_given :: "decision list \<Rightarrow> helper \<Rightarrow> helper" where
  "note_given sent hp =
     hp\<lparr>hp_decisions := hp_decisions hp @ sent,
        hp_given := hp_given hp @ (case hp_shown hp of None \<Rightarrow> [] | Some r \<Rightarrow> map (Pair r) sent)\<rparr>"

inductive helper_step :: "bool \<Rightarrow> helper \<Rightarrow> helper \<Rightarrow> bool" for late :: bool where
  step_take:
    "hp_waiting hp = None \<Longrightarrow>
     helper_step late hp
       (hp\<lparr>hp_waiting := Some req, hp_decisions := drain (hp_decisions hp),
          hp_requests := hp_requests hp @ [req]\<rparr>)"
| step_prompt:
    "hp_requests hp = req # q \<Longrightarrow> app_update ge (PromptMsg req) (hp_app hp) = (app', sent, task) \<Longrightarrow>
     helper_step late hp
       ((note_given sent hp)\<lparr>hp_app := app', hp_requests := q, hp_shown := Some req\<rparr>)"
| step_user:
    "user_message m \<Longrightarrow> app_update ge m (hp_app hp) = (app', sent, task) \<Longrightarrow>
     helper_step late hp
       ((note_given sent hp)\<lparr>hp_app := app',
          hp_shown := (if ap_pending app' = None then None else hp_shown hp)\<rparr>)"
| step_answer:
    "hp_waiting hp = Some req \<Longrightarrow> hp_decisions hp = d # ds \<Longrightarrow>
     helper_step late hp
       (hp\<lparr>hp_waiting := None, hp_decisions := ds, hp_answers := hp_answers hp @ [(req, d)]\<rparr>)"
| step_backstop:
    "late \<Longrightarrow> hp_waiting hp = Some req \<Longrightarrow> hp_decisions hp = [] \<Longrightarrow>
     helper_step late hp
       (hp\<lparr>hp_waiting := None, hp_answers := hp_answers hp @ [(req, DenyOnce)]\<rparr>)"

inductive_cases helper_stepE: "helper_step late hp hp'"

text \<open>The start: the channel has been handed over, nothing is on the way.\<close>

definition helper_start :: "app \<Rightarrow> helper" where
  "helper_start app =
     \<lparr>hp_app = fst (app_update undefined WorkerReady app), hp_requests = [], hp_decisions = [],
      hp_waiting = None, hp_answers = [], hp_shown = None, hp_given = []\<rparr>"

inductive helper_reach :: "bool \<Rightarrow> helper \<Rightarrow> bool" for late :: bool where
  reach_start: "helper_reach late (helper_start (app_new portal))"
| reach_step: "helper_reach late hp \<Longrightarrow> helper_step late hp hp' \<Longrightarrow> helper_reach late hp'"

section \<open>What an update sends\<close>

lemma app_resolve_cases:
  "app_resolve d app = (app', sent, task) \<Longrightarrow>
   (ap_pending app = None \<and> app' = app \<and> sent = []) \<or>
   (ap_pending app \<noteq> None \<and> app' = app\<lparr>ap_pending := None, ap_window := None\<rparr> \<and>
    sent = (if ap_decision_tx app then [d] else []))"
  by (auto simp: app_resolve_def split: if_splits)

text \<open>A prompt is put on screen; the one it replaces, if any, is denied.\<close>

lemma app_update_prompt:
  "app_update ge (PromptMsg req) app = (app', sent, task) \<Longrightarrow>
   ap_pending app' \<noteq> None \<and> ap_decision_tx app' = ap_decision_tx app \<and>
   sent = (if ap_pending app \<noteq> None \<and> ap_decision_tx app then [DenyOnce] else [])"
  by (auto simp: app_update_def app_resolve_def Let_def split: if_splits option.splits)

text \<open>A message of the user or the clock ends the prompt with one decision, or sends nothing.\<close>

lemma app_update_user:
  "user_message m \<Longrightarrow> app_update ge m app = (app', sent, task) \<Longrightarrow>
   ap_decision_tx app' = ap_decision_tx app \<and>
   (sent = [] \<and> (ap_pending app' = None \<longleftrightarrow> ap_pending app = None) \<or>
    ap_pending app \<noteq> None \<and> ap_pending app' = None \<and>
    (\<exists>d. sent = (if ap_decision_tx app then [d] else [])))"
  by (auto simp: app_update_def app_resolve_def user_message_def
      split: message.splits if_splits option.splits)

section \<open>The invariant without late answers\<close>

text \<open>
  The request the worker waits for is in exactly one place: in the channel to the application, on
  screen, or answered in the channel back.
\<close>

definition in_step :: "helper \<Rightarrow> bool" where
  "in_step hp \<longleftrightarrow>
     ap_decision_tx (hp_app hp) \<and> (hp_shown hp = None \<longleftrightarrow> ap_pending (hp_app hp) = None) \<and>
     (case hp_waiting hp of
        None \<Rightarrow> hp_requests hp = [] \<and> hp_shown hp = None \<and> hp_decisions hp = [] \<and>
          hp_given hp = hp_answers hp
      | Some req \<Rightarrow>
          (hp_requests hp, hp_shown hp, hp_decisions hp) \<in> {([req], None, []), ([], Some req, [])} \<and>
            hp_given hp = hp_answers hp \<or>
          (\<exists>d. (hp_requests hp, hp_shown hp, hp_decisions hp) = ([], None, [d]) \<and>
            hp_given hp = hp_answers hp @ [(req, d)]))"

lemma in_step_start: "in_step (helper_start (app_new portal))"
  by (simp add: in_step_def helper_start_def app_update_def app_new_def)

lemma in_step_step:
  assumes "helper_step False hp hp'" and "in_step hp"
  shows "in_step hp'"
  using assms(1)
proof (cases rule: helper_step.cases)
  case (step_take req)
  then show ?thesis using assms(2) by (auto simp: in_step_def)
next
  case (step_prompt req q ge app' sent task)
  then show ?thesis
    using assms(2) app_update_prompt [OF step_prompt(3)]
    by (auto simp: in_step_def note_given_def split: option.splits)
next
  case (step_user m ge app' sent task)
  then show ?thesis
    using assms(2) app_update_user [OF step_user(2,3)]
    by (auto simp: in_step_def note_given_def split: option.splits if_splits)
next
  case (step_answer req d ds)
  then show ?thesis using assms(2) by (auto simp: in_step_def)
qed simp

lemma in_step_reach: "helper_reach False hp \<Longrightarrow> in_step hp"
  by (induction rule: helper_reach.induct) (auto intro: in_step_start in_step_step)

section \<open>Every prompt, late answers or not\<close>

text \<open>
  The requests the worker took are, in order, those that were given a decision, the one on screen
  and those on the way to the application.
\<close>

definition in_order :: "helper \<Rightarrow> bool" where
  "in_order hp \<longleftrightarrow>
     ap_decision_tx (hp_app hp) \<and> (hp_shown hp = None \<longleftrightarrow> ap_pending (hp_app hp) = None) \<and>
     map fst (hp_answers hp) @ (case hp_waiting hp of None \<Rightarrow> [] | Some r \<Rightarrow> [r]) =
       map fst (hp_given hp) @ (case hp_shown hp of None \<Rightarrow> [] | Some r \<Rightarrow> [r]) @ hp_requests hp"

lemma in_order_step:
  assumes "helper_step late hp hp'" and "in_order hp"
  shows "in_order hp'"
  using assms(1)
proof (cases rule: helper_step.cases)
  case (step_take req)
  then show ?thesis using assms(2) by (auto simp: in_order_def)
next
  case (step_prompt req q ge app' sent task)
  then show ?thesis
    using assms(2) app_update_prompt [OF step_prompt(3)]
    by (auto simp: in_order_def note_given_def split: option.splits)
next
  case (step_user m ge app' sent task)
  then show ?thesis
    using assms(2) app_update_user [OF step_user(2,3)]
    by (auto simp: in_order_def note_given_def split: option.splits if_splits)
next
  case (step_answer req d ds)
  then show ?thesis using assms(2) by (auto simp: in_order_def)
next
  case (step_backstop req)
  then show ?thesis using assms(2) by (auto simp: in_order_def)
qed

lemma in_order_reach: "helper_reach late hp \<Longrightarrow> in_order hp"
proof (induction rule: helper_reach.induct)
  case (reach_start portal)
  then show ?case
    by (simp add: in_order_def helper_start_def app_update_def app_new_def)
qed (auto intro: in_order_step)

section \<open>Properties\<close>

text \<open>
  C11: in every run of the native helper each request of the daemon is shown and given a decision at
  most once, in the order of the requests; and as long as the worker's backstop does not fire, what
  is written back for a request is the decision that was given to its own prompt.
\<close>

theorem one_decision_per_prompt:
  assumes "helper_reach late hp"
  shows "map fst (hp_answers hp) @ (case hp_waiting hp of None \<Rightarrow> [] | Some r \<Rightarrow> [r]) =
      map fst (hp_given hp) @ (case hp_shown hp of None \<Rightarrow> [] | Some r \<Rightarrow> [r]) @ hp_requests hp \<and>
    (\<not> late \<longrightarrow> (\<exists>rest. hp_given hp = hp_answers hp @ rest \<and> length rest \<le> 1))"
proof
  show "map fst (hp_answers hp) @ (case hp_waiting hp of None \<Rightarrow> [] | Some r \<Rightarrow> [r]) =
      map fst (hp_given hp) @ (case hp_shown hp of None \<Rightarrow> [] | Some r \<Rightarrow> [r]) @ hp_requests hp"
    using in_order_reach [OF assms] by (simp add: in_order_def)
  show "\<not> late \<longrightarrow> (\<exists>rest. hp_given hp = hp_answers hp @ rest \<and> length rest \<le> 1)"
    using in_step_reach [of hp] assms by (cases late) (auto simp: in_step_def split: option.splits)
qed

definition demo_gui :: "nat \<Rightarrow> gui_env" where
  "demo_gui t = \<lparr>ge_now = t, ge_home = [], ge_portal = (\<lambda>_. None), ge_fallback_ms = None, ge_window = t\<rparr>"

text \<open>A prompt that is taken, shown, and answered by the user.\<close>

definition demo_taken :: "prompt_request \<Rightarrow> helper \<Rightarrow> helper" where
  "demo_taken r hp =
     hp\<lparr>hp_waiting := Some r, hp_decisions := drain (hp_decisions hp), hp_requests := hp_requests hp @ [r]\<rparr>"

definition demo_prompted :: "prompt_request \<Rightarrow> helper \<Rightarrow> helper" where
  "demo_prompted r hp =
     (let (app', sent, task) = app_update (demo_gui 0) (PromptMsg r) (hp_app hp)
      in (note_given sent hp)\<lparr>hp_app := app', hp_requests := [], hp_shown := Some r\<rparr>)"

definition demo_clicked :: "decision \<Rightarrow> helper \<Rightarrow> helper" where
  "demo_clicked d hp =
     (let (app', sent, task) = app_update (demo_gui 0) (Decide d) (hp_app hp)
      in (note_given sent hp)\<lparr>hp_app := app',
           hp_shown := (if ap_pending app' = None then None else hp_shown hp)\<rparr>)"

lemma demo_prompted_step: "hp_requests hp = [r] \<Longrightarrow> helper_step late hp (demo_prompted r hp)"
  by (cases "app_update (demo_gui 0) (PromptMsg r) (hp_app hp)")
    (auto simp: demo_prompted_def intro: step_prompt)

lemma demo_clicked_step: "helper_step late hp (demo_clicked d hp)"
proof -
  obtain app' sent task where u: "app_update (demo_gui 0) (Decide d) (hp_app hp) = (app', sent, task)"
    by (cases "app_update (demo_gui 0) (Decide d) (hp_app hp)")
  have "user_message (Decide d)"
    by (simp add: user_message_def)
  from step_user [OF this u] show ?thesis
    unfolding demo_clicked_def u Let_def prod.case .
qed

lemma demo_taken_step: "hp_waiting hp = None \<Longrightarrow> helper_step late hp (demo_taken r hp)"
  unfolding demo_taken_def by (rule step_take)

lemmas demo_helper_defs = demo_taken_def demo_prompted_def demo_clicked_def helper_start_def
  app_update_def app_resolve_def app_new_def note_given_def

theorem one_decision_per_prompt_witness:
  "\<exists>hp. helper_reach False hp \<and> hp_given hp = [(demo_request ''/a'', AllowOnce)] \<and>
     (\<exists>rest. hp_given hp = hp_answers hp @ rest \<and> length rest \<le> 1)"
proof -
  let ?h0 = "helper_start (app_new None)"
  let ?h1 = "demo_prompted (demo_request ''/a'') (demo_taken (demo_request ''/a'') ?h0)"
  let ?h2 = "demo_clicked AllowOnce ?h1"
  have "hp_waiting ?h0 = None" and "hp_requests (demo_taken (demo_request ''/a'') ?h0) = [demo_request ''/a'']"
    by (simp_all add: demo_helper_defs)
  then have "helper_reach False ?h2"
    by (meson reach_start reach_step demo_taken_step demo_prompted_step demo_clicked_step)
  moreover have "hp_given ?h2 = [(demo_request ''/a'', AllowOnce)]"
    by (simp add: demo_helper_defs Let_def)
  ultimately show ?thesis
    using one_decision_per_prompt [of False ?h2] by blast
qed

text \<open>
  C40: once the worker's backstop has denied a request whose window is still on screen, a click on
  that window is taken for the answer to the next request: the user allows one file, and another
  program's access to another file is allowed, which the user never saw.
\<close>

theorem late_click_answers_next_prompt:
  "\<exists>hp. helper_reach True hp \<and> hp_answers hp = [(r1, DenyOnce), (r2, AllowOnce)] \<and>
     hp_given hp = [(r1, AllowOnce)] \<and> hp_shown hp = None \<and> hp_requests hp = [r2]"
proof -
  let ?h0 = "helper_start (app_new None)"
  let ?h1 = "demo_prompted r1 (demo_taken r1 ?h0)"
  let ?h2 = "?h1\<lparr>hp_waiting := None, hp_answers := hp_answers ?h1 @ [(r1, DenyOnce)]\<rparr>"
  let ?h3 = "demo_clicked AllowOnce (demo_taken r2 ?h2)"
  let ?h4 = "?h3\<lparr>hp_waiting := None, hp_decisions := [], hp_answers := hp_answers ?h3 @ [(r2, AllowOnce)]\<rparr>"
  have "hp_waiting ?h0 = None" "hp_requests (demo_taken r1 ?h0) = [r1]"
    by (simp_all add: demo_helper_defs)
  then have "helper_reach True ?h1"
    by (meson reach_start reach_step demo_taken_step demo_prompted_step)
  moreover have "hp_waiting ?h1 = Some r1" "hp_decisions ?h1 = []"
    by (simp_all add: demo_helper_defs Let_def)
  ultimately have "helper_reach True ?h2"
    by (blast intro: reach_step step_backstop [OF TrueI])
  moreover have "hp_waiting ?h2 = None"
    by simp
  ultimately have "helper_reach True ?h3"
    by (meson reach_step demo_taken_step demo_clicked_step)
  moreover have "hp_waiting ?h3 = Some r2" "hp_decisions ?h3 = [AllowOnce]"
    by (simp_all add: demo_helper_defs Let_def)
  ultimately have "helper_reach True ?h4"
    by (blast intro: reach_step step_answer)
  then show ?thesis
    by (intro exI [of _ ?h4]) (simp add: demo_helper_defs Let_def)
qed

text \<open>
  C24: a prompt of the native helper ends by itself: from its deadline on, which is the request's
  timeout (or the fallback) after it was put on screen, a tick denies it and closes its window, and
  before that a tick leaves it with a countdown; the clock ticks as long as it is there. The worker,
  started with the same fallback, waits for the decision two seconds longer than that; it answers with
  what came within this time, and denies when nothing did.
\<close>

theorem prompt_expires:
  assumes "ap_decision_tx app" and "app_update ge (PromptMsg req) app = (app1, sent, task)"
    and "ms = unat (effective_ms req (case ge_fallback_ms ge of Some f \<Rightarrow> f | None \<Rightarrow> default_fallback_ms))"
  shows "ticking app1 \<and>
    (ge_now ge + ms * 1000000 \<le> ge_now ge' \<longrightarrow>
       snd (app_update ge' Tick app1) = ([DenyOnce], CloseWindow (ge_window ge)) \<and>
       \<not> ticking (fst (app_update ge' Tick app1))) \<and>
    (ge_now ge \<le> ge_now ge' \<and> ge_now ge' < ge_now ge + ms * 1000000 \<longrightarrow>
       (\<exists>p. ap_pending (fst (app_update ge' Tick app1)) = Some p \<and> pe_view p = view_build req (ge_home ge) \<and>
          0 < pe_remaining_s p \<and> pe_remaining_s p \<le> ms div 1000 + 1) \<and>
       snd (app_update ge' Tick app1) = ([], TaskNone)) \<and>
    (gp_open gp \<longrightarrow>
       worker_resolve (case ge_fallback_ms ge of Some f \<Rightarrow> f | None \<Rightarrow> default_fallback_ms) gp req =
         (case gp_later gp (ms + 2000) of Got d \<Rightarrow> Some d | Elapsed \<Rightarrow> Some DenyOnce | Disconnected \<Rightarrow> None))"
proof -
  have "ap_decision_tx app1" and p1: "\<exists>p. ap_pending app1 = Some p \<and> pe_view p = view_build req (ge_home ge) \<and>
      pe_deadline p = ge_now ge + ms * 1000000" and "ap_window app1 = Some (ge_window ge)"
    using assms by (auto simp: app_update_def app_resolve_def Let_def split: if_splits option.splits)
  moreover have "(ge_now ge + ms * 1000000 - t) div 1000000000 \<le> ms div 1000" if "ge_now ge \<le> t" for t
  proof -
    have "(ge_now ge + ms * 1000000 - t) div 1000000000 \<le> (ms * 1000000) div 1000000000"
      using that by (intro div_le_mono) simp
    also have "\<dots> = ms div 1000"
      using div_mult_mult2 [of 1000000 ms 1000] by simp
    finally show ?thesis .
  qed
  ultimately show ?thesis
    using assms(3)
    by (auto simp: app_update_def app_resolve_def ticking_def worker_resolve_eq worker_wait_def
        backstop_grace_ms_def)
qed

definition demo_app :: app where
  "demo_app = \<lparr>ap_decision_tx = True, ap_pending = None, ap_window = None, ap_theme = fallback_theme,
     ap_portal = False\<rparr>"

theorem prompt_expires_witness:
  "snd (app_update (demo_gui 25000000005) Tick
     (fst (app_update (demo_gui 5) (PromptMsg (demo_request ''/a'')) demo_app))) = ([DenyOnce], CloseWindow 5)"
proof -
  let ?u = "app_update (demo_gui 5) (PromptMsg (demo_request ''/a'')) demo_app"
  have "ap_decision_tx demo_app" and u: "?u = (fst ?u, fst (snd ?u), snd (snd ?u))"
    by (simp_all add: demo_app_def)
  moreover have "25000 = unat (effective_ms (demo_request ''/a'')
      (case ge_fallback_ms (demo_gui 5) of Some f \<Rightarrow> f | None \<Rightarrow> default_fallback_ms))"
    by (simp add: effective_ms_def demo_request_def)
  ultimately show ?thesis
    using prompt_expires [of demo_app "demo_gui 5" "demo_request ''/a''" "fst ?u" "fst (snd ?u)" "snd (snd ?u)"
        25000 "demo_gui 25000000005"]
    by (simp add: demo_gui_def)
qed

text \<open>
  C23: for every request of a connection the native helper's worker writes back, in order, the
  decision the application gave, or a denial when none came within the request's timeout and the
  grace; decisions left over from earlier requests are never used. At the first request for which
  the application is gone it stops, without writing a byte for it.
\<close>

theorem worker_answers_or_denies:
  assumes "list_all2 (\<lambda>body req. length body \<le> unat max_msg_len \<and> hc_dec_request hc body = Some req) bodies reqs"
    and "arriving (sk_in s) = concat (map frame bodies)" and "sk_room s = None"
    and "\<And>resp. hc_enc_response hc resp = Inr (enc resp) \<and> length (enc resp) \<le> unat max_msg_len"
  shows "let n = answered (\<lambda>i. worker_resolve fallback (gps i)) 0 reqs
    in fst (worker_serve hc fallback gps s) = (if n = length reqs then Continue else Break) \<and>
       sk_out (snd (worker_serve hc fallback gps s)) = sk_out s @ replies enc (worker_decision fallback gps) 0 (take n reqs) \<and>
       (\<forall>i req. worker_resolve fallback (gps i) req = None \<longleftrightarrow>
          \<not> gp_open (gps i) \<or> worker_wait fallback (gps i) req = Disconnected)"
  using worker_answers.served [OF assms, of fallback gps 0]
  by (simp add: worker_serve_def worker_resolve_None Let_def)

theorem worker_answers_or_denies_witness:
  "worker_serve demo_helper_codec 90000
     (\<lambda>i. \<lparr>gp_stale = [AllowOnce], gp_open = (i < 2), gp_later = (\<lambda>_. if i = 0 then Got AllowOnce else Elapsed)\<rparr>)
     (demo_link [Data [0, 0, 0, 1, 1, 0, 0, 0, 1, 1, 0, 0, 0, 1, 1]]) \<in>
   {r. fst r = Break \<and> sk_out (snd r) = [0, 0, 0, 1, 2, 0, 0, 0, 1, 3]}"
proof -
  let ?enc = "\<lambda>resp :: prompt_response. [if decision_allows (pp_decision resp) then 2 else 3 :: u8]"
  let ?gps = "\<lambda>i. \<lparr>gp_stale = [AllowOnce], gp_open = (i < (2 :: nat)),
     gp_later = (\<lambda>_. if i = 0 then Got AllowOnce else Elapsed)\<rparr>"
  let ?s = "demo_link [Data [0, 0, 0, 1, 1, 0, 0, 0, 1, 1, 0, 0, 0, 1, 1]]"
  let ?reqs = "[demo_request ''/a'', demo_request ''/a'', demo_request ''/a'']"
  have n: "answered (\<lambda>i. worker_resolve 90000 (?gps i)) 0 ?reqs = 2"
    by (simp add: worker_resolve_eq worker_wait_def)
  have out: "replies ?enc (worker_decision 90000 ?gps) 0 (take 2 ?reqs) = [0, 0, 0, 1, 2, 0, 0, 0, 1, 3]"
    by (simp add: worker_decision_def worker_wait_def decision_allows_def demo_frame)
  have "list_all2 (\<lambda>body req. length body \<le> unat max_msg_len \<and> hc_dec_request demo_helper_codec body = Some req)
      [[1], [1], [1]] ?reqs"
    "arriving (sk_in ?s) = concat (map frame [[1], [1], [1]])" "sk_room ?s = None" "sk_out ?s = []"
    and "hc_enc_response demo_helper_codec resp = Inr (?enc resp) \<and> length (?enc resp) \<le> unat max_msg_len" for resp
    by (simp_all add: demo_helper_codec_def demo_link_def demo_frame max_msg_len_def)
  note facts = this
  show ?thesis
    using worker_answers_or_denies [OF facts(1-3,5), of 90000 ?gps] facts(4) unfolding Let_def n out by simp
qed

section \<open>Windows on screen\<close>

text \<open>The windows that were opened and not closed.\<close>

fun do_task :: "task \<Rightarrow> window_id list \<Rightarrow> window_id list" where
  "do_task TaskNone ws = ws"
| "do_task (OpenWindow w) ws = w # ws"
| "do_task (CloseWindow w) ws = removeAll w ws"

fun run_app :: "(gui_env \<times> message) list \<Rightarrow> app \<times> window_id list \<Rightarrow> app \<times> window_id list" where
  "run_app [] st = st"
| "run_app ((ge, m) # ms) st =
     (let (app', sent, task) = app_update ge m (fst st) in run_app ms (app', do_task task (snd st)))"

text \<open>
  A prompt that arrives while another is on screen discards the task that would close the window of
  the first: after the second prompt is answered that window is still there, and no message of the
  application can close it any more.
\<close>

lemma do_task_keeps: "w \<in> set ws \<Longrightarrow> task \<noteq> CloseWindow w \<Longrightarrow> w \<in> set (do_task task ws)"
  by (cases task) auto

lemma app_update_closes:
  "app_update ge m app = (app', sent, task) \<Longrightarrow> task = CloseWindow w \<Longrightarrow> ap_window app = Some w"
  by (auto simp: app_update_def app_resolve_def Let_def split: message.splits if_splits option.splits)

lemma app_update_window:
  "app_update ge m app = (app', sent, task) \<Longrightarrow>
   ap_window app' \<in> {ap_window app, None, Some (ge_window ge)}"
  by (auto simp: app_update_def app_resolve_def Let_def split: message.splits if_splits option.splits)

lemma orphan_stays:
  "w \<in> set (snd st) \<Longrightarrow> ap_window (fst st) \<noteq> Some w \<Longrightarrow> \<forall>(ge, m) \<in> set ms. ge_window ge \<noteq> w \<Longrightarrow>
   w \<in> set (snd (run_app ms st))"
proof (induction ms st rule: run_app.induct)
  case (2 ge m ms st)
  obtain app' sent task where u: "app_update ge m (fst st) = (app', sent, task)"
    by (cases "app_update ge m (fst st)")
  then have "w \<in> set (do_task task (snd st))" and "ap_window app' \<noteq> Some w"
    using 2(2-4) app_update_closes [OF u] app_update_window [OF u] by (auto intro!: do_task_keeps)
  then show ?case
    using 2(1) [OF u [symmetric] refl refl] 2(4) u by simp
qed simp

theorem replaced_window_stays:
  assumes "ap_pending app \<noteq> None" "ap_window app = Some w" "w \<in> set ws"
    and "ge_window ge \<noteq> w" "\<forall>(ge, m) \<in> set ms. ge_window ge \<noteq> w"
  shows "w \<in> set (snd (run_app ((ge, PromptMsg req) # ms) (app, ws)))"
proof -
  obtain app' sent task where u: "app_update ge (PromptMsg req) app = (app', sent, task)"
    by (cases "app_update ge (PromptMsg req) app")
  then have "task = OpenWindow (ge_window ge)" and "ap_window app' = Some (ge_window ge)"
    by (auto simp: app_update_def Let_def split: prod.splits)
  then show ?thesis
    using u assms(3-5) orphan_stays [of w "(app', ge_window ge # ws)" ms] by simp
qed

end
