(* ===== verification/FW_Demo.thy ===== *)
theory FW_Demo
  imports FW_Iced
begin

text \<open>
  The demo mode of the native helper (\<open>run_demo\<close> of \<open>filewall-ui-iced/src/worker.rs\<close>): three made-up
  requests are shown one after the other and each decision is printed.
\<close>

section \<open>The requests\<close>

definition repeat_string :: "nat \<Rightarrow> string \<Rightarrow> string" where
  "repeat_string n s = concat (replicate n s)"

definition demo_home :: "string option \<Rightarrow> string" where
  "demo_home var = (case var of Some h \<Rightarrow> h | None \<Rightarrow> ''/home/demo'')"

definition demo_samples :: "string option \<Rightarrow> prompt_request list" where
  "demo_samples var =
     (let home = demo_home var
      in [\<lparr>pr_pid = 4242,
           pr_exe = home @ ''/.local/share/toolchains/x86_64-unknown-linux-gnu/bin/very-long-helper-binary-name'',
           pr_cmdline = ''very-long-helper-binary-name --config='' @ home @ ''/.config/app/'' @
             repeat_string 30 ''nested/'' @ '' '' @ repeat_string 25 ''--flag=value '',
           pr_cwd = home @ ''/projects/foo'',
           pr_path = home @ ''/.config/'' @ repeat_string 8 ''deeply-nested-directory/'' @ ''credentials.json'',
           pr_always_object = home @ ''/.config'',
           pr_always_tree = True, pr_always_cwd_pinned = True, pr_ui_timeout_ms = 60000\<rparr>,
          \<lparr>pr_pid = 84321, pr_exe = ''/usr/bin/node'',
           pr_cmdline = ''node /home/demo/evil.js --steal --exfil'',
           pr_cwd = home @ ''/projects/foo'', pr_path = home @ ''/.ssh/id_ed25519'',
           pr_always_object = home @ ''/.ssh'',
           pr_always_tree = True, pr_always_cwd_pinned = False, pr_ui_timeout_ms = 30000\<rparr>,
          \<lparr>pr_pid = 90210, pr_exe = ''/usr/bin/cat'',
           pr_cmdline = ''cat /home/demo/.config/secret.toml'',
           pr_cwd = home @ ''/work'', pr_path = home @ ''/.config/secret.toml'',
           pr_always_object = home @ ''/.config/secret.toml'',
           pr_always_tree = False, pr_always_cwd_pinned = True, pr_ui_timeout_ms = 30000\<rparr>])"

section \<open>The driver\<close>

text \<open>
  The channels for one request: whether the application takes it, the decisions that have come by
  the time of \<open>recv\<close>, and the one it gets when none has (nothing when the application is gone).
\<close>

record demo_port =
  do_open :: bool
  do_arrived :: "decision list"
  do_next :: "decision option"

definition decision_name :: "decision \<Rightarrow> string" where
  "decision_name d =
     (case d of AllowOnce \<Rightarrow> ''AllowOnce'' | DenyOnce \<Rightarrow> ''DenyOnce''
      | AllowAlways \<Rightarrow> ''AllowAlways'' | DenyAlways \<Rightarrow> ''DenyAlways'')"

definition demo_line :: "decision \<Rightarrow> string" where
  "demo_line d = ''filewall-ui-iced[demo]: decision = '' @ decision_name d"

text \<open>\<open>recv\<close>: the oldest decision that lies in the channel, else the next one that comes.\<close>

definition demo_recv :: "decision list \<Rightarrow> decision option \<Rightarrow> (decision \<times> decision list) option" where
  "demo_recv queue later =
     (case queue of d # ds \<Rightarrow> Some (d, ds) | [] \<Rightarrow> map_option (\<lambda>d. (d, [])) later)"

text \<open>The requests handed to the application and the lines printed.\<close>

fun run_demo ::
    "(nat \<Rightarrow> demo_port) \<Rightarrow> nat \<Rightarrow> decision list \<Rightarrow> prompt_request list \<Rightarrow>
     prompt_request list \<times> string list" where
  "run_demo ports k queue [] = ([], [])"
| "run_demo ports k queue (req # reqs) =
     (if \<not> do_open (ports k) then ([], [])
      else
        (case demo_recv (queue @ do_arrived (ports k)) (do_next (ports k)) of
           None \<Rightarrow> ([req], [])
         | Some (d, queue') \<Rightarrow>
             (let (sent, out) = run_demo ports (Suc k) queue' reqs in (req # sent, demo_line d # out))))"

datatype worker_end = DemoEnd "prompt_request list" "string list" | SocketEnd "socket list"

definition worker_thread ::
    "worker_config \<Rightarrow> string option \<Rightarrow> (nat \<Rightarrow> demo_port) \<Rightarrow> helper_codec \<Rightarrow>
     (nat \<Rightarrow> nat \<Rightarrow> gui_port) \<Rightarrow> socket io_result list \<Rightarrow> worker_end" where
  "worker_thread cfg home ports hc gps tries =
     (if wk_demo cfg
      then (let (sent, out) = run_demo ports 0 [] (demo_samples home) in DemoEnd sent out)
      else SocketEnd (run_socket hc (wk_fallback_ms cfg) gps 0 tries))"

section \<open>What it shows\<close>

text \<open>A request is handed over only once the one before it has been answered.\<close>

lemma run_demo_in_step:
  assumes "run_demo ports k queue reqs = (sent, out)"
  shows "prefix sent reqs \<and> length out \<le> length sent \<and> length sent \<le> Suc (length out)"
  using assms
proof (induction ports k queue reqs arbitrary: sent out rule: run_demo.induct)
  case (2 ports k queue req reqs)
  then show ?case by (fastforce split: if_splits option.splits prod.splits)
qed simp

text \<open>When the application answers each prompt once, the lines are its answers, in order.\<close>

lemma run_demo_prints:
  assumes "\<And>i. do_open (ports i) \<and> do_arrived (ports i) = [] \<and> do_next (ports i) = Some (ds i)"
  shows "run_demo ports k [] reqs = (reqs, map (\<lambda>i. demo_line (ds i)) [k..<k + length reqs])"
proof (induction reqs arbitrary: k)
  case (Cons req reqs)
  then show ?case
    using assms by (simp add: demo_recv_def upt_conv_Cons del: upt_Suc)
qed simp

lemma demo_line_inj: "demo_line d = demo_line d' \<longleftrightarrow> d = d'"
  by (cases d; cases d') (simp_all add: demo_line_def decision_name_def)

text \<open>The demo mode never touches the socket; the socket mode never shows a made-up request.\<close>

lemma worker_thread_mode:
  "(\<exists>sent out. worker_thread cfg home ports hc gps tries = DemoEnd sent out) \<longleftrightarrow> wk_demo cfg"
  by (simp add: worker_thread_def split: prod.split)

lemma demo_option: "worker_config.wk_demo (iced_config [''filewall-ui-iced'', ''--demo''])"
  by (simp add: iced_config_def)

text \<open>The samples show what they are for: a field beyond the cap, both scopes, both pins.\<close>

lemma demo_samples_cover:
  "map (\<lambda>req. (pr_always_tree req, pr_always_cwd_pinned req)) (demo_samples var) =
     [(True, True), (True, False), (False, True)]"
  by (simp add: demo_samples_def Let_def)

lemma demo_sample_is_cut:
  "pv_cmdline (view_build (hd (demo_samples None)) ''/home/demo'') =
     take 400 (pr_cmdline (hd (demo_samples None))) @ ellipsis"
  by code_simp

end
