(* ===== verification/FW_Schema.thy ===== *)
theory FW_Schema
  imports FW_Ui FW_Control "HOL-Library.Monad_Syntax" "HOL-Library.Countable"
begin

text \<open>
  The schema of the messages of \<open>filewall-proto/src/lib.rs\<close>: what their \<open>serde\<close> attributes make of
  them. A message is written as a tree of values under the names of its fields, an enum as the name
  of its variant in the given case; it is read back from a tree, missing fields taking the default
  where the attribute says so. How a tree becomes text is \<open>serde_json\<close> and stays a parameter.
\<close>

section \<open>Trees\<close>

datatype json =
    JNull
  | JBool bool
  | JNum int
  | JStr string
  | JArr "json list"
  | JObj "(string \<times> json) list"
  | JOther                                  \<comment> \<open>fractions, dates: nothing here is read from them\<close>

text \<open>How deep a tree is; the parsers refuse what is nested too deep (128 in \<open>serde_json\<close>).\<close>

fun nesting :: "json \<Rightarrow> nat" where
  "nesting (JArr vs) = Suc (foldr max (map nesting vs) 0)"
| "nesting (JObj kvs) = Suc (foldr max (map (\<lambda>kv. nesting (snd kv)) kvs) 0)"
| "nesting v = 0"

definition max_nesting :: nat where "max_nesting = 32"

lemma nesting_list: "(\<And>v. v \<in> set vs \<Longrightarrow> nesting v \<le> n) \<Longrightarrow> nesting (JArr vs) \<le> Suc n"
  by (induction vs) auto

text \<open>
  What a tree may hold: strings in UTF-8, integers that fit 64 bits, objects without repeated keys,
  nested within the bound.
\<close>

fun json_ok :: "json \<Rightarrow> bool" where
  "json_ok (JNum n) \<longleftrightarrow> - (2 ^ 63) \<le> n \<and> n < 2 ^ 64"
| "json_ok (JStr s) \<longleftrightarrow> valid_utf8 s"
| "json_ok (JArr vs) \<longleftrightarrow> (\<forall>v \<in> set vs. json_ok v) \<and> nesting (JArr vs) \<le> max_nesting"
| "json_ok (JObj kvs) \<longleftrightarrow>
     (\<forall>kv \<in> set kvs. valid_utf8 (fst kv) \<and> json_ok (snd kv)) \<and> distinct (map fst kvs) \<and>
     nesting (JObj kvs) \<le> max_nesting"
| "json_ok v \<longleftrightarrow> v \<noteq> JOther"

section \<open>Reading\<close>

text \<open>The name of a variant: a string, or an object with that key and nothing in it.\<close>

definition as_variant :: "json \<Rightarrow> string option" where
  "as_variant v = (case v of JStr s \<Rightarrow> Some s | JObj [(k, JNull)] \<Rightarrow> Some k | _ \<Rightarrow> None)"

definition as_text :: "json \<Rightarrow> string option" where
  "as_text v = (case v of JStr s \<Rightarrow> Some s | _ \<Rightarrow> None)"

definition as_bool :: "json \<Rightarrow> bool option" where
  "as_bool v = (case v of JBool b \<Rightarrow> Some b | _ \<Rightarrow> None)"

definition as_u32 :: "json \<Rightarrow> u32 option" where
  "as_u32 v = (case v of JNum n \<Rightarrow> if 0 \<le> n \<and> n < 2 ^ 32 then Some (of_int n) else None | _ \<Rightarrow> None)"

definition as_u64 :: "json \<Rightarrow> u64 option" where
  "as_u64 v = (case v of JNum n \<Rightarrow> if 0 \<le> n \<and> n < 2 ^ 64 then Some (of_int n) else None | _ \<Rightarrow> None)"

definition as_option :: "(json \<Rightarrow> 'a option) \<Rightarrow> json \<Rightarrow> 'a option option" where
  "as_option f v = (if v = JNull then Some None else map_option Some (f v))"

definition as_list :: "(json \<Rightarrow> 'a option) \<Rightarrow> json \<Rightarrow> 'a list option" where
  "as_list f v = (case v of JArr vs \<Rightarrow> those (map f vs) | _ \<Rightarrow> None)"

text \<open>
  The fields of a struct: by name, where a repeated one is an error and an unknown one is skipped,
  or by position from an array that is not too long. The flag says which of the two was there.
\<close>

definition struct_fields :: "string list \<Rightarrow> json \<Rightarrow> (bool \<times> (string \<Rightarrow> json option)) option" where
  "struct_fields names v =
     (case v of
        JObj kvs \<Rightarrow>
          if distinct (filter (\<lambda>k. k \<in> set names) (map fst kvs)) then Some (True, map_of kvs) else None
      | JArr vs \<Rightarrow>
          if length vs \<le> length names then Some (False, map_of (zip names vs)) else None
      | _ \<Rightarrow> None)"

definition required :: "(json \<Rightarrow> 'a option) \<Rightarrow> json option \<Rightarrow> 'a option" where
  "required f x = (case x of None \<Rightarrow> None | Some v \<Rightarrow> f v)"

definition defaulted :: "'a \<Rightarrow> (json \<Rightarrow> 'a option) \<Rightarrow> json option \<Rightarrow> 'a option" where
  "defaulted d f x = (case x of None \<Rightarrow> Some d | Some v \<Rightarrow> f v)"

text \<open>An \<open>Option\<close> that is missing in an object is \<open>None\<close>; one that is missing in an array is an error.\<close>

definition optional :: "bool \<Rightarrow> (json \<Rightarrow> 'a option) \<Rightarrow> json option \<Rightarrow> 'a option option" where
  "optional named f x =
     (case x of None \<Rightarrow> if named then Some None else None | Some v \<Rightarrow> as_option f v)"

section \<open>The messages\<close>

definition decision_tag :: "decision \<Rightarrow> string" where
  "decision_tag d =
     (case d of AllowOnce \<Rightarrow> ''allow-once'' | DenyOnce \<Rightarrow> ''deny-once''
      | AllowAlways \<Rightarrow> ''allow-always'' | DenyAlways \<Rightarrow> ''deny-always'')"

definition enc_decision :: "decision \<Rightarrow> json" where
  "enc_decision d = JStr (decision_tag d)"

definition dec_decision :: "json \<Rightarrow> decision option" where
  "dec_decision v =
     as_variant v \<bind>
       (\<lambda>s. List.find (\<lambda>d. decision_tag d = s) [AllowOnce, DenyOnce, AllowAlways, DenyAlways])"

definition enc_prompt_request :: "prompt_request \<Rightarrow> json" where
  "enc_prompt_request r =
     JObj [(''pid'', JNum (uint (pr_pid r))), (''exe'', JStr (pr_exe r)), (''cmdline'', JStr (pr_cmdline r)),
           (''cwd'', JStr (pr_cwd r)), (''path'', JStr (pr_path r)),
           (''always_object'', JStr (pr_always_object r)), (''always_tree'', JBool (pr_always_tree r)),
           (''always_cwd_pinned'', JBool (pr_always_cwd_pinned r)),
           (''ui_timeout_ms'', JNum (uint (pr_ui_timeout_ms r)))]"

definition prompt_request_fields :: "string list" where
  "prompt_request_fields =
     [''pid'', ''exe'', ''cmdline'', ''cwd'', ''path'', ''always_object'', ''always_tree'',
      ''always_cwd_pinned'', ''ui_timeout_ms'']"

definition dec_prompt_request :: "json \<Rightarrow> prompt_request option" where
  "dec_prompt_request v =
     do { (named, f) \<leftarrow> struct_fields prompt_request_fields v;
          pid \<leftarrow> required as_u32 (f ''pid'');
          exe \<leftarrow> required as_text (f ''exe'');
          cmdline \<leftarrow> required as_text (f ''cmdline'');
          cwd \<leftarrow> required as_text (f ''cwd'');
          path \<leftarrow> required as_text (f ''path'');
          always_object \<leftarrow> required as_text (f ''always_object'');
          always_tree \<leftarrow> required as_bool (f ''always_tree'');
          always_cwd_pinned \<leftarrow> required as_bool (f ''always_cwd_pinned'');
          ui_timeout_ms \<leftarrow> defaulted 0 as_u32 (f ''ui_timeout_ms'');
          Some \<lparr>pr_pid = pid, pr_exe = exe, pr_cmdline = cmdline, pr_cwd = cwd, pr_path = path,
                pr_always_object = always_object, pr_always_tree = always_tree,
                pr_always_cwd_pinned = always_cwd_pinned, pr_ui_timeout_ms = ui_timeout_ms\<rparr> }"

definition enc_prompt_response :: "prompt_response \<Rightarrow> json" where
  "enc_prompt_response r = JObj [(''decision'', enc_decision (pp_decision r))]"

definition dec_prompt_response :: "json \<Rightarrow> prompt_response option" where
  "dec_prompt_response v =
     do { (named, f) \<leftarrow> struct_fields [''decision''] v;
          d \<leftarrow> required dec_decision (f ''decision'');
          Some \<lparr>pp_decision = d\<rparr> }"

definition obj_kind_tag :: "obj_kind \<Rightarrow> string" where
  "obj_kind_tag k = (case k of ObjFile \<Rightarrow> ''file'' | ObjDir \<Rightarrow> ''dir'')"

definition dec_obj_kind :: "json \<Rightarrow> obj_kind option" where
  "dec_obj_kind v = as_variant v \<bind> (\<lambda>s. List.find (\<lambda>k. obj_kind_tag k = s) [ObjFile, ObjDir])"

definition enc_watched_object :: "watched_object \<Rightarrow> json" where
  "enc_watched_object ob =
     JObj [(''path'', JStr (wo_path ob)), (''kind'', JStr (obj_kind_tag (wo_kind ob))),
           (''recursive'', JBool (wo_recursive ob)), (''watch'', JStr (wo_watch ob)),
           (''fanotify'', JBool (wo_fanotify ob)),
           (''live_marked'', (case wo_live_marked ob of None \<Rightarrow> JNull | Some b \<Rightarrow> JBool b))]"

definition watched_object_fields :: "string list" where
  "watched_object_fields = [''path'', ''kind'', ''recursive'', ''watch'', ''fanotify'', ''live_marked'']"

definition dec_watched_object :: "json \<Rightarrow> watched_object option" where
  "dec_watched_object v =
     do { (named, f) \<leftarrow> struct_fields watched_object_fields v;
          path \<leftarrow> required as_text (f ''path'');
          kind \<leftarrow> required dec_obj_kind (f ''kind'');
          recursive \<leftarrow> required as_bool (f ''recursive'');
          watch \<leftarrow> required as_text (f ''watch'');
          fanotify \<leftarrow> required as_bool (f ''fanotify'');
          live_marked \<leftarrow> optional named as_bool (f ''live_marked'');
          Some \<lparr>wo_path = path, wo_kind = kind, wo_recursive = recursive, wo_watch = watch,
                wo_fanotify = fanotify, wo_live_marked = live_marked\<rparr> }"

definition enc_control_request :: "control_request \<Rightarrow> json" where
  "enc_control_request r = (case r of Dump \<Rightarrow> JStr ''dump'')"

definition dec_control_request :: "json \<Rightarrow> control_request option" where
  "dec_control_request v = as_variant v \<bind> (\<lambda>s. if s = ''dump'' then Some Dump else None)"

definition enc_dump_response :: "dump_response \<Rightarrow> json" where
  "enc_dump_response r =
     JObj [(''pid'', JNum (uint (dr_pid r))), (''generated_unix'', JNum (uint (dr_generated_unix r))),
           (''objects'', JArr (map enc_watched_object (dr_objects r)))]"

definition dec_dump_response :: "json \<Rightarrow> dump_response option" where
  "dec_dump_response v =
     do { (named, f) \<leftarrow> struct_fields [''pid'', ''generated_unix'', ''objects''] v;
          pid \<leftarrow> required as_u32 (f ''pid'');
          generated \<leftarrow> required as_u64 (f ''generated_unix'');
          objects \<leftarrow> required (as_list dec_watched_object) (f ''objects'');
          Some \<lparr>dr_pid = pid, dr_generated_unix = generated, dr_objects = objects\<rparr> }"

section \<open>Reading back: lemmas\<close>

named_theorems fw_schema \<open>reading a value from the tree that was written for it\<close>

lemma as_values [fw_schema]:
  "as_text (JStr s) = Some s" "as_bool (JBool b) = Some b"
  "as_u32 (JNum (uint (w :: u32))) = Some w" "as_u64 (JNum (uint (q :: u64))) = Some q"
  "as_variant (JStr s) = Some s"
  using unsigned_less [of w, where ?'a = int] unsigned_less [of q, where ?'a = int]
  by (simp_all add: as_text_def as_bool_def as_u32_def as_u64_def as_variant_def)

lemma field_readers [fw_schema]:
  "required f (Some v) = f v" "required f None = None"
  "defaulted d f (Some v) = f v" "defaulted d f None = Some d"
  "optional named f (Some v) = as_option f v" "optional True f None = Some None"
  by (simp_all add: required_def defaulted_def optional_def)

lemma as_option_bool [fw_schema]:
  "as_option as_bool (case x of None \<Rightarrow> JNull | Some b \<Rightarrow> JBool b) = Some x"
  by (simp add: as_option_def as_bool_def split: option.split)

lemma as_list_map [fw_schema]:
  assumes "\<And>x. x \<in> set xs \<Longrightarrow> dec (enc x) = Some x"
  shows "as_list dec (JArr (map enc xs)) = Some xs"
proof -
  have "those (map (\<lambda>x. dec (enc x)) xs) = Some xs"
    using assms by (induction xs) auto
  then show ?thesis by (simp add: as_list_def comp_def)
qed

lemma struct_fields_object:
  "distinct (filter (\<lambda>k. k \<in> set names) (map fst kvs)) \<Longrightarrow>
   struct_fields names (JObj kvs) = Some (True, map_of kvs)"
  by (simp add: struct_fields_def)

lemma dec_enc_decision [fw_schema]: "dec_decision (enc_decision d) = Some d"
  by (cases d) (simp_all add: dec_decision_def enc_decision_def decision_tag_def fw_schema)

lemma dec_enc_obj_kind [fw_schema]: "dec_obj_kind (JStr (obj_kind_tag k)) = Some k"
  by (cases k) (simp_all add: dec_obj_kind_def obj_kind_tag_def fw_schema)

lemma dec_enc_prompt_request [fw_schema]: "dec_prompt_request (enc_prompt_request r) = Some r"
  by (simp add: dec_prompt_request_def enc_prompt_request_def prompt_request_fields_def
      struct_fields_object fw_schema)

lemma dec_enc_prompt_response [fw_schema]: "dec_prompt_response (enc_prompt_response r) = Some r"
  by (simp add: dec_prompt_response_def enc_prompt_response_def struct_fields_object fw_schema)

lemma dec_enc_watched_object [fw_schema]: "dec_watched_object (enc_watched_object ob) = Some ob"
  by (simp add: dec_watched_object_def enc_watched_object_def watched_object_fields_def
      struct_fields_object fw_schema)

lemma dec_enc_control_request [fw_schema]: "dec_control_request (enc_control_request r) = Some r"
  by (cases r) (simp add: dec_control_request_def enc_control_request_def fw_schema)

lemma dec_enc_dump_response [fw_schema]: "dec_dump_response (enc_dump_response r) = Some r"
  by (simp add: dec_dump_response_def enc_dump_response_def struct_fields_object fw_schema)

section \<open>Texts and codecs\<close>

text \<open>The text form of a tree, as \<open>serde_json\<close> prints and parses it.\<close>

record json_text =
  js_print :: "json \<Rightarrow> bytes"
  js_parse :: "bytes \<Rightarrow> json option"

definition json_law :: "json_text \<Rightarrow> bool" where
  "json_law jt \<longleftrightarrow> (\<forall>v. json_ok v \<longrightarrow> js_parse jt (js_print jt v) = Some v)"

definition send_as :: "json_text \<Rightarrow> ('m \<Rightarrow> json) \<Rightarrow> 'm \<Rightarrow> bytes io_result" where
  "send_as jt enc m = Inr (js_print jt (enc m))"

definition receive_as :: "json_text \<Rightarrow> (json \<Rightarrow> 'm option) \<Rightarrow> bytes \<Rightarrow> 'm option" where
  "receive_as jt dec body = js_parse jt body \<bind> dec"

text \<open>The codecs of the three programs.\<close>

definition ui_json :: "json_text \<Rightarrow> ui_codec" where
  "ui_json jt = \<lparr>uc_enc_request = send_as jt enc_prompt_request,
                 uc_dec_response = receive_as jt dec_prompt_response\<rparr>"

definition helper_json :: "json_text \<Rightarrow> helper_codec" where
  "helper_json jt = \<lparr>hc_dec_request = receive_as jt dec_prompt_request,
                     hc_enc_response = send_as jt enc_prompt_response\<rparr>"

definition control_json :: "json_text \<Rightarrow> control_codec" where
  "control_json jt = \<lparr>cc_dec_request = receive_as jt dec_control_request,
                      cc_enc_dump = send_as jt enc_dump_response\<rparr>"

text \<open>
  A message with a schema: reading a tree that was written for it gives it back, and the tree may be
  printed when the message's texts are UTF-8. The client lemma carries it over a socket.
\<close>

locale message_schema =
  fixes enc :: "'m \<Rightarrow> json" and dec :: "json \<Rightarrow> 'm option" and text_ok :: "'m \<Rightarrow> bool"
  assumes dec_enc: "dec (enc m) = Some m"
    and enc_ok: "text_ok m \<Longrightarrow> json_ok (enc m)"
begin

lemma received:
  assumes "json_law jt" and "text_ok m"
  shows "receive_as jt dec (js_print jt (enc m)) = Some m"
  using assms enc_ok dec_enc by (simp add: json_law_def receive_as_def)

lemma over_the_wire:
  assumes "json_law jt" and "text_ok m"
    and "write_msg_capped sock_write sock_flush (send_as jt enc) cap m w = (Inr u, w')"
    and "arriving (sk_in r) = drop (length (sk_out w)) (sk_out w') @ rest"
  shows "\<exists>r'. read_msg_capped sock_read (receive_as jt dec) cap r = (Inr m, r') \<and> arriving (sk_in r') = rest"
  by (rule sock.pipe_roundtrip [OF assms(3,4)]) (use assms(1,2) received in \<open>auto simp: send_as_def\<close>)

end

definition request_text_ok :: "prompt_request \<Rightarrow> bool" where
  "request_text_ok r \<longleftrightarrow>
     list_all valid_utf8 [pr_exe r, pr_cmdline r, pr_cwd r, pr_path r, pr_always_object r]"

definition dump_text_ok :: "dump_response \<Rightarrow> bool" where
  "dump_text_ok r \<longleftrightarrow> list_all (\<lambda>ob. valid_utf8 (wo_path ob) \<and> valid_utf8 (wo_watch ob)) (dr_objects r)"

lemma json_ok_word:
  "json_ok (JNum (uint (w :: u32)))" "json_ok (JNum (uint (q :: u64)))"
proof -
  have "- (2 ^ 63) \<le> uint w" "- (2 ^ 63) \<le> uint q"
    by (rule order.trans [OF _ uint_nonnegative], simp)+
  then show "json_ok (JNum (uint w))" "json_ok (JNum (uint q))"
    using unsigned_less [of w, where ?'a = int] unsigned_less [of q, where ?'a = int] by simp_all
qed

lemma json_ok_object:
  "list_all (\<lambda>kv. ascii (fst kv)) kvs \<Longrightarrow> distinct (map fst kvs) \<Longrightarrow>
   list_all (\<lambda>kv. json_ok (snd kv)) kvs \<Longrightarrow> list_all (\<lambda>kv. nesting (snd kv) \<le> 31) kvs \<Longrightarrow> json_ok (JObj kvs)"
proof -
  assume "list_all (\<lambda>kv. nesting (snd kv) \<le> 31) kvs"
  then have "foldr max (map (\<lambda>kv. nesting (snd kv)) kvs) 0 \<le> 31"
    by (induction kvs) auto
  then show "list_all (\<lambda>kv. ascii (fst kv)) kvs \<Longrightarrow> distinct (map fst kvs) \<Longrightarrow>
      list_all (\<lambda>kv. json_ok (snd kv)) kvs \<Longrightarrow> json_ok (JObj kvs)"
    by (auto simp: list_all_iff ascii_valid_utf8 max_nesting_def)
qed

lemma json_ok_list:
  "(\<And>v. v \<in> set vs \<Longrightarrow> json_ok v \<and> nesting v \<le> 30) \<Longrightarrow> json_ok (JArr vs) \<and> nesting (JArr vs) \<le> 31"
  using nesting_list [of vs 30] by (simp add: max_nesting_def)

lemma ascii_tags: "ascii (decision_tag d)" "ascii (obj_kind_tag k)"
  by (cases d; simp add: decision_tag_def ascii_def) (cases k; simp add: obj_kind_tag_def ascii_def)

lemma enc_prompt_request_ok: "request_text_ok r \<Longrightarrow> json_ok (enc_prompt_request r)"
  unfolding enc_prompt_request_def
  by (rule json_ok_object) (simp_all add: ascii_def request_text_ok_def json_ok_word del: json_ok.simps(1))

lemma enc_prompt_response_ok: "json_ok (enc_prompt_response r)"
  unfolding enc_prompt_response_def enc_decision_def
  by (rule json_ok_object) (simp_all add: ascii_def ascii_valid_utf8 ascii_tags [unfolded ascii_def])

lemma enc_watched_object_nesting: "nesting (enc_watched_object ob) \<le> 30"
  by (simp add: enc_watched_object_def split: option.split)

lemma enc_watched_object_ok:
  "valid_utf8 (wo_path ob) \<Longrightarrow> valid_utf8 (wo_watch ob) \<Longrightarrow> json_ok (enc_watched_object ob)"
  unfolding enc_watched_object_def
  by (rule json_ok_object)
    (simp_all add: ascii_def ascii_valid_utf8 [OF ascii_tags(2)] split: option.split)

lemma enc_dump_response_ok:
  assumes "dump_text_ok r"
  shows "json_ok (enc_dump_response r)"
proof -
  have "json_ok (JArr (map enc_watched_object (dr_objects r))) \<and>
      nesting (JArr (map enc_watched_object (dr_objects r))) \<le> 31"
    using assms enc_watched_object_nesting
    by (intro json_ok_list) (auto simp: dump_text_ok_def list_all_iff enc_watched_object_ok)
  then show ?thesis
    unfolding enc_dump_response_def
    by (intro json_ok_object) (simp_all add: ascii_def json_ok_word del: json_ok.simps nesting.simps(1))
qed

interpretation requests: message_schema enc_prompt_request dec_prompt_request request_text_ok
  by unfold_locales (rule dec_enc_prompt_request, rule enc_prompt_request_ok)

interpretation responses: message_schema enc_prompt_response dec_prompt_response "\<lambda>_. True"
  by unfold_locales (rule dec_enc_prompt_response, rule enc_prompt_response_ok)

interpretation control_requests: message_schema enc_control_request dec_control_request "\<lambda>_. True"
  by unfold_locales
    (rule dec_enc_control_request, simp add: enc_control_request_def ascii_valid_utf8 ascii_def
      split: control_request.split)

interpretation dumps: message_schema enc_dump_response dec_dump_response dump_text_ok
  by unfold_locales (rule dec_enc_dump_response, rule enc_dump_response_ok)

end
