(* ===== verification/FW_Wire.thy ===== *)
theory FW_Wire
  imports FW_Schema FW_Loop FW_Prompting
begin

text \<open>
  The daemon and the helpers over JSON: every text the daemon puts into a message is UTF-8 whatever
  bytes the kernel hands it, so the messages can be printed; a prompt and its answer over a
  connection with either helper at its other end; requests that are too long to be sent.
\<close>

section \<open>The daemon's texts\<close>

lemma valid_utf8_display [simp]: "valid_utf8 (display p)"
  by (simp add: display_def valid_utf8_lossy)

lemma valid_utf8_join:
  "valid_utf8 sep \<Longrightarrow> (\<And>w. w \<in> set ws \<Longrightarrow> valid_utf8 w) \<Longrightarrow> valid_utf8 (join_with sep ws)"
  by (induction sep ws rule: join_with.induct) (auto intro!: valid_utf8_append)

lemma valid_utf8_unresolved [simp]: "valid_utf8 unresolved"
  by (rule ascii_valid_utf8) (simp add: unresolved_def ascii_def)

lemma event_texts [simp]:
  "valid_utf8 (event_exe ps ev)" "valid_utf8 (event_cwd ps ev)" "valid_utf8 (event_cmdline ps ev)"
proof -
  show "valid_utf8 (event_exe ps ev)"
    by (simp add: event_exe_def split: sum.split)
  show "valid_utf8 (event_cwd ps ev)"
    by (simp add: event_cwd_def proc_cwd_def split: sum.split)
  have "valid_utf8 '' ''"
    by (rule ascii_valid_utf8) (simp add: ascii_def)
  then show "valid_utf8 (event_cmdline ps ev)"
    by (auto simp: event_cmdline_def valid_utf8_lossy intro!: valid_utf8_join split: sum.split)
qed

lemma access_request_text:
  "valid_utf8 exe \<Longrightarrow> valid_utf8 cwd \<Longrightarrow> request_text_ok (access_request su covering ps ev path exe cwd)"
  by (simp add: request_text_ok_def access_request_def always_scope_def case_prod_beta Let_def
      split: option.split)

lemma dump_text: "dump_text_ok (dump_of su clock dm)"
  by (auto simp: dump_text_ok_def dump_of_def build_dump_def list_all_iff)

text \<open>The request the daemon makes of an access.\<close>

definition request_for :: "params \<Rightarrow> access_env \<Rightarrow> event \<Rightarrow> 's daemon \<Rightarrow> prompt_request" where
  "request_for su ae ev dm =
     access_request su (covering_watch (dm_policy dm) (event_path (ae_proc ae) ev)) (ae_proc ae) ev
       (event_path (ae_proc ae) ev) (event_exe (ae_proc ae) ev) (event_cwd (ae_proc ae) ev)"

lemma request_for_text [simp]: "request_text_ok (request_for su ae ev dm)"
  by (simp add: request_for_def access_request_text)

section \<open>A prompt and its answer\<close>

lemma prompt_exchange:
  assumes "json_law jt" and "request_text_ok req"
    and "length (js_print jt (enc_prompt_request req)) \<le> unat max_msg_len"
    and "length (js_print jt (enc_prompt_response \<lparr>pp_decision = d\<rparr>)) \<le> unat max_msg_len"
    and "answer 0 req = Some d"
    and "arriving (sk_in helper) = frame (js_print jt (enc_prompt_request req))"
      "sk_out helper = []" "sk_room helper = None"
    and "arriving (sk_in link) = sk_out (snd (serve_with (helper_json jt) answer 0 helper))"
      "sk_room link = None"
  shows "\<exists>link'. link_prompt (ui_json jt) req link = (Inr d, link')"
proof -
  let ?out = "js_print jt (enc_prompt_request req)" and ?body = "js_print jt (enc_prompt_response \<lparr>pp_decision = d\<rparr>)"
  have dec: "hc_dec_request (helper_json jt) ?out = Some req"
    using requests.received [OF assms(1,2)] by (simp add: helper_json_def)
  have enc: "hc_enc_response (helper_json jt) \<lparr>pp_decision = d\<rparr> = Inr ?body"
    by (simp add: helper_json_def send_as_def)
  have "arriving (sk_in helper) = frame ?out @ []"
    using assms(6) by simp
  from serve_with_next [OF this assms(3), of "helper_json jt" req answer 0 d, OF dec assms(5) enc assms(4,8)]
  obtain s' where s': "serve_with (helper_json jt) answer 0 helper = serve_with (helper_json jt) answer (Suc 0) s'"
    "arriving (sk_in s') = []" "sk_out s' = frame ?body"
    using assms(7) by auto
  have "sk_out (snd (serve_with (helper_json jt) answer 0 helper)) = frame ?body @ []"
    using serve_with_end [OF s'(2), of "helper_json jt" answer "Suc 0"] s' by simp
  moreover have "uc_enc_request (ui_json jt) req = Inr ?out"
    by (simp add: ui_json_def send_as_def)
  moreover have "uc_dec_response (ui_json jt) ?body = Some \<lparr>pp_decision = d\<rparr>"
    using responses.received [OF assms(1) TrueI] by (simp add: ui_json_def)
  ultimately show ?thesis
    using link_prompt_ok [of "ui_json jt" req ?out link ?body "[]"] assms(3,4,9,10) by fastforce
qed

text \<open>An access that is put to a helper over an idle connection is decided by what the helper answers.\<close>

lemma answer_decides:
  assumes "\<not> passes_by sv su ae ev dm" and "outcome_of sv ae ev dm = OutPrompt"
    and "sv_codec sv = ui_json jt" and "dm_ui dm = Some link"
    and "link_prompt (ui_json jt) (request_for su ae ev dm) link = (Inr d, link')"
  shows "fst (decide_event sv su ae ev dm) = decision_allows d"
proof -
  have "prompt_recovering (sv_codec sv) (request_for su ae ev dm) (dm_ui dm) (dm_server dm) =
      (Inr d, Some link', dm_server dm)"
    using assms(3-5) by (simp add: prompt_recovering_def ensure_link_def)
  then show ?thesis
    using assms(1,2) by (simp add: decide_event_def ask_user_eq request_for_def Let_def)
qed

section \<open>The window over JSON\<close>

text \<open>The decisions the application puts into the channel while it works off messages.\<close>

fun app_sends :: "(gui_env \<times> message) list \<Rightarrow> app \<Rightarrow> decision list" where
  "app_sends [] app = []"
| "app_sends ((ge, m) # ms) app =
     (let (app', sent, task) = app_update ge m app in sent @ app_sends ms app')"

text \<open>The decision by which a message ends a prompt with the given deadline, if it ends it.\<close>

definition ending :: "instant \<Rightarrow> gui_env \<times> message \<Rightarrow> decision option" where
  "ending deadline gm =
     (case snd gm of
        Decide d \<Rightarrow> Some d
      | DenyMsg \<Rightarrow> Some DenyOnce
      | Tick \<Rightarrow> if deadline \<le> ge_now (fst gm) then Some DenyOnce else None
      | _ \<Rightarrow> None)"

lemma app_sends_idle:
  assumes "ap_pending app = None" and "\<forall>gm \<in> set ms. user_message (snd gm)"
  shows "app_sends ms app = []"
  using assms
proof (induction ms)
  case (Cons gm ms)
  then show ?case
    by (cases gm; cases "snd gm") (auto simp: user_message_def app_update_def app_resolve_def)
qed simp

lemma app_sends_pending:
  assumes "ap_pending app = Some p" and "ap_decision_tx app" and "\<forall>gm \<in> set ms. user_message (snd gm)"
  shows "app_sends ms app = take 1 (List.map_filter (ending (pe_deadline p)) ms)"
  using assms
proof (induction ms arbitrary: app p)
  case (Cons gm ms)
  obtain ge m where gm: "gm = (ge, m)" by (cases gm)
  have rest: "\<forall>gm \<in> set ms. user_message (snd gm)" using Cons.prems(3) by simp
  consider (ends) d where "ending (pe_deadline p) gm = Some d" | (stays) "ending (pe_deadline p) gm = None"
    by (cases "ending (pe_deadline p) gm") auto
  then show ?case
  proof cases
    case ends
    then have "app_update ge m app = app_resolve d app"
      using Cons.prems(1) gm by (cases m) (auto simp: ending_def app_update_def split: if_splits)
    then show ?thesis
      using ends gm Cons.prems(1,2) app_sends_idle [OF _ rest]
      by (simp add: app_resolve_def map_filter_simps)
  next
    case stays
    then obtain app' p' where u: "app_update ge m app = (app', [], TaskNone)" "ap_pending app' = Some p'"
      "pe_deadline p' = pe_deadline p" "ap_decision_tx app'"
      using Cons.prems gm
      by (cases m) (auto simp: ending_def app_update_def user_message_def split: if_splits)
    then show ?thesis
      using stays gm Cons.IH [OF u(2,4) rest] by (simp add: map_filter_simps)
  qed
qed (simp add: map_filter_simps)

lemma app_sends_prompt:
  assumes "ap_pending app = None" and "ap_decision_tx app" and "\<forall>gm \<in> set ms. user_message (snd gm)"
  shows "app_sends ((ge, PromptMsg req) # ms) app =
    take 1 (List.map_filter (ending (ge_now ge + 1000000 * unat (effective_ms req
      (case ge_fallback_ms ge of Some f \<Rightarrow> f | None \<Rightarrow> default_fallback_ms)))) ms)"
proof -
  obtain app' p where u: "app_update ge (PromptMsg req) app = (app', [], OpenWindow (ge_window ge))"
    "ap_pending app' = Some p" "ap_decision_tx app'"
    "pe_deadline p = ge_now ge + 1000000 * unat (effective_ms req
      (case ge_fallback_ms ge of Some f \<Rightarrow> f | None \<Rightarrow> default_fallback_ms))"
    using assms(1,2) by (auto simp: app_update_def app_resolve_def Let_def split: if_splits option.splits)
  then show ?thesis
    using app_sends_pending [OF u(2,3) assms(3)] by simp
qed

section \<open>Requests that are too long\<close>

lemma oversized_prompt:
  assumes "uc_enc_request uc req = Inr out" and "unat max_msg_len < length out"
  shows "link_prompt uc req link = (Inl InvalidData, link)"
  using sending.write_msg_too_long [of "uc_enc_request uc", OF assms]
  by (simp add: link_prompt_def write_msg_def)

section \<open>Properties\<close>

text \<open>
  A text form to try the statements on: the trees of a list are written as their place in it, all
  others by their number.
\<close>

instance json :: countable
  by countable_datatype

fun place :: "nat \<Rightarrow> json list \<Rightarrow> json \<Rightarrow> nat option" where
  "place k [] v = None"
| "place k (x # xs) v = (if x = v then Some k else place (Suc k) xs v)"

definition table_text :: "json list \<Rightarrow> json_text" where
  "table_text vs =
     \<lparr>js_print = (\<lambda>v. case place 0 vs v of Some k \<Rightarrow> [of_nat k] | None \<Rightarrow> 255 # replicate (Suc (to_nat v)) 0),
      js_parse = (\<lambda>bs. case bs of [b] \<Rightarrow> Some (vs ! unat b) | _ \<Rightarrow> Some (from_nat (length bs - 2)))\<rparr>"

lemma place_Some: "place k vs v = Some i \<Longrightarrow> k \<le> i \<and> i < k + length vs \<and> vs ! (i - k) = v"
proof (induction k vs v rule: place.induct)
  case (2 k x xs v)
  then show ?case by (fastforce simp: nth_Cons' split: if_splits)
qed simp

lemma table_text_law: "length vs < 256 \<Longrightarrow> json_law (table_text vs)"
proof -
  assume short: "length vs < 256"
  have "js_parse (table_text vs) (js_print (table_text vs) v) = Some v" for v
  proof (cases "place 0 vs v")
    case (Some i)
    then have "i < 256" "vs ! i = v"
      using place_Some [OF Some] short by auto
    then show ?thesis
      using Some by (simp add: table_text_def unat_of_nat)
  qed (simp add: table_text_def)
  then show ?thesis
    by (simp add: json_law_def)
qed

definition demo_trees :: "json list" where
  "demo_trees = enc_prompt_request (request_for demo_params demo_access demo_event (demo_daemon rules_default None)) #
     map (\<lambda>d. enc_prompt_response \<lparr>pp_decision = d\<rparr>) [AllowOnce, DenyOnce, AllowAlways, DenyAlways] @
     [enc_dump_response (dump_of demo_params 0 (demo_daemon rules_default None))]"

lemma demo_text_law: "json_law (table_text demo_trees)"
  by (rule table_text_law) (simp add: demo_trees_def)

lemma demo_text_request:
  "js_print (table_text demo_trees)
     (enc_prompt_request (request_for demo_params demo_access demo_event (demo_daemon rules_default ui))) = [0]"
  by (simp add: table_text_def demo_trees_def request_for_def demo_daemon_def)

lemma demo_text_response:
  "js_print (table_text demo_trees) (enc_prompt_response \<lparr>pp_decision = d\<rparr>) =
     [case d of AllowOnce \<Rightarrow> 1 | DenyOnce \<Rightarrow> 2 | AllowAlways \<Rightarrow> 3 | DenyAlways \<Rightarrow> 4]"
  by (cases d) (simp_all add: table_text_def demo_trees_def enc_prompt_request_def enc_prompt_response_def
      enc_decision_def decision_tag_def)

lemma demo_text_dump:
  "js_print (table_text demo_trees) (enc_dump_response (dump_of demo_params 0 (demo_daemon rules_default None))) = [5]"
  by (simp add: table_text_def demo_trees_def enc_prompt_request_def enc_prompt_response_def enc_dump_response_def)

text \<open>
  C13: each of the four messages, the request and the response of the prompt connection and of the
  control connection, is read back as it was once it went out, given that JSON text is read back as
  it was printed, and what follows it on the wire is left for the next read. The message types carry
  enough in their fields: nothing is lost in the schema.
\<close>

theorem messages_survive_the_wire:
  assumes "json_law jt"
    and "write_msg sock_write sock_flush (uc_enc_request (ui_json jt)) (request_for su ae ev dm) w1 = (Inr u1, w1')"
      "arriving (sk_in r1) = drop (length (sk_out w1)) (sk_out w1') @ rest1"
    and "write_msg sock_write sock_flush (hc_enc_response (helper_json jt)) resp w2 = (Inr u2, w2')"
      "arriving (sk_in r2) = drop (length (sk_out w2)) (sk_out w2') @ rest2"
    and "write_msg_capped sock_write sock_flush (cc_enc_dump (control_json jt)) max_control_msg_len
           (dump_of su clock dm) w3 = (Inr u3, w3')"
      "arriving (sk_in r3) = drop (length (sk_out w3)) (sk_out w3') @ rest3"
  shows "(\<exists>r1'. read_msg sock_read (hc_dec_request (helper_json jt)) r1 = (Inr (request_for su ae ev dm), r1') \<and>
      arriving (sk_in r1') = rest1) \<and>
    (\<exists>r2'. read_msg sock_read (uc_dec_response (ui_json jt)) r2 = (Inr resp, r2') \<and>
      arriving (sk_in r2') = rest2) \<and>
    (\<exists>r3'. read_msg_capped sock_read (receive_as jt dec_dump_response) max_control_msg_len r3 =
      (Inr (dump_of su clock dm), r3') \<and> arriving (sk_in r3') = rest3) \<and>
    (\<forall>creq (w4 :: socket) u4 w4' (r4 :: socket) rest4.
      write_msg_capped sock_write sock_flush (send_as jt enc_control_request) max_control_msg_len creq w4 =
        (Inr u4, w4') \<and> arriving (sk_in r4) = drop (length (sk_out w4)) (sk_out w4') @ rest4 \<longrightarrow>
      (\<exists>r4'. read_msg_capped sock_read (cc_dec_request (control_json jt)) max_control_msg_len r4 = (Inr creq, r4') \<and>
        arriving (sk_in r4') = rest4))"
proof (intro conjI allI impI)
  show "\<exists>r1'. read_msg sock_read (hc_dec_request (helper_json jt)) r1 = (Inr (request_for su ae ev dm), r1') \<and>
      arriving (sk_in r1') = rest1"
    using requests.over_the_wire [OF assms(1) request_for_text _ assms(3)] assms(2)
    by (simp add: ui_json_def helper_json_def write_msg_def read_msg_def)
  show "\<exists>r2'. read_msg sock_read (uc_dec_response (ui_json jt)) r2 = (Inr resp, r2') \<and>
      arriving (sk_in r2') = rest2"
    using responses.over_the_wire [OF assms(1) TrueI _ assms(5)] assms(4)
    by (simp add: ui_json_def helper_json_def write_msg_def read_msg_def)
  show "\<exists>r3'. read_msg_capped sock_read (receive_as jt dec_dump_response) max_control_msg_len r3 =
      (Inr (dump_of su clock dm), r3') \<and> arriving (sk_in r3') = rest3"
    using dumps.over_the_wire [OF assms(1) dump_text _ assms(7)] assms(6)
    by (simp add: control_json_def)
next
  fix creq u4 rest4 and w4 w4' r4 :: socket
  assume "write_msg_capped sock_write sock_flush (send_as jt enc_control_request) max_control_msg_len creq w4 =
        (Inr u4, w4') \<and> arriving (sk_in r4) = drop (length (sk_out w4)) (sk_out w4') @ rest4"
  then show "\<exists>r4'. read_msg_capped sock_read (cc_dec_request (control_json jt)) max_control_msg_len r4 = (Inr creq, r4') \<and>
        arriving (sk_in r4') = rest4"
    using control_requests.over_the_wire [OF assms(1) TrueI, of max_control_msg_len creq w4 u4 w4' r4 rest4]
    by (simp add: control_json_def)
qed

theorem messages_survive_the_wire_witness:
  "\<exists>r. read_msg sock_read (uc_dec_response (ui_json (table_text demo_trees)))
       (demo_link [Data [0, 0, 0, 1], Data [3, 9]]) = (Inr \<lparr>pp_decision = AllowAlways\<rparr>, r) \<and> arriving (sk_in r) = [9]"
proof -
  let ?jt = "table_text demo_trees" and ?dm = "demo_daemon rules_default None :: unit daemon"
  have w1: "write_msg sock_write sock_flush (uc_enc_request (ui_json ?jt))
      (request_for demo_params demo_access demo_event ?dm) (demo_link []) = (Inr (), (demo_link [])\<lparr>sk_out := [0, 0, 0, 1, 0]\<rparr>)"
    using write_msg_fits [of "uc_enc_request (ui_json ?jt)"
        "request_for demo_params demo_access demo_event ?dm" "[0]" "demo_link []"]
    by (simp add: ui_json_def send_as_def demo_text_request demo_link_def max_msg_len_def demo_frame)
  have w2: "write_msg sock_write sock_flush (hc_enc_response (helper_json ?jt)) \<lparr>pp_decision = AllowAlways\<rparr> (demo_link []) =
      (Inr (), (demo_link [])\<lparr>sk_out := [0, 0, 0, 1, 3]\<rparr>)"
    using write_msg_fits [of "hc_enc_response (helper_json ?jt)" "\<lparr>pp_decision = AllowAlways\<rparr>" "[3]" "demo_link []"]
    by (simp add: helper_json_def send_as_def demo_text_response demo_link_def max_msg_len_def demo_frame)
  have w3: "write_msg_capped sock_write sock_flush (cc_enc_dump (control_json ?jt)) max_control_msg_len
      (dump_of demo_params 0 ?dm) (demo_link []) = (Inr (), (demo_link [])\<lparr>sk_out := [0, 0, 0, 1, 5]\<rparr>)"
    using demo_frame [of 5]
    by (simp add: write_msg_capped_def control_json_def send_as_def demo_text_dump max_control_msg_len_def
        sock_write_def sock_flush_def demo_link_def frame_def Let_def)
  show ?thesis
    using messages_survive_the_wire [OF demo_text_law w1 _ w2 _ w3, of "demo_link [Data [0, 0, 0, 1, 0]]" "[]"
        "demo_link [Data [0, 0, 0, 1], Data [3, 9]]" "[9]" "demo_link [Data [0, 0, 0, 1, 5]]" "[]"]
    by (simp add: demo_link_def)
qed

text \<open>
  C19: with the native helper at the other end of the connection, an access that needs the user is
  allowed exactly when the first thing that ends its window is a click on one of the two allow
  buttons: Escape, Enter, the close button, the deny buttons and the clock that reaches the
  deadline deny, and so does a window that nothing ends while the worker waits.
\<close>

theorem window_decides_the_access:
  assumes "\<not> passes_by sv su ae ev dm" and "outcome_of sv ae ev dm = OutPrompt"
    and "json_law jt" "sv_codec sv = ui_json jt"
    and "req = request_for su ae ev dm"
    and "length (js_print jt (enc_prompt_request req)) \<le> unat max_msg_len"
      "\<And>d. length (js_print jt (enc_prompt_response \<lparr>pp_decision = d\<rparr>)) \<le> unat max_msg_len"
    and "dm_ui dm = Some link" "sk_room link = None"
    and "arriving (sk_in helper) = frame (js_print jt (enc_prompt_request req))" "sk_out helper = []"
      "sk_room helper = None"
    and "arriving (sk_in link) = sk_out (snd (worker_serve (helper_json jt) fallback gps helper))"
    and "gp_open (gps 0)"
      "worker_wait fallback (gps 0) req =
         (case app_sends ((ge, PromptMsg req) # ms) app of d # _ \<Rightarrow> Got d | [] \<Rightarrow> Elapsed)"
    and "ap_pending app = None" "ap_decision_tx app" "\<forall>gm \<in> set ms. user_message (snd gm)"
  shows "fst (decide_event sv su ae ev dm) \<longleftrightarrow>
    (case List.map_filter (ending (ge_now ge + 1000000 * unat (effective_ms req
        (case ge_fallback_ms ge of Some f \<Rightarrow> f | None \<Rightarrow> default_fallback_ms)))) ms of
       [] \<Rightarrow> False | d # _ \<Rightarrow> d \<in> {AllowOnce, AllowAlways})"
proof -
  let ?ends = "List.map_filter (ending (ge_now ge + 1000000 * unat (effective_ms req
        (case ge_fallback_ms ge of Some f \<Rightarrow> f | None \<Rightarrow> default_fallback_ms)))) ms"
  let ?d = "case ?ends of [] \<Rightarrow> DenyOnce | d # _ \<Rightarrow> d"
  have "worker_wait fallback (gps 0) req = (case ?ends of d # _ \<Rightarrow> Got d | [] \<Rightarrow> Elapsed)"
    unfolding assms(15) app_sends_prompt [OF assms(16-18)] by (simp split: list.split)
  then have answer: "worker_resolve fallback (gps 0) req = Some ?d"
    using assms(14) by (simp add: worker_resolve_eq split: list.split)
  have utf8: "request_text_ok req"
    unfolding assms(5) by (rule request_for_text)
  obtain link' where "link_prompt (ui_json jt) req link = (Inr ?d, link')"
    using prompt_exchange [where answer = "\<lambda>i. worker_resolve fallback (gps i)",
        OF assms(3) utf8 assms(6,7) answer assms(10-12) assms(13) [unfolded worker_serve_def] assms(9)]
    by blast
  then have "fst (decide_event sv su ae ev dm) = decision_allows ?d"
    using answer_decides [OF assms(1,2,4,8)] unfolding assms(5) by blast
  then show ?thesis
    by (auto simp: decision_allows_def split: list.split decision.splits)
qed

definition demo_json_services :: "(string, unit) services" where
  "demo_json_services = demo_services\<lparr>sv_codec := ui_json (table_text demo_trees)\<rparr>"

lemma demo_same_globs:
  assumes "sv_api sv = sv_api demo_services"
  shows "passes_by sv su ae ev dm = passes_by demo_services su ae ev dm"
    and "access_outcome sv dm p x c = access_outcome demo_services dm p x c"
  unfolding passes_by_def access_outcome_def assms by (rule refl)+

lemmas demo_json_same = demo_same_globs [of demo_json_services, unfolded demo_json_services_def, simplified,
    folded demo_json_services_def]

theorem window_decides_the_access_witness:
  "fst (decide_event demo_json_services demo_params demo_access demo_event
     (demo_daemon rules_default (Some (demo_link [Data [0, 0, 0, 1, 1]]))))"
proof -
  let ?dm = "demo_daemon rules_default (Some (demo_link [Data [0, 0, 0, 1, 1]]))"
  let ?jt = "table_text demo_trees" and ?req = "request_for demo_params demo_access demo_event ?dm"
  let ?gps = "\<lambda>i :: nat. \<lparr>gp_stale = [], gp_open = True, gp_later = (\<lambda>_. Got AllowOnce)\<rparr>"
  let ?helper = "demo_link [Data [0, 0, 0, 1, 0]]" and ?ms = "[(demo_gui 6, Decide AllowOnce)]"
  have p: "dm_policy ?dm = demo_policy" "dm_rules ?dm = rules_default"
    and ui: "dm_ui ?dm = Some (demo_link [Data [0, 0, 0, 1, 1]])"
    by (simp_all add: demo_daemon_def)
  have out: "outcome_of demo_json_services demo_access demo_event ?dm = OutPrompt"
    using demo_prompts [OF p] by (simp add: demo_json_same demo_access_def demo_names)
  have reached: "\<not> passes_by demo_json_services demo_params demo_access demo_event ?dm"
    by (simp add: demo_json_same demo_not_passed [OF p(1)])
  have sent: "app_sends ((demo_gui 5, PromptMsg ?req) # ?ms) demo_app = [AllowOnce]"
    by (subst app_sends_prompt) (simp_all add: demo_app_def user_message_def ending_def map_filter_simps)
  have "length (js_print ?jt (enc_prompt_response resp)) = 1" for resp
    by (cases resp) (simp add: demo_text_response)
  then have resp: "hc_enc_response (helper_json ?jt) resp = Inr (js_print ?jt (enc_prompt_response resp)) \<and>
      length (js_print ?jt (enc_prompt_response resp)) \<le> unat max_msg_len" for resp
    by (simp add: helper_json_def send_as_def max_msg_len_def)
  have "hc_dec_request (helper_json ?jt) [0] = Some ?req"
    using requests.received [OF demo_text_law request_for_text, of demo_params demo_access demo_event ?dm]
    by (simp add: helper_json_def demo_text_request)
  then have "list_all2 (\<lambda>body req. length body \<le> unat max_msg_len \<and> hc_dec_request (helper_json ?jt) body = Some req)
      [[0]] [?req]"
    by (simp add: max_msg_len_def)
  from worker_answers.served [OF this _ _ resp, of ?helper 90000 ?gps 0]
  have "sk_out (snd (worker_serve (helper_json ?jt) 90000 ?gps ?helper)) = sk_out ?helper @
      replies (\<lambda>r. js_print ?jt (enc_prompt_response r)) (worker_decision 90000 ?gps) 0
        (take (answered (\<lambda>i. worker_resolve 90000 (?gps i)) 0 [?req]) [?req])"
    by (simp add: worker_serve_def demo_link_def demo_frame)
  then have served: "sk_out (snd (worker_serve (helper_json ?jt) 90000 ?gps ?helper)) = [0, 0, 0, 1, 1]"
    by (simp add: worker_resolve_eq worker_wait_def worker_decision_def demo_text_response demo_frame demo_link_def)
  show ?thesis
    using window_decides_the_access [OF reached out demo_text_law _ refl, of "demo_link [Data [0, 0, 0, 1, 1]]" ?helper
        90000 ?gps "demo_gui 5" ?ms demo_app, unfolded sent served]
    by (simp add: ui demo_json_services_def demo_text_request demo_text_response max_msg_len_def demo_frame
        worker_wait_def demo_app_def user_message_def ending_def map_filter_simps split: decision.split)
      (simp add: demo_link_def)
qed

text \<open>
  C22: a request that does not fit into a prompt message is never shown: with a command line longer
  than 64 KiB, in any encoding that is at least as long as it, a program is denied without a question
  and nothing of the request goes out, while the connection is kept.
\<close>

theorem long_command_line_is_never_shown:
  assumes "\<not> passes_by sv su ae ev dm" and "outcome_of sv ae ev dm = OutPrompt"
    and "uc_enc_request (sv_codec sv) (request_for su ae ev dm) = Inr out"
    and "length (event_cmdline (ae_proc ae) ev) \<le> length out"
    and "unat max_msg_len < length (event_cmdline (ae_proc ae) ev)"
    and "dm_ui dm = Some link"
  shows "decide_event sv su ae ev dm = (False, dm)"
proof -
  have long: "unat max_msg_len < length out"
    using assms(4,5) by simp
  have "prompt_recovering (sv_codec sv) (request_for su ae ev dm) (dm_ui dm) (dm_server dm) =
      (Inl InvalidData, dm_ui dm, dm_server dm)"
    using oversized_prompt [OF assms(3) long] assms(6)
    by (simp add: prompt_recovering_def ensure_link_def is_disconnect_def)
  from no_answer_denies [OF assms(1,2) this [unfolded request_for_def]] show ?thesis
    by simp
qed

lemma split_on_absent: "x \<notin> set ys \<Longrightarrow> split_on x ys = [ys]"
  by (induction ys) auto

theorem long_command_line_is_never_shown_witness:
  "\<not> fst (decide_event
     (demo_services\<lparr>sv_codec := \<lparr>uc_enc_request = (\<lambda>r. Inr (map of_char (pr_cmdline r))), uc_dec_response = (\<lambda>_. None)\<rparr>\<rparr>)
     demo_params (demo_access\<lparr>ae_proc := demo_proc\<lparr>ps_file := (\<lambda>_. Inr (replicate 70000 (CHR ''a'')))\<rparr>\<rparr>)
     demo_event (demo_daemon rules_default (Some (demo_link []))))"
proof -
  let ?sv = "demo_services\<lparr>sv_codec := \<lparr>uc_enc_request = (\<lambda>r. Inr (map of_char (pr_cmdline r))),
      uc_dec_response = (\<lambda>_. None)\<rparr>\<rparr>"
  let ?ps = "demo_proc\<lparr>ps_file := (\<lambda>_. Inr (replicate 70000 (CHR ''a'')))\<rparr>"
  let ?ae = "demo_access\<lparr>ae_proc := ?ps\<rparr>" and ?dm = "demo_daemon rules_default (Some (demo_link []))"
  have p: "dm_policy ?dm = demo_policy" "dm_rules ?dm = rules_default"
    by (simp_all add: demo_daemon_def)
  have names: "event_path (ae_proc ?ae) demo_event = ''/w/k''" "event_exe (ae_proc ?ae) demo_event = ''/bin/cat''"
    "event_cwd (ae_proc ?ae) demo_event = ''/home''"
    using demo_names by (simp_all add: event_path_def accessed_path_def event_exe_def event_cwd_def proc_cwd_def)
  have api: "sv_api ?sv = sv_api demo_services"
    by simp
  have path: "event_path (ae_proc demo_access) demo_event = ''/w/k''"
    by (simp add: demo_access_def demo_names)
  have "passes_by ?sv demo_params ?ae demo_event ?dm = passes_by demo_services demo_params demo_access demo_event ?dm"
    unfolding passes_by_def api names path by (rule refl)
  moreover have "outcome_of ?sv ?ae demo_event ?dm = access_outcome demo_services ?dm ''/w/k'' ''/bin/cat'' ''/home''"
    unfolding names demo_same_globs(2) [OF api] by (rule refl)
  ultimately have reached: "\<not> passes_by ?sv demo_params ?ae demo_event ?dm" "outcome_of ?sv ?ae demo_event ?dm = OutPrompt"
    using demo_not_passed [OF p(1)] demo_prompts [OF p] by simp_all
  have "ascii (replicate n (CHR ''a''))" for n
    by (simp add: ascii_def list_all_iff)
  moreover have "char_of (0 :: nat) \<noteq> CHR ''a''"
    by code_simp
  ultimately have cmd: "event_cmdline (ae_proc ?ae) demo_event = replicate 70000 (CHR ''a'')"
    using split_on_absent [of "char_of (0 :: nat)" "replicate 70000 (CHR ''a'')"]
    by (simp add: event_cmdline_def from_utf8_lossy_valid ascii_valid_utf8)
  have "pr_cmdline (request_for demo_params ?ae demo_event ?dm) = event_cmdline (ae_proc ?ae) demo_event"
    by (simp add: request_for_def access_request_def case_prod_beta Let_def)
  then show ?thesis
    using long_command_line_is_never_shown [OF reached, of "map of_char (replicate 70000 (CHR ''a''))" "demo_link []"] cmd
    by (simp add: max_msg_len_def demo_daemon_def)
qed

end
