(* ===== verification/FW_Store.thy ===== *)
theory FW_Store
  imports FW_Wire
begin

text \<open>
  The schema of the two TOML files: \<open>rules.toml\<close> (filewall-rules/src/lib.rs) and the configuration
  (filewalld/src/config.rs). As for the messages, the \<open>serde\<close> attributes of the structs say which keys
  are written, which may be missing and what they then are; the text form is \<open>toml\<close> and a parameter.
  A path is written as a string, which fails when it is not UTF-8. The forms of a table or of a
  variant that nobody writes by hand (an array in place of a table, a table in place of the name of a
  variant) are not read here.
\<close>

section \<open>Trees that can be printed\<close>

definition is_table :: "json \<Rightarrow> bool" where
  "is_table v =
     (case v of JObj _ \<Rightarrow> True | JArr vs \<Rightarrow> vs \<noteq> [] \<and> list_all (\<lambda>w. case w of JObj _ \<Rightarrow> True | _ \<Rightarrow> False) vs | _ \<Rightarrow> False)"

text \<open>
  In every table no key is repeated and the plain keys come before the tables, integers fit the
  signed 64 bits of TOML, strings are UTF-8 and the nesting is within the bound.
\<close>

fun toml_ok :: "json \<Rightarrow> bool" where
  "toml_ok (JBool b) \<longleftrightarrow> True"
| "toml_ok (JNum n) \<longleftrightarrow> - (2 ^ 63) \<le> n \<and> n < 2 ^ 63"
| "toml_ok (JStr s) \<longleftrightarrow> valid_utf8 s"
| "toml_ok (JArr vs) \<longleftrightarrow> (\<forall>v \<in> set vs. toml_ok v \<and> nesting v \<le> 30) \<and> nesting (JArr vs) \<le> max_nesting"
| "toml_ok (JObj kvs) \<longleftrightarrow>
     (\<forall>kv \<in> set kvs. valid_utf8 (fst kv) \<and> toml_ok (snd kv)) \<and> distinct (map fst kvs) \<and>
     nesting (JObj kvs) \<le> max_nesting \<and>
     list_all is_table (dropWhile (\<lambda>v. \<not> is_table v) (map snd kvs))"
| "toml_ok v \<longleftrightarrow> False"

record toml_text =
  tm_print :: "json \<Rightarrow> string option"
  tm_parse :: "string \<Rightarrow> json option"

definition toml_law :: "toml_text \<Rightarrow> bool" where
  "toml_law tt \<longleftrightarrow>
     (\<forall>kvs. toml_ok (JObj kvs) \<longrightarrow>
        (\<exists>t. tm_print tt (JObj kvs) = Some t \<and> valid_utf8 t \<and> tm_parse tt t = Some (JObj kvs)))"

section \<open>Reading tables\<close>

definition table_fields :: "string list \<Rightarrow> json \<Rightarrow> (string \<Rightarrow> json option) option" where
  "table_fields names v =
     (case v of JObj _ \<Rightarrow> map_option snd (struct_fields names v) | _ \<Rightarrow> None)"

definition as_tag :: "('a \<Rightarrow> string) \<Rightarrow> 'a list \<Rightarrow> json \<Rightarrow> 'a option" where
  "as_tag tag xs v = as_text v \<bind> (\<lambda>s. List.find (\<lambda>x. tag x = s) xs)"

section \<open>The rule file\<close>

definition rule_action_tag :: "rule_action \<Rightarrow> string" where
  "rule_action_tag a = (case a of RuleAllow \<Rightarrow> ''allow'' | RuleDeny \<Rightarrow> ''deny'')"

definition object_kind_tag :: "object_kind \<Rightarrow> string" where
  "object_kind_tag k = (case k of KindFile \<Rightarrow> ''file'' | KindTree \<Rightarrow> ''tree'')"

definition enc_path :: "path \<Rightarrow> json option" where
  "enc_path p = (if valid_utf8 p then Some (JStr p) else None)"

definition enc_learned_rule :: "learned_rule \<Rightarrow> json option" where
  "enc_learned_rule r =
     do { object \<leftarrow> enc_path (lr_object r);
          Some (JObj ([(''id'', JNum (uint (lr_id r))), (''created_unix'', JNum (uint (lr_created_unix r))),
                       (''action'', JStr (rule_action_tag (lr_action r))), (''exe'', JStr (lr_exe r)),
                       (''object'', object), (''object_kind'', JStr (object_kind_tag (lr_object_kind r)))] @
                      (case lr_cwd r of None \<Rightarrow> [] | Some c \<Rightarrow> [(''cwd'', JStr c)]))) }"

definition learned_rule_fields :: "string list" where
  "learned_rule_fields =
     [''id'', ''created_unix'', ''action'', ''exe'', ''object'', ''object_kind'', ''cwd'']"

definition dec_learned_rule :: "json \<Rightarrow> learned_rule option" where
  "dec_learned_rule v =
     do { f \<leftarrow> table_fields learned_rule_fields v;
          id \<leftarrow> defaulted 0 as_u64 (f ''id'');
          created \<leftarrow> required as_u64 (f ''created_unix'');
          act \<leftarrow> required (as_tag rule_action_tag [RuleAllow, RuleDeny]) (f ''action'');
          exe \<leftarrow> required as_text (f ''exe'');
          object \<leftarrow> required as_text (f ''object'');
          kind \<leftarrow> required (as_tag object_kind_tag [KindFile, KindTree]) (f ''object_kind'');
          cwd \<leftarrow> defaulted None (as_option as_text) (f ''cwd'');
          Some \<lparr>lr_id = id, lr_created_unix = created, lr_action = act, lr_exe = exe, lr_object = object,
                lr_object_kind = kind, lr_cwd = cwd\<rparr> }"

definition enc_rules :: "rules \<Rightarrow> json option" where
  "enc_rules rs =
     do { vs \<leftarrow> those (map enc_learned_rule (rs_rules rs));
          Some (JObj [(''next_id'', JNum (uint (rs_next_id rs))), (''rule'', JArr vs)]) }"

definition dec_rules :: "json \<Rightarrow> rules option" where
  "dec_rules v =
     do { f \<leftarrow> table_fields [''next_id'', ''rule''] v;
          next \<leftarrow> defaulted 0 as_u64 (f ''next_id'');
          rules \<leftarrow> defaulted [] (as_list dec_learned_rule) (f ''rule'');
          Some \<lparr>rs_next_id = next, rs_rules = rules\<rparr> }"

definition rules_to_toml :: "toml_text \<Rightarrow> rules \<Rightarrow> string option" where
  "rules_to_toml tt rs = enc_rules rs \<bind> tm_print tt"

definition rules_from_toml :: "toml_text \<Rightarrow> string \<Rightarrow> rules option" where
  "rules_from_toml tt body = tm_parse tt body \<bind> dec_rules"

section \<open>The configuration file\<close>

definition action_tag :: "action \<Rightarrow> string" where
  "action_tag a = (case a of ActPrompt \<Rightarrow> ''prompt'' | ActAllow \<Rightarrow> ''allow'' | ActDeny \<Rightarrow> ''deny'')"

text \<open>A key that has a default: nothing when it is missing, an error when it is there and wrong.\<close>

definition present :: "(json \<Rightarrow> 'a option) \<Rightarrow> json option \<Rightarrow> 'a option option" where
  "present f x = defaulted None (\<lambda>v. map_option Some (f v)) x"

definition raw_watch_fields :: "string list" where
  "raw_watch_fields = [''path'', ''allow'', ''exclude'', ''learn_object'', ''learn_match'', ''patterns'']"

definition dec_raw_watch :: "json \<Rightarrow> raw_watch option" where
  "dec_raw_watch v =
     do { f \<leftarrow> table_fields raw_watch_fields v;
          path \<leftarrow> required as_text (f ''path'');
          allow \<leftarrow> present (as_list as_text) (f ''allow'');
          exclude \<leftarrow> present (as_list as_text) (f ''exclude'');
          learn_object \<leftarrow> present (as_tag object_kind_tag [KindFile, KindTree]) (f ''learn_object'');
          learn_match \<leftarrow> present (as_list as_text) (f ''learn_match'');
          patterns \<leftarrow> present (as_list as_text) (f ''patterns'');
          Some \<lparr>rw_path = path, rw_allow = allow, rw_exclude = exclude, rw_learn_object = learn_object,
                rw_learn_match = learn_match, rw_patterns = patterns\<rparr> }"

definition raw_config_fields :: "string list" where
  "raw_config_fields =
     [''default_action'', ''prompt_timeout_seconds'', ''socket_path'', ''control_socket_path'',
      ''rules_path'', ''watch'']"

definition dec_raw_config :: "json \<Rightarrow> raw_config option" where
  "dec_raw_config v =
     do { f \<leftarrow> table_fields raw_config_fields v;
          action \<leftarrow> present (as_tag action_tag [ActPrompt, ActAllow, ActDeny]) (f ''default_action'');
          timeout \<leftarrow> present as_u64 (f ''prompt_timeout_seconds'');
          socket \<leftarrow> present as_text (f ''socket_path'');
          control \<leftarrow> present as_text (f ''control_socket_path'');
          rules \<leftarrow> present as_text (f ''rules_path'');
          watch \<leftarrow> present (as_list dec_raw_watch) (f ''watch'');
          Some \<lparr>rc_default_action = action, rc_prompt_timeout_seconds = timeout, rc_socket_path = socket,
                rc_control_socket_path = control, rc_rules_path = rules, rc_watch = watch\<rparr> }"

definition config_from_toml :: "toml_text \<Rightarrow> string \<Rightarrow> raw_config option" where
  "config_from_toml tt text = tm_parse tt text \<bind> dec_raw_config"

section \<open>Reading back what was written\<close>

lemma table_fields_object:
  "distinct (filter (\<lambda>k. k \<in> set names) (map fst kvs)) \<Longrightarrow> table_fields names (JObj kvs) = Some (map_of kvs)"
  by (simp add: table_fields_def struct_fields_object)

lemma as_tag_tags [fw_schema]:
  "as_tag rule_action_tag [RuleAllow, RuleDeny] (JStr (rule_action_tag a)) = Some a"
  "as_tag object_kind_tag [KindFile, KindTree] (JStr (object_kind_tag k)) = Some k"
  "as_tag action_tag [ActPrompt, ActAllow, ActDeny] (JStr (action_tag b)) = Some b"
proof -
  show "as_tag rule_action_tag [RuleAllow, RuleDeny] (JStr (rule_action_tag a)) = Some a"
    by (cases a) (simp_all add: as_tag_def as_text_def rule_action_tag_def)
  show "as_tag object_kind_tag [KindFile, KindTree] (JStr (object_kind_tag k)) = Some k"
    by (cases k) (simp_all add: as_tag_def as_text_def object_kind_tag_def)
  show "as_tag action_tag [ActPrompt, ActAllow, ActDeny] (JStr (action_tag b)) = Some b"
    by (cases b) (simp_all add: as_tag_def as_text_def action_tag_def)
qed

lemma enc_path_Some [simp]: "enc_path p = Some v \<longleftrightarrow> valid_utf8 p \<and> v = JStr p"
  by (auto simp: enc_path_def)

lemma as_option_text [fw_schema]: "as_option as_text (JStr s) = Some (Some s)"
  by (simp add: as_option_def as_text_def)

lemma dec_enc_learned_rule:
  assumes "enc_learned_rule r = Some v"
  shows "dec_learned_rule v = Some r"
proof -
  have "dec_learned_rule (JObj ([(''id'', JNum (uint (lr_id r))), (''created_unix'', JNum (uint (lr_created_unix r))),
      (''action'', JStr (rule_action_tag (lr_action r))), (''exe'', JStr (lr_exe r)),
      (''object'', JStr (lr_object r)), (''object_kind'', JStr (object_kind_tag (lr_object_kind r)))] @
      (case lr_cwd r of None \<Rightarrow> [] | Some c \<Rightarrow> [(''cwd'', JStr c)]))) = Some r"
    by (cases "lr_cwd r")
      (simp_all add: dec_learned_rule_def learned_rule_fields_def table_fields_object fw_schema)
  then show ?thesis
    using assms by (auto simp: enc_learned_rule_def bind_eq_Some_conv)
qed

lemma those_Some_iff: "those xs = Some ys \<longleftrightarrow> xs = map Some ys"
proof (induction xs arbitrary: ys)
  case (Cons x xs)
  then show ?case by (cases x; cases ys) (auto split: option.split)
qed auto

lemma those_None_iff: "those xs = None \<longleftrightarrow> None \<in> set xs"
proof (induction xs)
  case (Cons x xs)
  then show ?case by (cases x) (auto split: option.split)
qed simp

lemma dec_enc_rules:
  assumes "enc_rules rs = Some v"
  shows "dec_rules v = Some rs"
proof -
  obtain vs where vs: "map enc_learned_rule (rs_rules rs) = map Some vs"
    and v: "v = JObj [(''next_id'', JNum (uint (rs_next_id rs))), (''rule'', JArr vs)]"
    using assms by (auto simp: enc_rules_def bind_eq_Some_conv those_Some_iff)
  have "map dec_learned_rule vs = map Some (rs_rules rs)"
    using vs
  proof (induction vs arbitrary: rs)
    case (Cons w vs)
    then obtain r qs where "rs_rules rs = r # qs" by (cases "rs_rules rs") auto
    then show ?case
      using Cons.IH [of "rs\<lparr>rs_rules := qs\<rparr>"] Cons.prems by (simp add: dec_enc_learned_rule)
  qed simp
  then have "as_list dec_learned_rule (JArr vs) = Some (rs_rules rs)"
    by (simp add: as_list_def those_Some_iff)
  then show ?thesis
    by (simp add: v dec_rules_def table_fields_object fw_schema)
qed

section \<open>Which rule sets can be written\<close>

definition small :: "u64 \<Rightarrow> bool" where
  "small w \<longleftrightarrow> unat w < 2 ^ 63"

definition storable_rule :: "learned_rule \<Rightarrow> bool" where
  "storable_rule r \<longleftrightarrow> small (lr_id r) \<and> small (lr_created_unix r) \<and> valid_utf8 (lr_exe r) \<and>
     valid_utf8 (lr_object r) \<and> valid_utf8 (case lr_cwd r of None \<Rightarrow> [] | Some c \<Rightarrow> c)"

definition storable :: "rules \<Rightarrow> bool" where
  "storable rs \<longleftrightarrow> small (rs_next_id rs) \<and> list_all storable_rule (rs_rules rs)"

lemma toml_ok_small: "small w \<Longrightarrow> toml_ok (JNum (uint w))"
proof -
  assume "small w"
  then have "int (unat w) < int (2 ^ 63)"
    by (simp only: small_def of_nat_less_iff)
  then have "uint w < 2 ^ 63"
    by simp
  moreover have "- (2 ^ 63) \<le> uint w"
    by (rule order.trans [OF _ uint_nonnegative]) simp
  ultimately show ?thesis by simp
qed

lemma enc_learned_rule_ok:
  assumes "storable_rule r"
  shows "\<exists>kvs. enc_learned_rule r = Some (JObj kvs) \<and> toml_ok (JObj kvs) \<and> nesting (JObj kvs) \<le> 30"
proof -
  have "ascii (rule_action_tag a)" "ascii (object_kind_tag k)" for a k
    by (cases a; simp add: rule_action_tag_def ascii_def) (cases k; simp add: object_kind_tag_def ascii_def)
  then have tags: "valid_utf8 (rule_action_tag a)" "valid_utf8 (object_kind_tag k)" for a k
    by (simp_all add: ascii_valid_utf8)
  have keys: "\<forall>k \<in> set learned_rule_fields. valid_utf8 k"
    by (simp add: learned_rule_fields_def ascii_valid_utf8 ascii_def)
  show ?thesis
    using assms tags keys toml_ok_small
    by (cases "lr_cwd r")
      (auto simp: enc_learned_rule_def enc_path_def storable_rule_def learned_rule_fields_def is_table_def max_nesting_def
        simp del: toml_ok.simps(2))
qed

lemma enc_rules_ok:
  assumes "storable rs"
  shows "\<exists>kvs. enc_rules rs = Some (JObj kvs) \<and> toml_ok (JObj kvs)"
proof -
  have each: "\<exists>vs. map enc_learned_rule qs = map Some vs \<and> (\<forall>v \<in> set vs. toml_ok v \<and> nesting v \<le> 30) \<and>
      (\<forall>v \<in> set vs. \<exists>kvs. v = JObj kvs)" if "list_all storable_rule qs" for qs
    using that
  proof (induction qs)
    case (Cons r qs)
    then obtain vs where vs: "map enc_learned_rule qs = map Some vs" "\<forall>v \<in> set vs. toml_ok v \<and> nesting v \<le> 30"
      "\<forall>v \<in> set vs. \<exists>kvs. v = JObj kvs" by auto
    obtain kvs where kvs: "enc_learned_rule r = Some (JObj kvs)" "toml_ok (JObj kvs)" "nesting (JObj kvs) \<le> 30"
      using enc_learned_rule_ok Cons.prems by auto
    show ?case
      by (rule exI [of _ "JObj kvs # vs"]) (use vs kvs in \<open>simp del: nesting.simps\<close>)
  qed simp
  then obtain vs where vs: "map enc_learned_rule (rs_rules rs) = map Some vs" "\<forall>v \<in> set vs. toml_ok v \<and> nesting v \<le> 30"
    "\<forall>v \<in> set vs. \<exists>kvs. v = JObj kvs"
    using each [of "rs_rules rs"] assms unfolding storable_def by blast
  have "vs \<noteq> [] \<Longrightarrow> is_table (JArr vs)"
    using vs(3) by (fastforce simp: is_table_def list_all_iff)
  moreover have "valid_utf8 ''next_id''" "valid_utf8 ''rule''"
    by (simp_all add: ascii_valid_utf8 ascii_def)
  moreover have "those (map enc_learned_rule (rs_rules rs)) = Some vs"
    using vs(1) by (simp add: those_Some_iff)
  moreover have "toml_ok (JArr vs)" "nesting (JArr vs) \<le> 31"
    using vs(2) nesting_list [of vs 30] by (simp_all add: max_nesting_def)
  ultimately show ?thesis
    using toml_ok_small assms
    by (cases "vs = []")
      (auto simp: enc_rules_def storable_def is_table_def max_nesting_def
        simp del: toml_ok.simps(2,4) nesting.simps(1))
qed

lemma rules_to_toml_ok:
  assumes "toml_law tt" and "storable rs"
  shows "\<exists>t. rules_to_toml tt rs = Some t \<and> valid_utf8 t \<and> rules_from_toml tt t = Some rs"
proof -
  obtain kvs where kvs: "enc_rules rs = Some (JObj kvs)" "toml_ok (JObj kvs)"
    using enc_rules_ok [OF assms(2)] by blast
  then obtain t where "tm_print tt (JObj kvs) = Some t" "valid_utf8 t" "tm_parse tt t = Some (JObj kvs)"
    using assms(1) unfolding toml_law_def by blast
  then show ?thesis
    using kvs(1) dec_enc_rules by (simp add: rules_to_toml_def rules_from_toml_def)
qed

text \<open>One object that is not UTF-8 is enough to have nothing written.\<close>

lemma unprintable_rule:
  assumes "r \<in> set (rs_rules rs)" and "\<not> valid_utf8 (lr_object r)"
  shows "rules_to_toml tt rs = None"
proof -
  have "enc_learned_rule r = None"
    using assms(2) by (simp add: enc_learned_rule_def enc_path_def)
  then have "those (map enc_learned_rule (rs_rules rs)) = None"
    using assms(1) by (metis image_eqI list.set_map those_None_iff)
  then show ?thesis
    by (simp add: rules_to_toml_def enc_rules_def)
qed

section \<open>Files of an older version\<close>

text \<open>A rule as it was written before there were ids.\<close>

definition legacy_rule :: "learned_rule \<Rightarrow> json" where
  "legacy_rule r =
     JObj ([(''created_unix'', JNum (uint (lr_created_unix r))),
            (''action'', JStr (rule_action_tag (lr_action r))), (''exe'', JStr (lr_exe r)),
            (''object'', JStr (lr_object r)), (''object_kind'', JStr (object_kind_tag (lr_object_kind r)))] @
           (case lr_cwd r of None \<Rightarrow> [] | Some c \<Rightarrow> [(''cwd'', JStr c)]))"

lemma dec_legacy_rule: "dec_learned_rule (legacy_rule r) = Some (r\<lparr>lr_id := 0\<rparr>)"
  by (cases "lr_cwd r")
    (simp_all add: legacy_rule_def dec_learned_rule_def learned_rule_fields_def table_fields_object fw_schema)

lemma dec_legacy_rules:
  "dec_rules (JObj [(''rule'', JArr (map legacy_rule qs))]) =
     Some \<lparr>rs_next_id = 0, rs_rules = map (\<lambda>r. r\<lparr>lr_id := 0\<rparr>) qs\<rparr>"
proof -
  have "as_list dec_learned_rule (JArr (map legacy_rule qs)) = Some (map (\<lambda>r. r\<lparr>lr_id := 0\<rparr>) qs)"
    by (simp add: as_list_def those_Some_iff dec_legacy_rule)
  then show ?thesis
    by (simp add: dec_rules_def table_fields_object fw_schema)
qed

lemma backfill_loop_fresh:
  "snd (backfill_loop n (map (\<lambda>r. r\<lparr>lr_id := 0\<rparr>) qs)) =
     map (\<lambda>(i, r). r\<lparr>lr_id := n + of_nat i\<rparr>) (enumerate 0 qs)"
proof (induction qs arbitrary: n)
  case (Cons r qs)
  have "map (\<lambda>(i, r). r\<lparr>lr_id := n + 1 + of_nat i\<rparr>) (enumerate 0 qs) =
      map (\<lambda>(i, r). r\<lparr>lr_id := n + of_nat i\<rparr>) (enumerate (Suc 0) qs)"
    by (rule nth_equalityI) (simp_all add: nth_enumerate_eq algebra_simps)
  then show ?case
    by (simp add: Cons.IH)
qed simp

lemma max_id_zero: "max_id (map (\<lambda>r. r\<lparr>lr_id := 0\<rparr>) qs) = 0"
proof -
  have "foldl max 0 (map lr_id (map (\<lambda>r. r\<lparr>lr_id := 0\<rparr>) qs)) = (0 :: u64)"
    by (induction qs) simp_all
  then show ?thesis by (simp only: max_id_def)
qed

section \<open>Keys nobody knows\<close>

lemma table_fields_unknown:
  assumes "k \<notin> set names"
  obtains "table_fields names (JObj ((k, v) # kvs)) = None" "table_fields names (JObj kvs) = None"
  | f g where "table_fields names (JObj ((k, v) # kvs)) = Some f" "table_fields names (JObj kvs) = Some g"
      "\<And>n. n \<in> set names \<Longrightarrow> f n = g n"
proof (cases "distinct (filter (\<lambda>k. k \<in> set names) (map fst kvs))")
  case True
  then show ?thesis
    using assms by (intro that(2) [of "(map_of kvs)(k \<mapsto> v)" "map_of kvs"]) (auto simp: table_fields_object)
next
  case False
  then show ?thesis
    using assms by (intro that(1)) (simp_all add: table_fields_def struct_fields_def)
qed

text \<open>A key that no field has, such as a misspelt one, changes nothing and is not reported.\<close>

lemma unknown_key_ignored:
  assumes "k \<notin> set raw_config_fields"
  shows "dec_raw_config (JObj ((k, v) # kvs)) = dec_raw_config (JObj kvs)"
  by (rule table_fields_unknown [OF assms, of v kvs])
    (simp_all add: dec_raw_config_def raw_config_fields_def)

lemma unknown_watch_key_ignored:
  assumes "k \<notin> set raw_watch_fields"
  shows "dec_raw_watch (JObj ((k, v) # kvs)) = dec_raw_watch (JObj kvs)"
  by (rule table_fields_unknown [OF assms, of v kvs])
    (simp_all add: dec_raw_watch_def raw_watch_fields_def)

section \<open>Properties\<close>

lemma push_storable:
  assumes "storable rs" and "unat (max (rs_next_id rs) 1) + 1 < 2 ^ 63" and "storable_rule (r\<lparr>lr_id := 1\<rparr>)"
  shows "storable (rules_push r rs)"
proof -
  have "small (max (rs_next_id rs) 1)" "small (max (rs_next_id rs) 1 + 1)"
    using assms(2) u64_suc [of "max (rs_next_id rs) 1"] by (simp_all add: small_def)
  then show ?thesis
    using assms(1,3) by (simp add: storable_def rules_push_simps storable_rule_def)
qed

text \<open>
  C14: what an "Always" answer taught the daemon survives a restart: once the save has succeeded,
  loading the rule file gives back exactly the rules the daemon runs on, the new one included. Of the
  TOML library this takes only that it reads back the trees it printed; the schema of the file does
  the rest, as long as paths are UTF-8 and numbers fit the signed integers of TOML.
\<close>

theorem learned_rules_survive_a_restart:
  assumes "toml_law tt" "sv_rules_to_toml sv = rules_to_toml tt" "sv_rules_from_toml sv = rules_from_toml tt"
    and "always_action d = Some act" and "covering = Some watch"
    and "rules_inv (dm_rules dm)" "storable (dm_rules dm)"
      "unat (max (rs_next_id (dm_rules dm)) 1) + 1 < 2 ^ 63"
    and "valid_utf8 (fst (always_target watch path))" and "small (now_unix (ae_clock ae))"
    and "dm' = remember sv su ae d covering path (event_exe ps ev) (event_cwd ps ev) dm"
    and "file_name (su_rules_path su) \<noteq> Some (tmp_name (ae_save ae))"
    and "se_mkdir (ae_save ae) = None" "se_write (ae_save ae) = WriteOk" "se_rename (ae_save ae) = None"
  shows "rules_load (sv_rules_from_toml sv) (dm_files dm') (su_rules_path su) = dm_rules dm' \<and>
    (\<exists>r \<in> set (rs_rules (dm_rules dm')).
       lr_action r = act \<and> lr_exe r = event_exe ps ev \<and> lr_object r = fst (always_target watch path))"
proof -
  let ?r = "watch_learned_rule (ae_clock ae) watch act (event_exe ps ev) path (Some (event_cwd ps ev))"
  let ?rs = "rules_push ?r (dm_rules dm)"
  have rules: "dm_rules dm' = ?rs" and files: "dm_files dm' =
      after_save (save_atomic (rules_to_toml tt) (ae_save ae) ?rs (su_rules_path su) (dm_files dm)) (dm_files dm)"
    using assms(2,4,5) by (simp_all add: assms(11) remember_def Let_def)
  have "lr_created_unix ?r = now_unix (ae_clock ae)"
    by (simp add: watch_learned_rule_def case_prod_beta)
  then have "storable ?rs"
    using assms(9,10) by (intro push_storable assms(7,8)) (simp add: storable_rule_def learned_rule_object small_def)
  from rules_to_toml_ok [OF assms(1) this] obtain body where
    body: "rules_to_toml tt ?rs = Some body" "valid_utf8 body" "rules_from_toml tt body = Some ?rs"
    by blast
  have room: "id_room 1 (dm_rules dm)"
    using assms(8) by (simp add: id_room_def)
  then have "rules_inv ?rs" and "rs_next_id ?rs \<noteq> 0"
    using rules_inv_push [OF assms(6) room] fresh_id_next [OF room, of ?r] by (auto simp: word_less_nat_alt)
  moreover have "fst (save_atomic (rules_to_toml tt) (ae_save ae) ?rs (su_rules_path su) (dm_files dm)) = Inr ()"
    using body(1) assms(13-15) by (simp add: save_atomic_def fs_write_def Let_def)
  ultimately have "rules_load (rules_from_toml tt) (dm_files dm') (su_rules_path su) = ?rs"
    unfolding files using load_after_save [OF assms(12)] body by blast
  then show ?thesis
    by (auto simp: assms(3) rules rules_push_simps learned_rule_object)
qed

text \<open>A text form to try the statements on: a tree is written as its number, in unary.\<close>

definition demo_toml :: toml_text where
  "demo_toml = \<lparr>tm_print = (\<lambda>v. Some (replicate (to_nat v) (CHR ''x''))), tm_parse = (\<lambda>t. Some (from_nat (length t)))\<rparr>"

lemma demo_toml_law: "toml_law demo_toml"
  by (simp add: toml_law_def demo_toml_def ascii_valid_utf8 ascii_def list_all_iff)

definition demo_toml_services :: "(string, unit) services" where
  "demo_toml_services = demo_services
     \<lparr>sv_rules_to_toml := rules_to_toml demo_toml, sv_rules_from_toml := rules_from_toml demo_toml\<rparr>"

theorem learned_rules_survive_a_restart_witness:
  "let dm = remember demo_toml_services demo_params demo_access DenyAlways (Some (demo_watch ''/w'' KindFile True))
       ''/w/k'' (event_exe demo_proc demo_event) (event_cwd demo_proc demo_event) (demo_daemon rules_default None)
   in rules_load (rules_from_toml demo_toml) (dm_files dm) ''/r.toml'' = dm_rules dm \<and> rs_rules (dm_rules dm) \<noteq> []"
proof -
  let ?dm = "remember demo_toml_services demo_params demo_access DenyAlways (Some (demo_watch ''/w'' KindFile True))
       ''/w/k'' (event_exe demo_proc demo_event) (event_cwd demo_proc demo_event) (demo_daemon rules_default None)"
  have name: "file_name (su_rules_path demo_params) \<noteq> Some (tmp_name (ae_save demo_access))"
    by (simp add: tmp_name_def demo_params_def) code_simp
  have target: "fst (always_target (demo_watch ''/w'' KindFile True) ''/w/k'') = ''/w/k''"
    by (simp add: always_target_def demo_watch_def)
  have "valid_utf8 ''/w/k''"
    by code_simp
  then show ?thesis
    using learned_rules_survive_a_restart [OF demo_toml_law, of demo_toml_services DenyAlways RuleDeny
        "Some (demo_watch ''/w'' KindFile True)" "demo_watch ''/w'' KindFile True" "demo_daemon rules_default None"
        "''/w/k''" demo_access ?dm demo_params demo_proc demo_event] name target
    by (auto simp: Let_def demo_toml_services_def always_action_def demo_daemon_def storable_def small_def
        rules_default_def rules_inv_def demo_access_def demo_save_env_def now_unix_def demo_params_def)
qed

lemma remember_keeps_rules:
  "r \<in> set (rs_rules (dm_rules dm)) \<Longrightarrow> r \<in> set (rs_rules (dm_rules (remember sv su ae d covering path exe cwd dm)))"
  by (auto simp: remember_def rules_push_simps Let_def split: option.split)

lemma process_event_unprintable:
  assumes "sv_rules_to_toml sv = rules_to_toml tt"
    and "r \<in> set (rs_rules (dm_rules dm))" and "\<not> valid_utf8 (lr_object r)"
  shows "dm_files (process_event sv su ae ev dm) = dm_files dm \<and>
    r \<in> set (rs_rules (dm_rules (process_event sv su ae ev dm)))"
proof -
  have "dm_files (remember sv su ae d covering path exe cwd dm) = dm_files dm"
    if "r \<in> set (rs_rules (dm_rules dm))" for d covering path exe cwd and dm :: "'b daemon"
  proof -
    have "rules_to_toml tt (rules_push q (dm_rules dm)) = None" for q
      using that assms(3) by (intro unprintable_rule [of r]) (simp_all add: rules_push_simps)
    then show ?thesis
      by (simp add: remember_def assms(1) save_atomic_def after_save_def Let_def split: option.split)
  qed
  then show ?thesis
    using assms(2)
    by (auto simp: process_event_eq decide_event_def ask_user_eq Let_def remember_keeps_rules
        split: outcome.split sum.split)
qed

lemma process_events_unprintable:
  assumes "sv_rules_to_toml sv = rules_to_toml tt"
    and "r \<in> set (rs_rules (dm_rules dm))" and "\<not> valid_utf8 (lr_object r)"
  shows "dm_files (process_events sv su aes news evs dm) = dm_files dm"
  using assms(2)
proof (induction evs arbitrary: aes news dm)
  case (Cons ev evs)
  then have "r \<in> set (rs_rules (dm_rules (connect_uis (news 0) dm)))" by simp
  note step = process_event_unprintable [OF assms(1) this assms(3), of su "aes 0" ev]
  then show ?case using Cons.IH by simp
qed simp

text \<open>
  C30: after an "Always" answer for a file whose name is not UTF-8 no rule reaches the disk any more:
  not this one, and none of those that are learned from any of the accesses that follow, until the
  rules are loaded anew. The rules file stays as it is, byte for byte.
\<close>

theorem unprintable_object_blocks_saving:
  assumes "sv_rules_to_toml sv = rules_to_toml tt"
    and "always_action d = Some act" and "wp_learn_object w = KindFile" and "\<not> valid_utf8 path"
    and "dm' = remember sv su ae d (Some w) path exe cwd dm"
  shows "dm_files dm' = dm_files dm \<and>
    dm_files (process_events sv su aes news evs dm') = dm_files dm \<and>
    length (rs_rules (dm_rules dm')) = Suc (length (rs_rules (dm_rules dm)))"
proof -
  let ?q = "(watch_learned_rule (ae_clock ae) w act exe path (Some cwd))\<lparr>lr_id := max (rs_next_id (dm_rules dm)) 1\<rparr>"
  have rules: "rs_rules (dm_rules dm') = rs_rules (dm_rules dm) @ [?q]"
    using assms(2) by (simp add: assms(5) remember_def Let_def rules_push_simps)
  have bad: "\<not> valid_utf8 (lr_object ?q)"
    using assms(3,4) by (simp add: learned_rule_object always_target_simps)
  have "rules_to_toml tt (rules_push (watch_learned_rule (ae_clock ae) w act exe path (Some cwd)) (dm_rules dm)) = None"
    by (rule unprintable_rule [OF _ bad]) (simp add: rules_push_simps)
  then have "dm_files dm' = dm_files dm"
    using assms(1,2) by (simp add: assms(5) remember_def save_atomic_def after_save_def Let_def)
  then show ?thesis
    using process_events_unprintable [OF assms(1) _ bad, of dm'] rules by simp
qed

theorem unprintable_object_blocks_saving_witness:
  "dm_files (process_events demo_toml_services demo_params (\<lambda>_. demo_access) (\<lambda>_. []) [demo_event]
     (remember demo_toml_services demo_params demo_access AllowAlways (Some (demo_watch ''/w'' KindFile True))
        (''/w/'' @ [CHR 0xFF]) ''/bin/cat'' ''/'' (demo_daemon rules_default (Some (demo_link [Data [0, 0, 0, 1, 2]])))))
   = (\<lambda>_. None)"
proof -
  have codec: "sv_rules_to_toml demo_toml_services = rules_to_toml demo_toml" "always_action AllowAlways = Some RuleAllow"
    "wp_learn_object (demo_watch ''/w'' KindFile True) = KindFile"
    by (simp_all add: demo_toml_services_def always_action_def demo_watch_def)
  have bad: "\<not> valid_utf8 (''/w/'' @ [CHR 0xFF])"
    by code_simp
  have files: "dm_files (demo_daemon rules_default ui) = (\<lambda>_. None)" for ui
    by (simp add: demo_daemon_def)
  show ?thesis
    by (rule trans [OF unprintable_object_blocks_saving [OF codec bad refl, THEN conjunct2, THEN conjunct1] files])
qed

lemma backfill_loop_next:
  "fst (backfill_loop n (map (\<lambda>r. r\<lparr>lr_id := 0\<rparr>) qs)) = n + of_nat (length qs)"
  by (induction qs arbitrary: n) (simp_all add: algebra_simps)

text \<open>
  A rule file of the time before rules had ids, with neither ids nor a counter, loads as the same
  rules, numbered from 1 in their order, with the counter one past the last.
\<close>

theorem legacy_file_gets_ids:
  assumes "read_to_string fm path = Inr body"
    and "tm_parse tt body = Some (JObj [(''rule'', JArr (map legacy_rule qs))])"
  shows "rules_load (rules_from_toml tt) fm path =
    \<lparr>rs_next_id = 1 + of_nat (length qs), rs_rules = map (\<lambda>(i, r). r\<lparr>lr_id := 1 + of_nat i\<rparr>) (enumerate 0 qs)\<rparr>"
  using assms
  by (simp add: rules_load_def rules_from_toml_def dec_legacy_rules backfill_ids_eq backfill_start_def
      max_id_zero backfill_loop_fresh backfill_loop_next)

theorem legacy_file_gets_ids_witness:
  "map lr_id (rs_rules (rules_load
     (rules_from_toml (demo_toml\<lparr>tm_parse := (\<lambda>_. Some (JObj [(''rule'', JArr (map legacy_rule
        [demo_rule 9 RuleAllow ''/a'' KindFile, demo_rule 7 RuleDeny ''/b'' KindTree]))]))\<rparr>))
     (\<lambda>_. Some []) ''/r.toml'')) = [1, 2]"
  by (subst legacy_file_gets_ids [where body = "[]" and qs = "[demo_rule 9 RuleAllow ''/a'' KindFile,
        demo_rule 7 RuleDeny ''/b'' KindTree]"]) (simp_all add: read_to_string_def)

end
