(* ===== verification/FW_Report.thy ===== *)
theory FW_Report
  imports FW_Ctl FW_Store
begin

text \<open>
  What \<open>filewallctl\<close> prints for machines: the trees its reports are serialised to (the structs with
  \<open>derive(Serialize)\<close> of filewallctl/src/main.rs) and what a script reads back from them. The text
  forms of a tree, pretty JSON and YAML, are a parameter.
\<close>

section \<open>Reports as trees\<close>

definition enc_pid :: "int option \<Rightarrow> json" where
  "enc_pid p = (case p of None \<Rightarrow> JNull | Some n \<Rightarrow> JNum n)"

definition enc_status_report :: "status_report \<Rightarrow> json" where
  "enc_status_report r =
     JObj [(''running'', JBool (sr_running r)), (''pid'', enc_pid (sr_pid r)), (''state'', JStr (sr_state r))]"

text \<open>The two lists are left out when they are empty.\<close>

definition unless_empty :: "string \<Rightarrow> u64 list \<Rightarrow> (string \<times> json) list" where
  "unless_empty key ids = (if ids = [] then [] else [(key, JArr (map (\<lambda>i. JNum (uint i)) ids))])"

definition enc_ack :: "ack \<Rightarrow> json" where
  "enc_ack a =
     JObj ([(''ok'', JBool (ak_ok a)), (''pid'', enc_pid (ak_pid a)), (''detail'', JStr (ak_detail a))] @
           unless_empty ''removed'' (ak_removed a) @ unless_empty ''missing'' (ak_missing a))"

definition enc_error_report :: "string \<Rightarrow> json" where
  "enc_error_report msg = JObj [(''error'', JStr msg)]"

definition enc_rule_list :: "learned_rule list \<Rightarrow> json option" where
  "enc_rule_list rules = map_option JArr (those (map enc_learned_rule rules))"

definition as_report :: "(format \<Rightarrow> json \<Rightarrow> string + string) \<Rightarrow> ('v \<Rightarrow> json option) \<Rightarrow> format \<Rightarrow> 'v \<Rightarrow> string + string" where
  "as_report out enc fmt v =
     (case enc v of None \<Rightarrow> Inl ''path contains invalid UTF-8 characters'' | Some tree \<Rightarrow> out fmt tree)"

text \<open>The tool with the reports it really prints and the messages it really sends.\<close>

definition with_reports :: "(format \<Rightarrow> json \<Rightarrow> string + string) \<Rightarrow> json_text \<Rightarrow> ctl_env \<Rightarrow> ctl_env" where
  "with_reports out jt ce =
     ce\<lparr>ce_enc_request := send_as jt enc_control_request, ce_dec_dump := receive_as jt dec_dump_response,
        ce_rules_out := as_report out enc_rule_list, ce_ack_out := as_report out (Some \<circ> enc_ack),
        ce_status_out := as_report out (Some \<circ> enc_status_report),
        ce_dump_out := as_report out (Some \<circ> enc_dump_response),
        ce_error_out := as_report out (Some \<circ> enc_error_report)\<rparr>"

text \<open>Printing a tree as pretty JSON never fails, and it parses to the same tree again.\<close>

definition pretty_law :: "(format \<Rightarrow> json \<Rightarrow> string + string) \<Rightarrow> (string \<Rightarrow> json option) \<Rightarrow> bool" where
  "pretty_law out parse \<longleftrightarrow> (\<forall>v. json_ok v \<longrightarrow> (\<exists>s. out FmtJson v = Inr s \<and> parse s = Some v))"

section \<open>Reading the reports\<close>

definition rule_text_ok :: "learned_rule \<Rightarrow> bool" where
  "rule_text_ok r \<longleftrightarrow> valid_utf8 (lr_exe r) \<and> valid_utf8 (lr_object r) \<and>
     valid_utf8 (case lr_cwd r of None \<Rightarrow> [] | Some c \<Rightarrow> c)"

lemma ascii_rule_tags: "ascii (rule_action_tag a)" "ascii (object_kind_tag k)"
  by (cases a; simp add: rule_action_tag_def ascii_def) (cases k; simp add: object_kind_tag_def ascii_def)

lemma enc_learned_rule_json:
  assumes "rule_text_ok r"
  shows "\<exists>v. enc_learned_rule r = Some v \<and> json_ok v \<and> nesting v \<le> 30 \<and> dec_learned_rule v = Some r"
proof -
  obtain v where v: "enc_learned_rule r = Some v"
    using assms by (auto simp: enc_learned_rule_def enc_path_def rule_text_ok_def)
  have "json_ok v \<and> nesting v \<le> 30"
    using assms v ascii_rule_tags json_ok_word
    by (cases "lr_cwd r")
      (auto simp: enc_learned_rule_def enc_path_def rule_text_ok_def ascii_valid_utf8 ascii_def max_nesting_def
        simp del: json_ok.simps(1))
  then show ?thesis
    using v dec_enc_learned_rule by blast
qed

lemma enc_rule_list_json:
  assumes "list_all rule_text_ok rules"
  shows "\<exists>v. enc_rule_list rules = Some v \<and> json_ok v \<and> as_list dec_learned_rule v = Some rules"
proof -
  have "\<exists>vs. map enc_learned_rule rules = map Some vs \<and> (\<forall>v \<in> set vs. json_ok v \<and> nesting v \<le> 30) \<and>
      map dec_learned_rule vs = map Some rules"
    using assms
  proof (induction rules)
    case (Cons r rules)
    then obtain vs where vs: "map enc_learned_rule rules = map Some vs" "\<forall>v \<in> set vs. json_ok v \<and> nesting v \<le> 30"
      "map dec_learned_rule vs = map Some rules" by auto
    obtain v where "enc_learned_rule r = Some v" "json_ok v" "nesting v \<le> 30" "dec_learned_rule v = Some r"
      using enc_learned_rule_json Cons.prems by auto
    then show ?case
      by (intro exI [of _ "v # vs"]) (use vs in simp)
  qed simp
  then obtain vs where "map enc_learned_rule rules = map Some vs" "\<forall>v \<in> set vs. json_ok v \<and> nesting v \<le> 30"
    "map dec_learned_rule vs = map Some rules" by blast
  then have "enc_rule_list rules = Some (JArr vs)" "json_ok (JArr vs)" "as_list dec_learned_rule (JArr vs) = Some rules"
    using json_ok_list [of vs] by (simp_all add: enc_rule_list_def as_list_def those_Some_iff)
  then show ?thesis by blast
qed

lemma report_read_back:
  assumes "pretty_law out parse" and "enc v = Some tree" and "json_ok tree"
  shows "\<exists>s. emit_with (as_report out enc) v FmtJson = Inr s \<and> parse s = Some tree"
  using assms by (simp add: pretty_law_def emit_with_def emit_def as_report_def)

lemma enc_status_report_ok:
  assumes "valid_utf8 (sr_state r)" and "\<And>p. sr_pid r = Some p \<Longrightarrow> - (2 ^ 31) \<le> p \<and> p < 2 ^ 31"
  shows "json_ok (enc_status_report r)"
  unfolding enc_status_report_def
  by (rule json_ok_object) (use assms in \<open>fastforce simp: ascii_def enc_pid_def split: option.split\<close>)+

section \<open>Properties\<close>

text \<open>
  \<open>filewallctl list --json\<close> prints exactly the rules of the rule file: what it prints parses, and
  decoding the parsed array gives every rule back, field for field and in order, and nothing else.
\<close>

theorem json_listing_is_complete:
  assumes "pretty_law out parse"
    and "rules = rs_rules (rules_load (ce_rules_from_toml ce) fm path)" and "list_all rule_text_ok rules"
  shows "\<exists>s. cmd_list (with_reports out jt ce) fm path FmtJson =
      \<lparr>ct_ok = True, ct_out = [Stdout (s @ newline)], ct_files = fm, ct_hups = []\<rparr> \<and>
    parse s \<bind> as_list dec_learned_rule = Some rules"
proof -
  obtain v where v: "enc_rule_list rules = Some v" "json_ok v" "as_list dec_learned_rule v = Some rules"
    using enc_rule_list_json [OF assms(3)] by blast
  obtain s where "emit_with (as_report out enc_rule_list) rules FmtJson = Inr s" "parse s = Some v"
    using report_read_back [OF assms(1), of enc_rule_list rules v] v by blast
  then show ?thesis
    using v(3) by (simp add: cmd_list_def with_reports_def assms(2) Let_def)
qed

text \<open>
  C34: the dump goes from the daemon to the terminal unchanged. When the daemon has answered a control
  connection and the bytes it wrote are those that arrive at \<open>filewallctl\<close>, the table is the table of
  the daemon's own dump, and the JSON that is printed decodes to that dump.
\<close>

theorem dump_reaches_the_terminal:
  assumes "json_law jt" and "pretty_law out parse" and "dump_text_ok dump"
    and "control_serve (control_json jt) (\<lambda>_. dump) conn = (Inr u, conn')"
    and "ce_connect ce sock = Inr stream" and "sk_room stream = None"
    and "length (js_print jt (enc_control_request Dump)) \<le> unat max_control_msg_len"
    and "arriving (sk_in stream) = drop (length (sk_out conn)) (sk_out conn')"
  shows "cmd_dump (with_reports out jt ce) fm sock FmtTable =
      \<lparr>ct_ok = True, ct_out = [Stdout (dump_table dump)], ct_files = fm, ct_hups = []\<rparr> \<and>
    (\<exists>s. cmd_dump (with_reports out jt ce) fm sock FmtJson =
        \<lparr>ct_ok = True, ct_out = [Stdout (s @ newline)], ct_files = fm, ct_hups = []\<rparr> \<and>
      parse s \<bind> dec_dump_response = Some dump)"
proof -
  obtain conn1 where read: "read_msg_capped sock_read (cc_dec_request (control_json jt)) max_control_msg_len conn =
      (Inr Dump, conn1)"
    and wrote: "write_msg_capped sock_write sock_flush (send_as jt enc_dump_response) max_control_msg_len dump conn1 =
      (Inr u, conn')"
    using assms(4)
    by (auto simp: control_serve_def control_json_def split: prod.splits sum.splits control_request.splits)
  let ?stream = "stream\<lparr>sk_out := sk_out stream @ frame (js_print jt (enc_control_request Dump))\<rparr>"
  have asked: "write_msg_capped sock_write sock_flush (send_as jt enc_control_request) max_control_msg_len Dump stream =
      (Inr (), ?stream)"
    by (rule write_msg_capped_fits) (simp_all add: send_as_def assms(6,7))
  have "arriving (sk_in ?stream) = drop (length (sk_out conn1)) (sk_out conn') @ []"
    using assms(8) read_msg_out [OF read] by simp
  then have got: "fst (read_msg_capped sock_read (receive_as jt dec_dump_response) max_control_msg_len ?stream) = Inr dump"
    using dumps.over_the_wire [OF assms(1,3) wrote] by fastforce
  then have fetched: "fetch_dump (with_reports out jt ce) sock = Inr dump"
    using assms(5) asked by (simp add: fetch_dump_def with_reports_def)
  obtain s where "emit_with (as_report out (Some \<circ> enc_dump_response)) dump FmtJson = Inr s"
    "parse s = Some (enc_dump_response dump)"
    using report_read_back [OF assms(2), of "Some \<circ> enc_dump_response" dump] dumps.enc_ok [OF assms(3)] by auto
  moreover have "ce_dump_out (with_reports out jt ce) = as_report out (Some \<circ> enc_dump_response)"
    by (simp add: with_reports_def)
  ultimately show ?thesis
    using fetched by (simp add: cmd_dump_def dumps.dec_enc)
qed

text \<open>A text form to try them on: a tree is written as its number, in unary.\<close>

definition demo_pretty :: "format \<Rightarrow> json \<Rightarrow> string + string" where
  "demo_pretty fmt v = Inr (replicate (to_nat v) (CHR ''x''))"

lemma demo_pretty_law: "pretty_law demo_pretty (\<lambda>s. Some (from_nat (length s)))"
  by (simp add: pretty_law_def demo_pretty_def)

theorem json_listing_is_complete_witness:
  "\<exists>s. ct_out (cmd_list (with_reports demo_pretty (table_text []) demo_ctl) (\<lambda>_. Some ''old'') ''/r.toml'' FmtJson) =
      [Stdout (s @ newline)] \<and>
    as_list dec_learned_rule (from_nat (length s)) = Some [demo_rule 7 RuleDeny ''/b'' KindTree]"
proof -
  have load: "rules_load (ce_rules_from_toml demo_ctl) (\<lambda>_. Some ''old'') ''/r.toml'' =
      \<lparr>rs_next_id = 8, rs_rules = [demo_rule 7 RuleDeny ''/b'' KindTree]\<rparr>"
    by (simp add: rules_load_def read_to_string_def demo_ctl_def ascii_valid_utf8 ascii_def)
      (rule backfill_idle, simp_all add: rules_inv_def demo_rule_def)
  have "list_all rule_text_ok [demo_rule 7 RuleDeny ''/b'' KindTree]"
    by (simp add: rule_text_ok_def demo_rule_def ascii_valid_utf8 ascii_def)
  then obtain s where "cmd_list (with_reports demo_pretty (table_text []) demo_ctl) (\<lambda>_. Some ''old'') ''/r.toml'' FmtJson =
      \<lparr>ct_ok = True, ct_out = [Stdout (s @ newline)], ct_files = (\<lambda>_. Some ''old''), ct_hups = []\<rparr>"
    "as_list dec_learned_rule (from_nat (length s)) = Some [demo_rule 7 RuleDeny ''/b'' KindTree]"
    using json_listing_is_complete [OF demo_pretty_law, of "[demo_rule 7 RuleDeny ''/b'' KindTree]" demo_ctl
        "\<lambda>_. Some ''old''" "''/r.toml''" "table_text []"] by (auto simp: load)
  then show ?thesis by simp
qed

definition demo_dump :: dump_response where
  "demo_dump = \<lparr>dr_pid = 1, dr_generated_unix = 0, dr_objects = []\<rparr>"

theorem dump_reaches_the_terminal_witness:
  "ct_out (cmd_dump (with_reports demo_pretty (table_text [enc_control_request Dump, enc_dump_response demo_dump])
     (demo_ctl\<lparr>ce_connect := (\<lambda>_. Inr (demo_link [Data [0, 0, 0, 1, 1]]))\<rparr>)) (\<lambda>_. None) ''/c'' FmtTable) =
   [Stdout (dump_table demo_dump)]"
proof -
  let ?jt = "table_text [enc_control_request Dump, enc_dump_response demo_dump]"
  let ?ce = "demo_ctl\<lparr>ce_connect := (\<lambda>_. Inr (demo_link [Data [0, 0, 0, 1, 1]]))\<rparr>"
  have jt: "json_law ?jt" by (rule table_text_law) simp
  have req: "js_print ?jt (enc_control_request Dump) = [0]"
    and dump: "js_print ?jt (enc_dump_response demo_dump) = [1]"
    by (simp_all add: table_text_def enc_control_request_def enc_dump_response_def)
  have "from_be_bytes [0, 0, 0, 1] = 1" by (simp add: from_be_bytes_def)
  then have read: "read_msg_capped sock_read (cc_dec_request (control_json ?jt)) max_control_msg_len
      (demo_link [Data [0, 0, 0, 1, 0]]) = (Inr Dump, demo_link [])"
    using control_requests.received [OF jt TrueI, of Dump]
    by (simp add: read_msg_capped_def sock_read_def max_control_msg_len_def demo_link_def control_json_def req Let_def)
  have "write_msg_capped sock_write sock_flush (cc_enc_dump (control_json ?jt)) max_control_msg_len demo_dump (demo_link []) =
      (Inr (), (demo_link [])\<lparr>sk_out := [0, 0, 0, 1, 1]\<rparr>)"
    using write_msg_capped_fits [of "cc_enc_dump (control_json ?jt)" demo_dump "[1]" max_control_msg_len "demo_link []"]
    by (simp add: control_json_def send_as_def dump demo_link_def max_control_msg_len_def demo_frame)
  then have serve: "control_serve (control_json ?jt) (\<lambda>_. demo_dump) (demo_link [Data [0, 0, 0, 1, 0]]) =
      (Inr (), (demo_link [])\<lparr>sk_out := [0, 0, 0, 1, 1]\<rparr>)"
    by (simp add: control_serve_def read)
  have "dump_text_ok demo_dump" by (simp add: dump_text_ok_def demo_dump_def)
  from dump_reaches_the_terminal [OF jt demo_pretty_law this serve, of ?ce "''/c''" "demo_link [Data [0, 0, 0, 1, 1]]"]
  show ?thesis
    by (simp add: demo_link_def req max_control_msg_len_def)
qed

end
