(* ===== verification/FW_Process.thy ===== *)
theory FW_Process
  imports FW_Loop
begin

text \<open>
  The daemon as a process (\<open>main\<close> of filewalld/src/main.rs, and the \<open>Drop\<close> of the listeners in server.rs
  and control.rs): startup, the loop until it fails, what is left behind. The logger is left out.
\<close>

section \<open>The loop\<close>

text \<open>
  \<open>event_loop\<close> over the iterations it meets: it returns only with an error; when the list is used up
  it goes on from the state given.
\<close>

fun event_loop ::
    "('g, 's) services \<Rightarrow> params \<Rightarrow> iter list \<Rightarrow> 's daemon \<Rightarrow> (daemon_exit + 's daemon) option" where
  "event_loop sv su [] dm = Some (Inr dm)"
| "event_loop sv su (it # its) dm =
     (case iteration sv su it dm of
        None \<Rightarrow> None
      | Some (Inl e) \<Rightarrow> Some (Inl e)
      | Some (Inr dm') \<Rightarrow> event_loop sv su its dm')"

section \<open>The socket files\<close>

text \<open>The files of listening sockets that exist, by the components of their paths.\<close>

type_synonym socket_files = "component list set"

definition bind_files :: "bind_env \<Rightarrow> path \<Rightarrow> socket_files \<Rightarrow> socket_files" where
  "bind_files be socket_path socks =
     (if parent socket_path \<noteq> None \<and> be_mkdir be \<noteq> None then socks
      else if be_remove be \<notin> {None, Some NotFound} then socks
      else if be_bind be \<noteq> None then socks - {components socket_path}
      else insert (components socket_path) socks)"

text \<open>
  \<open>drop\<close> of a listener: \<open>remove_file\<close> is called, an error it returns is ignored and the file stays.
\<close>

definition drop_listener :: "(path \<Rightarrow> io_kind option) \<Rightarrow> path \<Rightarrow> socket_files \<Rightarrow> socket_files" where
  "drop_listener remove_file socket_path socks =
     (case remove_file socket_path of None \<Rightarrow> socks - {components socket_path} | Some _ \<Rightarrow> socks)"

section \<open>The process\<close>

text \<open>
  How the process ends: with the message on standard error and status 1, or in the middle of the
  parser, where the behaviour of the program is not defined.
\<close>

datatype process_end = Fatal string | Crashed parse_fault

definition fatal_end :: "(daemon_exit \<Rightarrow> string) \<Rightarrow> daemon_exit \<Rightarrow> process_end" where
  "fatal_end show_exit e =
     (case e of ExitFault f \<Rightarrow> Crashed f | _ \<Rightarrow> Fatal (''filewalld: fatal: '' @ show_exit e @ newline))"

text \<open>The socket paths of the configuration the daemon was started with.\<close>

definition startup_config :: "('g, 's) services \<Rightarrow> start_env \<Rightarrow> config_error + config" where
  "startup_config sv te = config_load (sv_config_from_toml sv) (te_files te) (config_path_of (te_args te))"

text \<open>The files after the two binds, as far as the startup got.\<close>

definition startup_sockets :: "('g, 's) services \<Rightarrow> start_env \<Rightarrow> socket_files \<Rightarrow> socket_files" where
  "startup_sockets sv te socks =
     (case startup_config sv te of
        Inl e \<Rightarrow> socks
      | Inr cfg \<Rightarrow>
          (case startup sv te of
             Some (Inl (ExitBind e)) \<Rightarrow> bind_files (te_ui_bind te) (cf_socket_path cfg) socks
           | Some (Inr _) \<Rightarrow>
               bind_files (te_control_bind te) (cf_control_socket_path cfg)
                 (bind_files (te_ui_bind te) (cf_socket_path cfg) socks)
           | _ \<Rightarrow> socks))"

definition run_sockets ::
    "('g, 's) services \<Rightarrow> (path \<Rightarrow> io_kind option) \<Rightarrow> start_env \<Rightarrow> socket_files \<Rightarrow> socket_files" where
  "run_sockets sv remove_file te socks =
     (case startup_config sv te of
        Inl e \<Rightarrow> socks
      | Inr cfg \<Rightarrow>
          drop_listener remove_file (cf_socket_path cfg)
            (case control_bind (te_control_bind te) (cf_control_socket_path cfg) of
               Inl _ \<Rightarrow> socks
             | Inr _ \<Rightarrow> drop_listener remove_file (cf_control_socket_path cfg) socks))"

text \<open>
  The listeners are dropped when \<open>run\<close> returns with an error. A fault in the parser ends the process
  where it is, and nothing is dropped.
\<close>

definition daemon_main ::
    "('g, 's) services \<Rightarrow> (daemon_exit \<Rightarrow> string) \<Rightarrow> (path \<Rightarrow> io_kind option) \<Rightarrow> start_env \<Rightarrow> iter list \<Rightarrow> socket_files \<Rightarrow>
     (process_end + 's daemon) option \<times> socket_files" where
  "daemon_main sv show_exit remove_file te its socks =
     (let bound = startup_sockets sv te socks
      in (case startup sv te of
            None \<Rightarrow> (None, bound)
          | Some (Inl e) \<Rightarrow> (Some (Inl (fatal_end show_exit e)), bound)
          | Some (Inr (su, dm)) \<Rightarrow>
              (case event_loop sv su its dm of
                 None \<Rightarrow> (None, bound)
               | Some (Inr dm') \<Rightarrow> (Some (Inr dm'), bound)
               | Some (Inl e) \<Rightarrow>
                   (case e of
                      ExitFault f \<Rightarrow> (Some (Inl (Crashed f)), bound)
                    | _ \<Rightarrow> (Some (Inl (fatal_end show_exit e)), run_sockets sv remove_file te bound)))))"

section \<open>Lemmas\<close>

lemma event_loop_reach:
  "event_loop sv su its dm = Some (Inr dm') \<Longrightarrow> daemon_reach sv su dm \<Longrightarrow> daemon_reach sv su dm'"
proof (induction its arbitrary: dm)
  case (Cons it its)
  then obtain dm1 where "iteration sv su it dm = Some (Inr dm1)" "event_loop sv su its dm1 = Some (Inr dm')"
    by (auto split: option.splits sum.splits)
  then show ?case
    using Cons.IH Cons.prems(2) reach_step [of sv su dm "sv_host sv" "sv_fan sv" "sv_inotify sv"] by simp
qed simp

lemma event_loop_append:
  "event_loop sv su (its @ its') dm =
     (case event_loop sv su its dm of
        None \<Rightarrow> None | Some (Inl e) \<Rightarrow> Some (Inl e) | Some (Inr dm') \<Rightarrow> event_loop sv su its' dm')"
  by (induction its arbitrary: dm) (auto split: option.split sum.split)

text \<open>A loop over iterations whose UIs keep reading does not hang.\<close>

lemma event_loop_total:
  assumes "\<And>it. it \<in> set its \<Longrightarrow>
      fs_bounded path_max width (it_fs it) \<and> fs_bounded path_max width (it_fs_reload it) \<and> news_read it"
    and "uis_read dm"
  shows "\<exists>r. event_loop sv su its dm = Some r"
  using assms
proof (induction its arbitrary: dm)
  case (Cons it its)
  obtain r where r: "iteration sv su it dm = Some r"
    using iteration_total [of path_max width it dm] Cons.prems by force
  show ?case
  proof (cases r)
    case (Inr dm')
    then have "uis_read dm'"
      using uis_read_iteration r Cons.prems by force
    then show ?thesis
      using Cons.IH Cons.prems(1) r Inr by simp
  qed (simp add: r)
qed simp

lemma startup_config_ok:
  "startup sv te = Some (Inr (su, dm)) \<Longrightarrow> \<exists>cfg. startup_config sv te = Inr cfg"
  by (auto simp: startup_def startup_config_def Let_def split: sum.splits)

section \<open>Properties\<close>


text \<open>An iteration in which \<open>poll\<close> fails.\<close>

definition demo_failure :: iter where
  "demo_failure = (demo_iter [] False)\<lparr>it_poll := PollFailed InvalidInput\<rparr>"


end
