(* ===== verification/FW_Shell.thy ===== *)
theory FW_Shell
  imports FW_Iced
begin

text \<open>
  The native helper in its toolkit (\<open>main\<close>, \<open>window_settings\<close> and \<open>subscription\<close> of
  filewall-ui-iced/src/main.rs): the windows that are open, the events that become messages. The
  toolkit carries out the task an update returns, closes a window by itself when its settings say so,
  and ticks while the clock is subscribed to; that is all it does to windows.
\<close>

section \<open>Settings\<close>

datatype window_position = Centered | PositionDefault

datatype window_level = AlwaysOnTop | LevelNormal

record window_settings =
  ws_size :: "nat \<times> nat"
  ws_min_size :: "(nat \<times> nat) option"
  ws_position :: window_position
  ws_resizable :: bool
  ws_level :: window_level
  ws_exit_on_close_request :: bool
  ws_application_id :: string

definition prompt_window :: window_settings where
  "prompt_window =
     \<lparr>ws_size = (580, 400), ws_min_size = Some (580, 320), ws_position = Centered, ws_resizable = True,
      ws_level = AlwaysOnTop, ws_exit_on_close_request = False, ws_application_id = ''filewall-ui-iced''\<rparr>"

definition app_title :: "app \<Rightarrow> window_id \<Rightarrow> string" where
  "app_title app w = ''filewall security prompt''"

definition app_theme :: "app \<Rightarrow> window_id \<Rightarrow> theme" where
  "app_theme app w = ap_theme app"

definition home_dir :: "string option \<Rightarrow> string" where
  "home_dir var = (case var of None \<Rightarrow> [] | Some h \<Rightarrow> h)"

section \<open>Subscriptions\<close>

datatype source = FromWorker | FromEvents | FromClock

definition subscription :: "app \<Rightarrow> source list" where
  "subscription app = [FromWorker, FromEvents] @ (if ticking app then [FromClock] else [])"

section \<open>The running helper\<close>

record shell =
  sh_app :: app
  sh_windows :: "window_id set"
  sh_sent :: "decision list"

definition shell_start :: "(string \<Rightarrow> variant option) option \<Rightarrow> shell" where
  "shell_start portal = \<lparr>sh_app = app_new portal, sh_windows = {}, sh_sent = []\<rparr>"

definition run_task :: "task \<Rightarrow> window_id set \<Rightarrow> window_id set" where
  "run_task t ws = (case t of TaskNone \<Rightarrow> ws | OpenWindow w \<Rightarrow> insert w ws | CloseWindow w \<Rightarrow> ws - {w})"

definition shell_update :: "gui_env \<Rightarrow> message \<Rightarrow> shell \<Rightarrow> shell" where
  "shell_update ge msg sh =
     (let (app, sent, t) = app_update ge msg (sh_app sh)
      in \<lparr>sh_app = app, sh_windows = run_task t (sh_windows sh), sh_sent = sh_sent sh @ sent\<rparr>)"

text \<open>
  What can happen: the worker or a button posts a message, a window of the helper gets an event, the
  clock is due.
\<close>

datatype happening = Posted message | WindowEvent window_id ui_event | ClockDue

definition window_closes :: "window_id \<Rightarrow> ui_event \<Rightarrow> window_id set \<Rightarrow> window_id set" where
  "window_closes w ev ws =
     (if ev = CloseRequested \<and> ws_exit_on_close_request prompt_window then ws - {w} else ws)"

definition shell_step :: "shell \<Rightarrow> gui_env \<times> happening \<Rightarrow> shell" where
  "shell_step sh e =
     (case e of (ge, h) \<Rightarrow>
        (case h of
           Posted msg \<Rightarrow> shell_update ge msg sh
         | WindowEvent w ev \<Rightarrow>
             (let sh' = sh\<lparr>sh_windows := window_closes w ev (sh_windows sh)\<rparr>
              in (case event_message ev of None \<Rightarrow> sh' | Some msg \<Rightarrow> shell_update ge msg sh'))
         | ClockDue \<Rightarrow> if FromClock \<in> set (subscription (sh_app sh)) then shell_update ge Tick sh else sh))"

section \<open>The window of a prompt\<close>

definition shell_ok :: "shell \<Rightarrow> bool" where
  "shell_ok sh \<longleftrightarrow>
     (case ap_pending (sh_app sh) of
        None \<Rightarrow> ap_window (sh_app sh) = None
      | Some p \<Rightarrow> \<exists>w. ap_window (sh_app sh) = Some w \<and> w \<in> sh_windows sh)"

lemma shell_ok_update: "shell_ok sh \<Longrightarrow> shell_ok (shell_update ge msg sh)"
  by (cases msg; cases "ap_pending (sh_app sh)")
    (auto simp: shell_ok_def shell_update_def app_update_def app_resolve_def run_task_def Let_def
      split: option.splits)

lemma shell_ok_step: "shell_ok sh \<Longrightarrow> shell_ok (shell_step sh e)"
proof -
  assume ok: "shell_ok sh"
  have "sh\<lparr>sh_windows := window_closes w ev (sh_windows sh)\<rparr> = sh" for w ev
    by (simp add: window_closes_def prompt_window_def)
  then show ?thesis
    using ok shell_ok_update by (simp add: shell_step_def Let_def split: prod.split happening.split option.split)
qed

interpretation helper_shell: machine shell_step shell_ok
  by unfold_locales (rule shell_ok_step)

lemma shell_ok_start: "shell_ok (shell_start portal)"
  by (simp add: shell_ok_def shell_start_def app_new_def)

lemma shell_denies:
  assumes "ap_pending (sh_app sh) = Some p" and "ap_window (sh_app sh) = Some w" and "ap_decision_tx (sh_app sh)"
    and "event_message ev = Some DenyMsg"
  shows "sh_sent (shell_step sh (ge, WindowEvent v ev)) = sh_sent sh @ [DenyOnce]"
    and "ap_pending (sh_app (shell_step sh (ge, WindowEvent v ev))) = None"
    and "w \<notin> sh_windows (shell_step sh (ge, WindowEvent v ev))"
  using assms
  by (simp_all add: shell_step_def shell_update_def app_update_def app_resolve_def run_task_def Let_def)

text \<open>
  C26: no window vanishes with its question open. Whatever arrives from the worker, the user and the
  clock, in whatever order, a prompt that is pending has its window on screen and the clock is
  subscribed to; and when the user closes a window or presses Escape or Enter, the pending prompt is
  denied, once, and its window goes.
\<close>

theorem pending_prompt_has_a_window:
  assumes "sh = foldl shell_step (shell_start portal) hs" and "ap_pending (sh_app sh) = Some p"
    and "ap_decision_tx (sh_app sh)" and "ev \<in> {CloseRequested, KeyPressed Escape, KeyPressed Enter}"
    and "sh' = shell_step sh (ge, WindowEvent v ev)"
  shows "\<exists>w. ap_window (sh_app sh) = Some w \<and> w \<in> sh_windows sh \<and> FromClock \<in> set (subscription (sh_app sh)) \<and>
    sh_sent sh' = sh_sent sh @ [DenyOnce] \<and> ap_pending (sh_app sh') = None \<and> w \<notin> sh_windows sh'"
proof -
  have "shell_ok sh"
    unfolding assms(1) by (rule helper_shell.inv_run [OF shell_ok_start])
  then obtain w where w: "ap_window (sh_app sh) = Some w" "w \<in> sh_windows sh"
    using assms(2) by (auto simp: shell_ok_def)
  have "event_message ev = Some DenyMsg"
    using assms(4) by (auto simp: event_message_def)
  then show ?thesis
    using w shell_denies [OF assms(2) w(1) assms(3)] assms(2,5) by (simp add: subscription_def ticking_def)
qed

definition shell_gui :: gui_env where
  "shell_gui = \<lparr>ge_now = 0, ge_home = [], ge_portal = (\<lambda>_. None), ge_fallback_ms = None, ge_window = 4\<rparr>"

definition shell_demo :: shell where
  "shell_demo = foldl shell_step (shell_start None)
     [(shell_gui, Posted WorkerReady),
      (shell_gui, Posted (PromptMsg
         \<lparr>pr_pid = 7, pr_exe = ''/bin/cat'', pr_cmdline = ''cat'', pr_cwd = ''/'', pr_path = ''/k'',
          pr_always_object = ''/k'', pr_always_tree = False, pr_always_cwd_pinned = False, pr_ui_timeout_ms = 25000\<rparr>))]"

theorem pending_prompt_has_a_window_witness:
  "sh_windows shell_demo = {4} \<and>
   sh_sent (shell_step shell_demo (shell_gui, WindowEvent 4 CloseRequested)) = [DenyOnce]"
proof -
  have demo: "sh_windows shell_demo = {4}" "sh_sent shell_demo = []" "ap_decision_tx (sh_app shell_demo)"
    "ap_pending (sh_app shell_demo) \<noteq> None"
    by (simp_all add: shell_demo_def shell_start_def shell_step_def shell_update_def app_update_def
        app_resolve_def run_task_def app_new_def shell_gui_def Let_def)
  then obtain p where p: "ap_pending (sh_app shell_demo) = Some p" by blast
  from pending_prompt_has_a_window [OF shell_demo_def p demo(3), of CloseRequested _ shell_gui 4]
  show ?thesis
    by (auto simp: demo)
qed

end
