(* ===== verification/FW_TestRules.thy ===== *)
theory FW_TestRules
  imports FW_Store
begin

text \<open>
  The unit tests of the rules (the \<open>tests\<close> module of filewall-rules/src/lib.rs) run against the model: each test function is a closed statement, the
  conjunction of its assertions over the model's definitions, and is proved to hold. A test that
  goes through \<open>toml\<close> is a statement about any text form that obeys the law.
\<close>

section \<open>Learned rules\<close>

definition tree_allow :: "string \<Rightarrow> path \<Rightarrow> learned_rule" where
  "tree_allow exe root =
     \<lparr>lr_id = 0, lr_created_unix = 0, lr_action = RuleAllow, lr_exe = exe, lr_object = root,
      lr_object_kind = KindTree, lr_cwd = None\<rparr>"

definition test_tree_rule_matches_subpath_same_exe :: bool where
  "test_tree_rule_matches_subpath_same_exe \<longleftrightarrow>
     (let r = tree_allow ''/usr/bin/git'' ''/home/u/.ssh''
      in rule_matches r ''/home/u/.ssh/id_ed25519'' ''/usr/bin/git'' None \<and>
         \<not> rule_matches r ''/home/u/.aws/creds'' ''/usr/bin/git'' None \<and>
         \<not> rule_matches r ''/home/u/.ssh/id_ed25519'' ''/usr/bin/node'' None)"

definition test_file_rule_requires_exact_path :: bool where
  "test_file_rule_requires_exact_path \<longleftrightarrow>
     (let r = \<lparr>lr_id = 0, lr_created_unix = 0, lr_action = RuleAllow, lr_exe = ''/usr/bin/git'',
               lr_object = ''/home/u/.ssh/id_ed25519'', lr_object_kind = KindFile, lr_cwd = None\<rparr>
      in rule_matches r ''/home/u/.ssh/id_ed25519'' ''/usr/bin/git'' None \<and>
         \<not> rule_matches r ''/home/u/.ssh/other'' ''/usr/bin/git'' None)"

definition test_cwd_constraint_must_match_when_present :: bool where
  "test_cwd_constraint_must_match_when_present \<longleftrightarrow>
     (let r = (tree_allow ''/usr/bin/node'' ''/home/u/.ssh'')\<lparr>lr_cwd := Some ''/home/u/projects/foo''\<rparr>
      in rule_matches r ''/home/u/.ssh/k'' ''/usr/bin/node'' (Some ''/home/u/projects/foo'') \<and>
         \<not> rule_matches r ''/home/u/.ssh/k'' ''/usr/bin/node'' (Some ''/elsewhere'') \<and>
         \<not> rule_matches r ''/home/u/.ssh/k'' ''/usr/bin/node'' None)"

definition test_evaluate_is_deny_wins :: bool where
  "test_evaluate_is_deny_wins \<longleftrightarrow>
     (let rs = rules_push (tree_allow ''/usr/bin/node'' ''/home/u/.ssh'') rules_default;
          rs = rules_push ((tree_allow ''/usr/bin/node'' ''/home/u/.ssh'')\<lparr>lr_action := RuleDeny\<rparr>) rs
      in rules_evaluate rs ''/home/u/.ssh/k'' ''/usr/bin/node'' None = Some RuleDeny)"

definition test_evaluate_returns_none_when_nothing_matches :: bool where
  "test_evaluate_returns_none_when_nothing_matches \<longleftrightarrow>
     rules_evaluate rules_default ''/x'' ''/usr/bin/node'' None = None"

definition test_save_then_load_roundtrips :: "toml_text \<Rightarrow> save_env \<Rightarrow> path \<Rightarrow> file_map \<Rightarrow> bool" where
  "test_save_then_load_roundtrips tt env path fm \<longleftrightarrow>
     (let rs = rules_push (tree_allow ''/usr/bin/git'' ''/home/u/.ssh'') rules_default;
          saved = save_atomic (rules_to_toml tt) env rs path fm;
          back = rules_load (rules_from_toml tt) (after_save saved fm) path
      in is_ok (fst saved) \<and> length (rs_rules back) = 1 \<and> lr_exe (rs_rules back ! 0) = ''/usr/bin/git'')"

definition test_load_missing_file_is_empty :: "toml_text \<Rightarrow> file_map \<Rightarrow> bool" where
  "test_load_missing_file_is_empty tt fm \<longleftrightarrow>
     rs_rules (rules_load (rules_from_toml tt) fm ''/nonexistent/filewall/rules.toml'') = []"

definition test_backfill_assigns_sequential_ids_in_order :: bool where
  "test_backfill_assigns_sequential_ids_in_order \<longleftrightarrow>
     (let rs = backfill_ids (rules_default\<lparr>rs_rules := [tree_allow ''/usr/bin/a'' ''/x'', tree_allow ''/usr/bin/b'' ''/y'']\<rparr>)
      in lr_id (rs_rules rs ! 0) = 1 \<and> lr_id (rs_rules rs ! 1) = 2 \<and> rs_next_id rs = 3)"

definition test_backfill_preserves_existing_ids_and_advances_next_id :: bool where
  "test_backfill_preserves_existing_ids_and_advances_next_id \<longleftrightarrow>
     (let r1 = (tree_allow ''/usr/bin/a'' ''/x'')\<lparr>lr_id := 5\<rparr>;
          rs = backfill_ids (rules_default\<lparr>rs_rules := [r1, tree_allow ''/usr/bin/b'' ''/y'']\<rparr>)
      in lr_id (rs_rules rs ! 0) = 5 \<and> lr_id (rs_rules rs ! 1) = 6 \<and> rs_next_id rs = 7)"

definition test_push_allocates_and_bumps_next_id :: bool where
  "test_push_allocates_and_bumps_next_id \<longleftrightarrow>
     (let rs = rules_push (tree_allow ''/usr/bin/a'' ''/x'') rules_default;
          rs = rules_push (tree_allow ''/usr/bin/b'' ''/y'') rs
      in lr_id (rs_rules rs ! 0) = 1 \<and> lr_id (rs_rules rs ! 1) = 2 \<and> rs_next_id rs = 3)"

definition test_no_id_reuse_after_remove :: bool where
  "test_no_id_reuse_after_remove \<longleftrightarrow>
     (let rs = rules_push (tree_allow ''/usr/bin/a'' ''/x'') rules_default;
          rs = rules_push (tree_allow ''/usr/bin/b'' ''/y'') rs;
          rs = rs\<lparr>rs_rules := take 1 (rs_rules rs) @ drop 2 (rs_rules rs)\<rparr>;
          rs = rules_push (tree_allow ''/usr/bin/c'' ''/z'') rs
      in lr_id (last (rs_rules rs)) = 3)"

definition test_save_load_preserves_ids_and_next_id :: "toml_text \<Rightarrow> save_env \<Rightarrow> path \<Rightarrow> file_map \<Rightarrow> bool" where
  "test_save_load_preserves_ids_and_next_id tt env path fm \<longleftrightarrow>
     (let rs = rules_push (tree_allow ''/usr/bin/git'' ''/home/u/.ssh'') rules_default;
          saved = save_atomic (rules_to_toml tt) env rs path fm;
          back = rules_load (rules_from_toml tt) (after_save saved fm) path
      in is_ok (fst saved) \<and> lr_id (rs_rules back ! 0) = 1 \<and> rs_next_id back = 2)"

definition test_load_corrupt_file_is_empty :: "toml_text \<Rightarrow> path \<Rightarrow> file_map \<Rightarrow> bool" where
  "test_load_corrupt_file_is_empty tt path fm \<longleftrightarrow>
     rs_rules (rules_load (rules_from_toml tt) (put_file path ''this is not valid toml {{{'' fm) path) = []"

lemma rule_matching_tests_pass:
  "test_tree_rule_matches_subpath_same_exe" "test_file_rule_requires_exact_path"
  "test_cwd_constraint_must_match_when_present" "test_evaluate_is_deny_wins"
  "test_evaluate_returns_none_when_nothing_matches"
  by code_simp+

lemma id_tests_pass:
  "test_backfill_assigns_sequential_ids_in_order" "test_backfill_preserves_existing_ids_and_advances_next_id"
  "test_push_allocates_and_bumps_next_id" "test_no_id_reuse_after_remove"
  by code_simp+

lemma git_rule_storable:
  "storable (rules_push (tree_allow ''/usr/bin/git'' ''/home/u/.ssh'') rules_default)"
proof -
  have "valid_utf8 ''/usr/bin/git''" "valid_utf8 ''/home/u/.ssh''" by code_simp+
  then show ?thesis
    by (simp add: storable_def storable_rule_def small_def rules_push_simps rules_default_def tree_allow_def)
qed

lemma saved_git_rule:
  assumes "toml_law tt" and "file_name path \<noteq> Some (tmp_name env)"
    and "se_mkdir env = None" "se_write env = WriteOk" "se_rename env = None"
  defines "rs \<equiv> rules_push (tree_allow ''/usr/bin/git'' ''/home/u/.ssh'') rules_default"
  shows "is_ok (fst (save_atomic (rules_to_toml tt) env rs path fm)) \<and>
    rules_load (rules_from_toml tt) (after_save (save_atomic (rules_to_toml tt) env rs path fm) fm) path = rs"
proof -
  obtain body where body: "rules_to_toml tt rs = Some body" "valid_utf8 body" "rules_from_toml tt body = Some rs"
    using rules_to_toml_ok [OF assms(1) git_rule_storable] unfolding rs_def by blast
  have saved: "fst (save_atomic (rules_to_toml tt) env rs path fm) = Inr ()"
    using body(1) assms(3-5) by (simp add: save_atomic_def fs_write_def Let_def)
  have "rules_inv rs" "rs_next_id rs \<noteq> 0"
    by (simp_all add: rs_def rules_inv_def rules_push_simps rules_default_def)
  then show ?thesis
    using load_after_save [where to_toml = "rules_to_toml tt" and from_toml = "rules_from_toml tt", OF assms(2) saved body(1,3,2)]
      saved by simp
qed

lemma rule_file_tests_pass:
  assumes "toml_law tt" and "file_name path \<noteq> Some (tmp_name env)"
    and "se_mkdir env = None" "se_write env = WriteOk" "se_rename env = None"
  shows "test_save_then_load_roundtrips tt env path fm" "test_save_load_preserves_ids_and_next_id tt env path fm"
  using saved_git_rule [OF assms, of fm]
  by (simp_all add: test_save_then_load_roundtrips_def test_save_load_preserves_ids_and_next_id_def Let_def
      rules_push_simps rules_default_def tree_allow_def)

lemma broken_file_tests_pass:
  "fm (components ''/nonexistent/filewall/rules.toml'') = None \<Longrightarrow> test_load_missing_file_is_empty tt fm"
  "tm_parse tt ''this is not valid toml {{{'' = None \<Longrightarrow> test_load_corrupt_file_is_empty tt path fm"
proof -
  have "valid_utf8 ''this is not valid toml {{{''" by code_simp
  then show "tm_parse tt ''this is not valid toml {{{'' = None \<Longrightarrow> test_load_corrupt_file_is_empty tt path fm"
    by (simp add: test_load_corrupt_file_is_empty_def rules_load_def read_to_string_def put_file_def
        rules_from_toml_def rules_default_def)
qed (simp add: test_load_missing_file_is_empty_def rules_load_def read_to_string_def rules_default_def)

end
