(* ===== verification/FW_TestProto.thy ===== *)
theory FW_TestProto
  imports FW_Wire
begin

text \<open>
  The unit tests of the protocol (the \<open>tests\<close> module of filewall-proto/src/lib.rs) run against the
  model. They write to a vector and read from a cursor over it, which are a byte sink and a byte
  source like the socket; \<open>serde_json\<close> is any text form that obeys the law.
\<close>

section \<open>A vector and a cursor\<close>

definition vec_write :: "bytes \<Rightarrow> bytes \<Rightarrow> unit io_result \<times> bytes" where
  "vec_write bs w = (Inr (), w @ bs)"

definition vec_flush :: "bytes \<Rightarrow> unit io_result \<times> bytes" where
  "vec_flush w = (Inr (), w)"

definition cursor_read :: "nat \<Rightarrow> bytes \<Rightarrow> bytes io_result \<times> bytes" where
  "cursor_read n r = (if n \<le> length r then (Inr (take n r), drop n r) else (Inl UnexpectedEof, []))"

interpretation vector: byte_sink vec_write vec_flush "\<lambda>w. w"
  by unfold_locales (auto simp: vec_write_def vec_flush_def)

interpretation cursor: byte_source cursor_read "\<lambda>r. r"
  by unfold_locales (auto simp: cursor_read_def split: if_splits)

interpretation buffer: byte_pipe vec_write vec_flush "\<lambda>w. w" cursor_read "\<lambda>r. r" ..

section \<open>The tests\<close>

definition sample_request :: prompt_request where
  "sample_request =
     \<lparr>pr_pid = 84321, pr_exe = ''/usr/bin/node'', pr_cmdline = ''node /home/user/evil.js'',
      pr_cwd = ''/home/user/projects/foo'', pr_path = ''/home/user/.ssh/id_ed25519'',
      pr_always_object = ''/home/user/.ssh'', pr_always_tree = True, pr_always_cwd_pinned = False,
      pr_ui_timeout_ms = 25000\<rparr>"

definition test_request_roundtrip_preserves_scope_fields :: "json_text \<Rightarrow> bool" where
  "test_request_roundtrip_preserves_scope_fields jt \<longleftrightarrow>
     (case receive_as jt dec_prompt_request (js_print jt (enc_prompt_request sample_request)) of
        None \<Rightarrow> False
      | Some back \<Rightarrow> pr_always_object back = ''/home/user/.ssh'' \<and> pr_always_tree back \<and>
          \<not> pr_always_cwd_pinned back)"

definition test_request_json_roundtrip :: "json_text \<Rightarrow> bool" where
  "test_request_json_roundtrip jt \<longleftrightarrow>
     receive_as jt dec_prompt_request (js_print jt (enc_prompt_request sample_request)) = Some sample_request"

definition test_decision_serializes_kebab :: bool where
  "test_decision_serializes_kebab \<longleftrightarrow>
     enc_decision AllowOnce = JStr ''allow-once'' \<and> enc_decision DenyAlways = JStr ''deny-always''"

definition test_decision_allows_predicate :: bool where
  "test_decision_allows_predicate \<longleftrightarrow>
     decision_allows AllowOnce \<and> decision_allows AllowAlways \<and> \<not> decision_allows DenyOnce \<and>
     \<not> decision_allows DenyAlways"

definition test_framing_roundtrip_request :: "json_text \<Rightarrow> bool" where
  "test_framing_roundtrip_request jt \<longleftrightarrow>
     (let (written, buf) = write_msg vec_write vec_flush (send_as jt enc_prompt_request) sample_request []
      in is_ok written \<and> fst (read_msg cursor_read (receive_as jt dec_prompt_request) buf) = Inr sample_request)"

definition test_framing_roundtrip_response :: "json_text \<Rightarrow> bool" where
  "test_framing_roundtrip_response jt \<longleftrightarrow>
     (let resp = \<lparr>pp_decision = DenyOnce\<rparr>;
          (written, buf) = write_msg vec_write vec_flush (send_as jt enc_prompt_response) resp []
      in is_ok written \<and> fst (read_msg cursor_read (receive_as jt dec_prompt_response) buf) = Inr resp)"

definition test_two_messages_back_to_back :: "json_text \<Rightarrow> bool" where
  "test_two_messages_back_to_back jt \<longleftrightarrow>
     (let a = sample_request; b = \<lparr>pp_decision = AllowOnce\<rparr>;
          (written, buf) = write_msg vec_write vec_flush (send_as jt enc_prompt_request) a [];
          (written', buf) = write_msg vec_write vec_flush (send_as jt enc_prompt_response) b buf;
          (ra, cur) = read_msg cursor_read (receive_as jt dec_prompt_request) buf;
          (rb, cur) = read_msg cursor_read (receive_as jt dec_prompt_response) cur
      in is_ok written \<and> is_ok written' \<and> ra = Inr a \<and> rb = Inr b)"

definition test_truncated_stream_is_eof :: "json_text \<Rightarrow> bool" where
  "test_truncated_stream_is_eof jt \<longleftrightarrow>
     fst (read_msg cursor_read (receive_as jt dec_prompt_response) (to_be_bytes 100 @ [123, 125])) = Inl UnexpectedEof"

definition test_objkind_serializes_lowercase :: bool where
  "test_objkind_serializes_lowercase \<longleftrightarrow> obj_kind_tag ObjFile = ''file'' \<and> obj_kind_tag ObjDir = ''dir''"

definition sample_dump :: dump_response where
  "sample_dump =
     \<lparr>dr_pid = 4242, dr_generated_unix = 1700000000,
      dr_objects =
        [\<lparr>wo_path = ''/home/u/.ssh'', wo_kind = ObjDir, wo_recursive = True, wo_watch = ''/home/u/.ssh'',
          wo_fanotify = True, wo_live_marked = Some True\<rparr>,
         \<lparr>wo_path = ''/home/u/.vault-token'', wo_kind = ObjFile, wo_recursive = False,
          wo_watch = ''/home/u/.vault-token'', wo_fanotify = True, wo_live_marked = None\<rparr>]\<rparr>"

definition test_dump_response_json_roundtrip :: "json_text \<Rightarrow> bool" where
  "test_dump_response_json_roundtrip jt \<longleftrightarrow>
     receive_as jt dec_dump_response (js_print jt (enc_dump_response sample_dump)) = Some sample_dump"

definition test_file_object_live_marked_is_null_in_json :: bool where
  "test_file_object_live_marked_is_null_in_json \<longleftrightarrow>
     (case enc_watched_object (dr_objects sample_dump ! 1) of
        JObj kvs \<Rightarrow> (''live_marked'', JNull) \<in> set kvs
      | _ \<Rightarrow> False)"

definition test_control_request_roundtrip :: "json_text \<Rightarrow> bool" where
  "test_control_request_roundtrip jt \<longleftrightarrow>
     (let (written, buf) = write_msg vec_write vec_flush (send_as jt enc_control_request) Dump []
      in is_ok written \<and> fst (read_msg cursor_read (receive_as jt dec_control_request) buf) = Inr Dump)"

definition big_dump :: dump_response where
  "big_dump =
     \<lparr>dr_pid = 1, dr_generated_unix = 0,
      dr_objects =
        map (\<lambda>i. \<lparr>wo_path = ''/very/long/path/number/'' @ show_nat i @ ''/with/some/padding'',
                   wo_kind = ObjDir, wo_recursive = True, wo_watch = ''/very/long/path'',
                   wo_fanotify = True, wo_live_marked = Some True\<rparr>) [0..<2000]\<rparr>"

definition test_capped_framing_allows_payload_above_prompt_limit :: "json_text \<Rightarrow> bool" where
  "test_capped_framing_allows_payload_above_prompt_limit jt \<longleftrightarrow>
     (let (written, buf) = write_msg_capped vec_write vec_flush (send_as jt enc_dump_response) max_control_msg_len big_dump []
      in is_ok written \<and> unat max_msg_len < length buf \<and>
         fst (read_msg_capped cursor_read (receive_as jt dec_dump_response) max_control_msg_len buf) = Inr big_dump)"

definition test_capped_framing_rejects_payload_over_its_own_cap :: "json_text \<Rightarrow> bool" where
  "test_capped_framing_rejects_payload_over_its_own_cap jt \<longleftrightarrow>
     fst (read_msg_capped cursor_read (receive_as jt dec_dump_response) max_control_msg_len
       (to_be_bytes (max_control_msg_len + 1))) = Inl InvalidData"

definition test_oversized_length_is_rejected :: "json_text \<Rightarrow> bool" where
  "test_oversized_length_is_rejected jt \<longleftrightarrow>
     fst (read_msg cursor_read (receive_as jt dec_prompt_response) (to_be_bytes (max_msg_len + 1))) = Inl InvalidData"

section \<open>They pass\<close>

lemma sample_text:
  "request_text_ok sample_request" "dump_text_ok sample_dump" "dump_text_ok big_dump"
proof -
  show "request_text_ok sample_request" "dump_text_ok sample_dump" by code_simp+
  have "valid_utf8 ''/very/long/path/number/''" "valid_utf8 ''/with/some/padding''" "valid_utf8 ''/very/long/path''"
    by code_simp+
  then show "dump_text_ok big_dump"
    by (auto simp: dump_text_ok_def big_dump_def list_all_iff ascii_valid_utf8 intro!: valid_utf8_append
        simp del: append_Cons append_Nil)
qed

lemma schema_tests_pass:
  "test_decision_serializes_kebab" "test_decision_allows_predicate" "test_objkind_serializes_lowercase"
  "test_file_object_live_marked_is_null_in_json"
  by code_simp+

lemma json_tests_pass:
  assumes "json_law jt"
  shows "test_request_roundtrip_preserves_scope_fields jt" "test_request_json_roundtrip jt"
    "test_dump_response_json_roundtrip jt"
  using requests.received [OF assms sample_text(1)] dumps.received [OF assms sample_text(2)]
  by (simp_all add: test_request_roundtrip_preserves_scope_fields_def test_request_json_roundtrip_def
      test_dump_response_json_roundtrip_def) (simp add: sample_request_def)

text \<open>What fits goes into the vector as one frame and comes out of the cursor again.\<close>

lemma vec_write_fits:
  assumes "length (js_print jt (enc m)) \<le> unat (mx :: u32)"
  shows "write_msg_capped vec_write vec_flush (send_as jt enc) mx m w = (Inr (), w @ frame (js_print jt (enc m)))"
proof -
  have lim: "unat mx < 2 ^ 32"
    by (rule order.strict_trans2 [OF unsigned_less]) simp
  then have "\<not> mx < (of_nat (length (js_print jt (enc m))) :: u32)"
    using assms by (simp add: word_less_nat_alt unat_of_len)
  then show ?thesis
    using assms lim by (simp add: write_msg_capped_def send_as_def Let_def vec_write_def vec_flush_def frame_def)
qed

lemma cursor_read_frame:
  assumes "length body \<le> unat mx" and "dec body = Some m"
  shows "read_msg_capped cursor_read dec mx (frame body @ rest) = (Inr m, rest)"
  using cursor.read_msg_frame [of "frame body @ rest" body rest mx dec m] assms by auto

lemma framing_tests_pass:
  assumes "json_law jt"
    and "length (js_print jt (enc_prompt_request sample_request)) \<le> unat max_msg_len"
    and "\<And>resp. length (js_print jt (enc_prompt_response resp)) \<le> unat max_msg_len"
    and "length (js_print jt (enc_control_request Dump)) \<le> unat max_msg_len"
  shows "test_framing_roundtrip_request jt" "test_framing_roundtrip_response jt"
    "test_two_messages_back_to_back jt" "test_control_request_roundtrip jt"
proof -
  note reads = cursor_read_frame [where rest = "[]", simplified] cursor_read_frame
  have req: "receive_as jt dec_prompt_request (js_print jt (enc_prompt_request sample_request)) = Some sample_request"
    by (rule requests.received [OF assms(1) sample_text(1)])
  have resp: "receive_as jt dec_prompt_response (js_print jt (enc_prompt_response r)) = Some r" for r
    by (rule responses.received [OF assms(1) TrueI])
  have ctl: "receive_as jt dec_control_request (js_print jt (enc_control_request Dump)) = Some Dump"
    by (rule control_requests.received [OF assms(1) TrueI])
  show "test_framing_roundtrip_request jt" "test_framing_roundtrip_response jt"
    "test_two_messages_back_to_back jt" "test_control_request_roundtrip jt"
    using assms(2-4) req resp ctl
    by (simp_all add: test_framing_roundtrip_request_def test_framing_roundtrip_response_def
        test_two_messages_back_to_back_def test_control_request_roundtrip_def write_msg_def read_msg_def
        vec_write_fits reads Let_def)
qed

lemma large_payload_test_passes:
  assumes "json_law jt"
    and "unat max_msg_len < length (js_print jt (enc_dump_response big_dump))"
    and "length (js_print jt (enc_dump_response big_dump)) \<le> unat max_control_msg_len"
  shows "test_capped_framing_allows_payload_above_prompt_limit jt"
proof -
  let ?body = "js_print jt (enc_dump_response big_dump)"
  have "receive_as jt dec_dump_response ?body = Some big_dump"
    by (rule dumps.received [OF assms(1) sample_text(3)])
  then have "read_msg_capped cursor_read (receive_as jt dec_dump_response) max_control_msg_len (frame ?body) = (Inr big_dump, [])"
    using cursor_read_frame [where rest = "[]", OF assms(3)] by simp
  moreover have "unat max_msg_len < length (frame ?body)"
    using assms(2) by (simp add: frame_def)
  ultimately show ?thesis
    by (simp add: test_capped_framing_allows_payload_above_prompt_limit_def vec_write_fits [where enc = enc_dump_response and m = big_dump, OF assms(3)] Let_def)
qed

lemma refusal_tests_pass:
  "test_truncated_stream_is_eof jt" "test_capped_framing_rejects_payload_over_its_own_cap jt"
  "test_oversized_length_is_rejected jt"
  by (simp_all add: test_truncated_stream_is_eof_def test_capped_framing_rejects_payload_over_its_own_cap_def
      test_oversized_length_is_rejected_def read_msg_def read_msg_capped_def cursor_read_def max_msg_len_def
      max_control_msg_len_def Let_def)

end
