(* ===== verification/FW_TestPolicy.thy ===== *)
theory FW_TestPolicy
  imports FW_Policy
begin

text \<open>
  The unit tests of the policy (the \<open>tests\<close> module of filewalld/src/policy.rs) run against the model.
  Each is a statement about a glob library; they are run on \<open>star_globs\<close>, a matcher for the part of
  the documented glob syntax that the tests use.
\<close>

section \<open>A glob matcher\<close>

text \<open>
  Literal characters; \<open>*\<close>, which stays within a path component; \<open>**/\<close> at the start or after a slash,
  any number of directories, none included; \<open>**\<close> at the end after a slash, anything. A bracket that is
  not closed is an error.
\<close>

datatype glob_token = GLit char | GStar | GDirs | GRest

fun glob_parse :: "bool \<Rightarrow> string \<Rightarrow> glob_token list option" where
  "glob_parse after_sep [] = Some []"
| "glob_parse after_sep (c # s) =
     (if c = CHR ''['' then None
      else if c = CHR ''*'' then
        (if after_sep \<and> prefix ''*/'' s then map_option (Cons GDirs) (glob_parse True (drop 2 s))
         else if after_sep \<and> s = ''*'' then Some [GRest]
         else map_option (Cons GStar) (glob_parse False s))
      else map_option (Cons (GLit c)) (glob_parse (c = CHR ''/'') s))"

definition after_slash :: "string \<Rightarrow> string" where
  "after_slash s = tl (dropWhile (\<lambda>c. c \<noteq> CHR ''/'') s)"

lemma after_slash_shorter: "CHR ''/'' \<in> set s \<Longrightarrow> length (after_slash s) < length s"
proof (induction s)
  case (Cons c s)
  then show ?case by (cases "c = CHR ''/''") (auto simp: after_slash_def)
qed simp

function glob_match :: "glob_token list \<Rightarrow> string \<Rightarrow> bool" where
  "glob_match [] s \<longleftrightarrow> s = []"
| "glob_match (GLit c # ts) s \<longleftrightarrow> (case s of [] \<Rightarrow> False | d # s' \<Rightarrow> c = d \<and> glob_match ts s')"
| "glob_match (GStar # ts) s \<longleftrightarrow>
     glob_match ts s \<or> (case s of [] \<Rightarrow> False | d # s' \<Rightarrow> d \<noteq> CHR ''/'' \<and> glob_match (GStar # ts) s')"
| "glob_match (GDirs # ts) s \<longleftrightarrow>
     glob_match ts s \<or> (if CHR ''/'' \<in> set s then glob_match (GDirs # ts) (after_slash s) else False)"
| "glob_match (GRest # ts) s \<longleftrightarrow> True"
  by pat_completeness auto
termination
  by (relation "measures [\<lambda>(ts, s). length ts, \<lambda>(ts, s). length s]") (auto simp: after_slash_shorter)

definition star_globs :: "(glob_token list, glob_token list list) glob_api" where
  "star_globs =
     \<lparr>gl_new = (\<lambda>pat. case glob_parse True pat of None \<Rightarrow> Inl ''unclosed class'' | Some ts \<Rightarrow> Inr ts),
      gl_set = Inr, gl_match = (\<lambda>set s. list_ex (\<lambda>ts. glob_match ts s) set), gl_empty = (\<lambda>set. set = [])\<rparr>"

section \<open>The tests\<close>

text \<open>The \<open>unwrap\<close> of a result in a test: the test fails when there is none.\<close>

abbreviation unwrapped :: "'e + 'a \<Rightarrow> ('a \<Rightarrow> bool) \<Rightarrow> bool" where
  "unwrapped r f \<equiv> (case r of Inl _ \<Rightarrow> False | Inr x \<Rightarrow> f x)"

definition ssh_policy :: "('g, 's) glob_api \<Rightarrow> string + 's watch_policy" where
  "ssh_policy api =
     watch_policy_new api ''/home/user/.ssh'' [''/usr/bin/ssh'', ''/usr/bin/ssh-*'', ''/usr/lib/openssh/*'']
       ActPrompt KindFile False [] []"

definition test_combine_deny_wins :: bool where
  "test_combine_deny_wins \<longleftrightarrow>
     combine OutAllow (Some RuleDeny) = OutDeny \<and> combine OutDeny (Some RuleAllow) = OutDeny \<and>
     combine OutPrompt (Some RuleAllow) = OutAllow \<and> combine OutAllow None = OutAllow \<and>
     combine OutPrompt None = OutPrompt"

definition test_learned_rule_tree_uses_watch_root :: "('g, 's) glob_api \<Rightarrow> int \<Rightarrow> bool" where
  "test_learned_rule_tree_uses_watch_root api clock \<longleftrightarrow>
     unwrapped (watch_policy_new api ''/home/u/.ssh'' [] ActPrompt KindTree False [] []) (\<lambda>p.
       let r = watch_learned_rule clock p RuleAllow ''/usr/bin/node'' ''/home/u/.ssh/id_ed25519'' (Some ''/home/u/p'')
       in lr_object_kind r = KindTree \<and> path_eq (lr_object r) ''/home/u/.ssh'' \<and>
          lr_exe r = ''/usr/bin/node'' \<and> lr_cwd r = None)"

definition test_learned_rule_file_uses_exact_path_and_cwd :: "('g, 's) glob_api \<Rightarrow> int \<Rightarrow> bool" where
  "test_learned_rule_file_uses_exact_path_and_cwd api clock \<longleftrightarrow>
     unwrapped (watch_policy_new api ''/home/u/.ssh'' [] ActPrompt KindFile True [] []) (\<lambda>p.
       let r = watch_learned_rule clock p RuleDeny ''/usr/bin/node'' ''/home/u/.ssh/id_ed25519'' (Some ''/home/u/p'')
       in lr_object_kind r = KindFile \<and> path_eq (lr_object r) ''/home/u/.ssh/id_ed25519'' \<and>
          lr_action r = RuleDeny \<and> lr_cwd r = Some ''/home/u/p'')"

definition test_exact_allow_matches :: "('g, 's) glob_api \<Rightarrow> bool" where
  "test_exact_allow_matches api \<longleftrightarrow>
     unwrapped (ssh_policy api) (\<lambda>p. watch_evaluate api p ''/usr/bin/ssh'' = OutAllow)"

definition test_unlisted_binary_prompts :: "('g, 's) glob_api \<Rightarrow> bool" where
  "test_unlisted_binary_prompts api \<longleftrightarrow>
     unwrapped (ssh_policy api) (\<lambda>p. watch_evaluate api p ''/usr/bin/node'' = OutPrompt) \<and>
     unwrapped (ssh_policy api) (\<lambda>p. watch_evaluate api p ''/usr/bin/cat'' = OutPrompt)"

definition test_star_suffix_glob_matches :: "('g, 's) glob_api \<Rightarrow> bool" where
  "test_star_suffix_glob_matches api \<longleftrightarrow>
     unwrapped (ssh_policy api) (\<lambda>p.
       watch_evaluate api p ''/usr/bin/ssh-add'' = OutAllow \<and> watch_evaluate api p ''/usr/bin/ssh-keygen'' = OutAllow)"

definition test_single_star_does_not_cross_slash :: "('g, 's) glob_api \<Rightarrow> bool" where
  "test_single_star_does_not_cross_slash api \<longleftrightarrow>
     unwrapped (ssh_policy api) (\<lambda>p.
       watch_evaluate api p ''/usr/lib/openssh/sftp-server'' = OutAllow \<and>
       watch_evaluate api p ''/usr/lib/openssh/sub/evil'' = OutPrompt)"

definition test_double_star_crosses_slash :: "('g, 's) glob_api \<Rightarrow> bool" where
  "test_double_star_crosses_slash api \<longleftrightarrow>
     unwrapped (watch_policy_new api ''/home/user/.aws'' [''/usr/lib/python*/site-packages/awscli/**'']
         ActPrompt KindFile False [] []) (\<lambda>p.
       watch_evaluate api p ''/usr/lib/python3.12/site-packages/awscli/clidriver.py'' = OutAllow)"

definition test_default_action_deny_is_honored :: "('g, 's) glob_api \<Rightarrow> bool" where
  "test_default_action_deny_is_honored api \<longleftrightarrow>
     unwrapped (watch_policy_new api ''/x'' [''/usr/bin/ssh''] ActDeny KindFile False [] []) (\<lambda>p.
       watch_evaluate api p ''/usr/bin/node'' = OutDeny)"

definition test_covers_matches_subpaths_only :: "('g, 's) glob_api \<Rightarrow> bool" where
  "test_covers_matches_subpaths_only api \<longleftrightarrow>
     unwrapped (ssh_policy api) (\<lambda>p.
       covers p ''/home/user/.ssh/id_ed25519'' \<and> \<not> covers p ''/home/user/.aws/credentials'')"

definition test_exclude_globs_prune_paths :: "('g, 's) glob_api \<Rightarrow> bool" where
  "test_exclude_globs_prune_paths api \<longleftrightarrow>
     unwrapped (watch_policy_new api ''/home/u/.config'' [] ActPrompt KindFile False [''**/Cache'', ''**/*.tmp''] [])
       (\<lambda>p. is_excluded api p ''/home/u/.config/app/Cache'' \<and> is_excluded api p ''/home/u/.config/x/y.tmp'' \<and>
            \<not> is_excluded api p ''/home/u/.config/keep.txt'') \<and>
     unwrapped (watch_policy_new api ''/x'' [] ActPrompt KindFile False [] []) (\<lambda>none.
       \<not> is_excluded api none ''/x/anything/Cache'')"

definition test_always_target_tree_is_root_file_is_path :: "('g, 's) glob_api \<Rightarrow> bool" where
  "test_always_target_tree_is_root_file_is_path api \<longleftrightarrow>
     unwrapped (watch_policy_new api ''/home/u/.ssh'' [] ActPrompt KindTree False [] []) (\<lambda>tree.
       let (obj, kind) = always_target tree ''/home/u/.ssh/id_ed25519''
       in kind = KindTree \<and> path_eq obj ''/home/u/.ssh'') \<and>
     unwrapped (watch_policy_new api ''/home/u/.ssh'' [] ActPrompt KindFile False [] []) (\<lambda>file.
       let (obj, kind) = always_target file ''/home/u/.ssh/id_ed25519''
       in kind = KindFile \<and> path_eq obj ''/home/u/.ssh/id_ed25519'')"

definition test_always_target_agrees_with_learned_rule :: "('g, 's) glob_api \<Rightarrow> int \<Rightarrow> bool" where
  "test_always_target_agrees_with_learned_rule api clock \<longleftrightarrow>
     list_all (\<lambda>kind. list_all (\<lambda>learn_cwd.
       unwrapped (watch_policy_new api ''/home/u/.ssh'' [] ActPrompt kind learn_cwd [] []) (\<lambda>p.
         let path = ''/home/u/.ssh/id_ed25519'';
             (obj, obj_kind) = always_target p path;
             rule = watch_learned_rule clock p RuleAllow ''/usr/bin/node'' path (Some ''/home/u/p'')
         in path_eq (lr_object rule) obj \<and> lr_object_kind rule = obj_kind \<and>
            (lr_cwd rule \<noteq> None \<longleftrightarrow> wp_learn_cwd p)))
       [False, True]) [KindTree, KindFile]"

definition test_policy_routes_to_covering_watch :: "('g, 's) glob_api \<Rightarrow> bool" where
  "test_policy_routes_to_covering_watch api \<longleftrightarrow>
     unwrapped (watch_policy_new api ''/home/user/.ssh'' [''/usr/bin/ssh''] ActPrompt KindFile False [] []) (\<lambda>ssh.
     unwrapped (watch_policy_new api ''/home/user/.aws'' [''/usr/bin/aws''] ActPrompt KindFile False [] []) (\<lambda>aws.
       let policy = \<lparr>po_watches = [ssh, aws]\<rparr>
       in policy_evaluate api policy ''/home/user/.ssh/id_ed25519'' ''/usr/bin/ssh'' = OutAllow \<and>
          policy_evaluate api policy ''/home/user/.aws/credentials'' ''/usr/bin/ssh'' = OutPrompt \<and>
          policy_evaluate api policy ''/etc/hosts'' ''/usr/bin/node'' = OutAllow))"

definition patterns_watch :: "('g, 's) glob_api \<Rightarrow> path \<Rightarrow> string list \<Rightarrow> string + 's watch_policy" where
  "patterns_watch api root pats = watch_policy_new api root [] ActPrompt KindFile False [] pats"

definition test_pattern_is_deep_detects_separator_crossing :: bool where
  "test_pattern_is_deep_detects_separator_crossing \<longleftrightarrow>
     \<not> pattern_is_deep ''*_history'' \<and> \<not> pattern_is_deep ''.python_history'' \<and>
     pattern_is_deep ''**/*_history'' \<and> pattern_is_deep ''sub/*_history'' \<and> pattern_is_deep ''**''"

definition test_no_patterns_includes_everything_and_is_recursive :: "('g, 's) glob_api \<Rightarrow> bool" where
  "test_no_patterns_includes_everything_and_is_recursive api \<longleftrightarrow>
     unwrapped (patterns_watch api ''/home/u'' []) (\<lambda>p.
       wp_recursive p \<and> is_included api p ''/home/u/anything'' \<and> is_included api p ''/home/u/deep/nested/file'')"

definition test_shallow_patterns_match_immediate_children_only_and_are_non_recursive ::
    "('g, 's) glob_api \<Rightarrow> bool" where
  "test_shallow_patterns_match_immediate_children_only_and_are_non_recursive api \<longleftrightarrow>
     unwrapped (patterns_watch api ''/home/u'' [''*_history'', ''.python_history'']) (\<lambda>p.
       \<not> wp_recursive p \<and> is_included api p ''/home/u/.zsh_history'' \<and>
       is_included api p ''/home/u/.python_history'' \<and> \<not> is_included api p ''/home/u/sub/foo_history'' \<and>
       \<not> is_included api p ''/home/u/notes.txt'')"

definition test_deep_patterns_match_any_depth_and_force_recursive :: "('g, 's) glob_api \<Rightarrow> bool" where
  "test_deep_patterns_match_any_depth_and_force_recursive api \<longleftrightarrow>
     unwrapped (patterns_watch api ''/home/u'' [''**/*_history'']) (\<lambda>p.
       wp_recursive p \<and> is_included api p ''/home/u/.zsh_history'' \<and>
       is_included api p ''/home/u/.config/app/foo_history'' \<and>
       \<not> is_included api p ''/home/u/.config/app/notes.txt'')"

definition test_shallow_and_deep_patterns_coexist :: "('g, 's) glob_api \<Rightarrow> bool" where
  "test_shallow_and_deep_patterns_coexist api \<longleftrightarrow>
     unwrapped (patterns_watch api ''/home/u'' [''*_history'', ''**/*_history'']) (\<lambda>p.
       wp_recursive p \<and> is_included api p ''/home/u/zsh_history'' \<and>
       is_included api p ''/home/u/a/b/zsh_history'' \<and> \<not> is_included api p ''/home/u/a/b/keep.txt'')"

definition test_is_included_invalid_glob_is_reported_at_build :: "('g, 's) glob_api \<Rightarrow> bool" where
  "test_is_included_invalid_glob_is_reported_at_build api \<longleftrightarrow>
     \<not> is_ok (watch_policy_new api ''/x'' [] ActPrompt KindFile False [] [''[invalid''])"

section \<open>They pass\<close>

lemma combination_tests_pass: "test_combine_deny_wins" "test_pattern_is_deep_detects_separator_crossing"
  by code_simp+

lemma learning_tests_pass:
  "test_learned_rule_tree_uses_watch_root star_globs clock"
  "test_learned_rule_file_uses_exact_path_and_cwd star_globs clock"
  "test_always_target_agrees_with_learned_rule star_globs clock"
  "test_always_target_tree_is_root_file_is_path star_globs"
  by (simp_all add: test_learned_rule_tree_uses_watch_root_def test_learned_rule_file_uses_exact_path_and_cwd_def
      test_always_target_agrees_with_learned_rule_def test_always_target_tree_is_root_file_is_path_def
      watch_policy_new_def build_globs_def star_globs_def watch_learned_rule_def always_target_def Let_def)

lemma allow_list_tests_pass:
  "test_exact_allow_matches star_globs" "test_unlisted_binary_prompts star_globs"
  "test_star_suffix_glob_matches star_globs" "test_single_star_does_not_cross_slash star_globs"
  "test_double_star_crosses_slash star_globs" "test_default_action_deny_is_honored star_globs"
  by code_simp+

lemma scope_tests_pass:
  "test_covers_matches_subpaths_only star_globs" "test_exclude_globs_prune_paths star_globs"
  "test_policy_routes_to_covering_watch star_globs"
  "test_no_patterns_includes_everything_and_is_recursive star_globs"
  "test_shallow_patterns_match_immediate_children_only_and_are_non_recursive star_globs"
  "test_deep_patterns_match_any_depth_and_force_recursive star_globs"
  "test_shallow_and_deep_patterns_coexist star_globs"
  "test_is_included_invalid_glob_is_reported_at_build star_globs"
  by code_simp+

end
