(* ===== verification/FW_TestConfig.thy ===== *)
theory FW_TestConfig
  imports FW_Store FW_TestPolicy
begin

text \<open>
  The unit tests of the configuration (the \<open>tests\<close> module of filewalld/src/config.rs) run against the
  model. The document a test parses is given as the table it denotes; what \<open>from_str\<close> does with the
  text of such a document is \<open>config_from_str_table\<close>.
\<close>

section \<open>Documents\<close>

definition config_of_table :: "(string \<times> json) list \<Rightarrow> config_error + config" where
  "config_of_table kvs = (case dec_raw_config (JObj kvs) of None \<Rightarrow> Inl CfgParse | Some r \<Rightarrow> Inr (config_of r))"

lemma config_from_str_table:
  "tm_parse tt text = Some (JObj kvs) \<Longrightarrow> config_from_str (config_from_toml tt) text = config_of_table kvs"
  by (simp add: config_from_str_def config_from_toml_def config_of_table_def)

abbreviation texts :: "string list \<Rightarrow> json" where
  "texts ss \<equiv> JArr (map JStr ss)"

text \<open>A host on which no watched path exists, and with no home directory.\<close>

definition bare_host :: host where
  "bare_host = \<lparr>ho_home = None, ho_canonicalize = (\<lambda>_. Inl NotFound)\<rparr>"

section \<open>The tests\<close>

definition test_parses_full_config :: bool where
  "test_parses_full_config \<longleftrightarrow>
     unwrapped (config_of_table
         [(''default_action'', JStr ''prompt''), (''prompt_timeout_seconds'', JNum 15),
          (''socket_path'', JStr ''/run/filewall/prompt.sock''),
          (''watch'', JArr [JObj [(''path'', JStr ''/home/user/.ssh''),
                                (''allow'', texts [''/usr/bin/ssh'', ''/usr/bin/ssh-*''])]])]) (\<lambda>cfg.
       cf_default_action cfg = ActPrompt \<and> cf_prompt_timeout_seconds cfg = 15 \<and> length (cf_watch cfg) = 1 \<and>
       wc_path (cf_watch cfg ! 0) = ''/home/user/.ssh'')"

definition test_control_socket_path_defaults_when_absent :: bool where
  "test_control_socket_path_defaults_when_absent \<longleftrightarrow>
     unwrapped (config_of_table [(''default_action'', JStr ''prompt'')]) (\<lambda>cfg.
       path_eq (cf_control_socket_path cfg) ''/run/filewall/control.sock'')"

definition test_control_socket_path_is_read_when_present :: bool where
  "test_control_socket_path_is_read_when_present \<longleftrightarrow>
     unwrapped (config_of_table [(''control_socket_path'', JStr ''/tmp/ctl.sock'')]) (\<lambda>cfg.
       path_eq (cf_control_socket_path cfg) ''/tmp/ctl.sock'')"

definition test_applies_defaults_when_omitted :: bool where
  "test_applies_defaults_when_omitted \<longleftrightarrow>
     unwrapped (config_of_table [(''watch'', JArr [JObj [(''path'', JStr ''/home/user/.ssh'')]])]) (\<lambda>cfg.
       cf_default_action cfg = ActPrompt \<and> cf_prompt_timeout_seconds cfg = 30 \<and>
       path_eq (cf_socket_path cfg) ''/run/filewall/prompt.sock'' \<and> wc_allow (cf_watch cfg ! 0) = [])"

definition test_build_policy_evaluates :: "('g, 's) glob_api \<Rightarrow> host \<Rightarrow> bool" where
  "test_build_policy_evaluates api h \<longleftrightarrow>
     unwrapped (config_of_table [(''watch'', JArr [JObj [(''path'', JStr ''/home/user/.ssh''),
                                                    (''allow'', texts [''/usr/bin/ssh''])]])]) (\<lambda>cfg.
     unwrapped (build_policy api h cfg) (\<lambda>policy.
       policy_evaluate api policy ''/home/user/.ssh/id_ed25519'' ''/usr/bin/ssh'' = OutAllow \<and>
       policy_evaluate api policy ''/home/user/.ssh/id_ed25519'' ''/usr/bin/node'' = OutPrompt))"

definition test_learn_settings_default_and_parse :: bool where
  "test_learn_settings_default_and_parse \<longleftrightarrow>
     unwrapped (config_of_table
         [(''rules_path'', JStr ''/var/lib/filewall/rules.toml''),
          (''watch'', JArr [JObj [(''path'', JStr ''/home/u/.ssh'')],
                          JObj [(''path'', JStr ''/home/u/.aws''), (''learn_object'', JStr ''tree''),
                                (''learn_match'', texts [''exe'', ''cwd''])]])]) (\<lambda>cfg.
       path_eq (cf_rules_path cfg) ''/var/lib/filewall/rules.toml'' \<and>
       wc_learn_object (cf_watch cfg ! 0) = KindFile \<and> wc_learn_match (cf_watch cfg ! 0) = [] \<and>
       wc_learn_object (cf_watch cfg ! 1) = KindTree \<and>
       list_ex (\<lambda>m. m = ''cwd'') (wc_learn_match (cf_watch cfg ! 1)))"

text \<open>The host of the symlink test: below \<open>base\<close> the directory \<open>real\<close> and a link to it.\<close>

definition symlink_host :: "path \<Rightarrow> host" where
  "symlink_host base =
     \<lparr>ho_home = None,
      ho_canonicalize = (\<lambda>p. if path_eq p (path_join base ''link'') \<or> path_eq p (path_join base ''real'')
                             then Inr (path_join base ''real'') else Inl NotFound)\<rparr>"

definition test_watch_on_symlinked_dir_still_covers_canonical_access :: "('g, 's) glob_api \<Rightarrow> path \<Rightarrow> bool" where
  "test_watch_on_symlinked_dir_still_covers_canonical_access api base \<longleftrightarrow>
     (let real = path_join base ''real''; link = path_join base ''link''; h = symlink_host base in
      unwrapped (config_of_table [(''watch'', JArr [JObj [(''path'', JStr (display link)),
                                                     (''allow'', texts [''/usr/bin/ssh''])]])]) (\<lambda>cfg.
      unwrapped (build_policy api h cfg) (\<lambda>policy.
      unwrapped (ho_canonicalize h real) (\<lambda>canonical.
        let canonical_file = path_join canonical ''secret''
        in policy_evaluate api policy canonical_file ''/usr/bin/node'' = OutPrompt \<and>
           policy_evaluate api policy canonical_file ''/usr/bin/ssh'' = OutAllow))))"

text \<open>An invalid pattern in a configuration that is otherwise fine.\<close>

definition glob_refused :: "('g, 's) glob_api \<Rightarrow> host \<Rightarrow> (string \<times> json) list \<Rightarrow> bool" where
  "glob_refused api h kvs \<longleftrightarrow>
     unwrapped (config_of_table kvs) (\<lambda>bad. case build_policy api h bad of Inl (CfgGlob _ _) \<Rightarrow> True | _ \<Rightarrow> False)"

definition test_exclude_defaults_and_parses :: "('g, 's) glob_api \<Rightarrow> host \<Rightarrow> bool" where
  "test_exclude_defaults_and_parses api h \<longleftrightarrow>
     unwrapped (config_of_table
         [(''watch'', JArr [JObj [(''path'', JStr ''/a'')],
                          JObj [(''path'', JStr ''/b''), (''exclude'', texts [''**/Cache'', ''**/Cache_Data''])]])]) (\<lambda>cfg.
       wc_exclude (cf_watch cfg ! 0) = [] \<and> wc_exclude (cf_watch cfg ! 1) = [''**/Cache'', ''**/Cache_Data'']) \<and>
     glob_refused api h [(''watch'', JArr [JObj [(''path'', JStr ''/x''), (''exclude'', texts [''[invalid''])]])]"

definition test_patterns_default_parse_and_build :: "('g, 's) glob_api \<Rightarrow> host \<Rightarrow> bool" where
  "test_patterns_default_parse_and_build api h \<longleftrightarrow>
     unwrapped (config_of_table
         [(''watch'', JArr [JObj [(''path'', JStr ''/home/u'')],
                          JObj [(''path'', JStr ''/home/u2''), (''patterns'', texts [''*_history'', ''**/*_history''])]])])
       (\<lambda>cfg. wc_patterns (cf_watch cfg ! 0) = [] \<and>
          wc_patterns (cf_watch cfg ! 1) = [''*_history'', ''**/*_history''] \<and>
          unwrapped (build_policy api h cfg) (\<lambda>policy.
            let w = po_watches policy ! 1
            in wp_recursive w \<and> is_included api w ''/home/u2/.zsh_history'' \<and>
               is_included api w ''/home/u2/sub/foo_history'' \<and> \<not> is_included api w ''/home/u2/sub/notes.txt'')) \<and>
     unwrapped (config_of_table
         [(''watch'', JArr [JObj [(''path'', JStr ''/home/u''), (''patterns'', texts [''*_history''])]])]) (\<lambda>cfg.
       unwrapped (build_policy api h cfg) (\<lambda>shallow. \<not> wp_recursive (po_watches shallow ! 0))) \<and>
     glob_refused api h [(''watch'', JArr [JObj [(''path'', JStr ''/x''), (''patterns'', texts [''[invalid''])]])]"

definition test_expands_home_tilde :: bool where
  "test_expands_home_tilde \<longleftrightarrow>
     (let h = bare_host\<lparr>ho_home := Some ''/home/tester''\<rparr>
      in path_eq (expand_home h ''~/.ssh'') ''/home/tester/.ssh'' \<and> path_eq (expand_home h ''~'') ''/home/tester'' \<and>
         path_eq (expand_home h ''/abs/path'') ''/abs/path'')"

definition test_invalid_glob_is_reported :: "('g, 's) glob_api \<Rightarrow> host \<Rightarrow> bool" where
  "test_invalid_glob_is_reported api h \<longleftrightarrow>
     glob_refused api h [(''watch'', JArr [JObj [(''path'', JStr ''/x''), (''allow'', texts [''/usr/bin/[invalid''])]])]"

section \<open>They pass\<close>

lemma config_key_tests_pass:
  "test_parses_full_config" "test_control_socket_path_defaults_when_absent"
  "test_control_socket_path_is_read_when_present" "test_applies_defaults_when_omitted"
  "test_learn_settings_default_and_parse" "test_expands_home_tilde"
  by code_simp+

lemma config_policy_tests_pass:
  "test_build_policy_evaluates star_globs bare_host" "test_exclude_defaults_and_parses star_globs bare_host"
  "test_patterns_default_parse_and_build star_globs bare_host"
  "test_invalid_glob_is_reported star_globs bare_host"
  by code_simp+

lemma symlink_test_passes:
  "test_watch_on_symlinked_dir_still_covers_canonical_access star_globs ''/tmp/filewall-symlink-4242-1700000000-5''"
  by code_simp

end
