(* ===== verification/FW_TestMarks.thy ===== *)
theory FW_TestMarks
  imports FW_Loop FW_Ctl FW_TestPolicy
begin

text \<open>
  The unit tests of the marks (the \<open>tests\<close> modules of filewalld/src/markset.rs, main.rs and
  treewatch.rs) run against the model. The directory a test makes under the temporary one is \<open>disk\<close>;
  its name, from the clock and the process id, is a parameter of the test.
\<close>

section \<open>A disk\<close>

text \<open>Given by its directories, each with the names in it, and its regular files.\<close>

definition disk :: "(path \<times> string list) list \<Rightarrow> path list \<Rightarrow> fs_view" where
  "disk dirs files =
     \<lparr>fv_kind = (\<lambda>p. if list_ex (\<lambda>d. fst d = p) dirs then Some Directory
                   else if list_ex (\<lambda>f. f = p) files then Some RegularFile else None),
      fv_entries = map_of dirs\<rparr>"

text \<open>\<open>contains\<close> of a vector of paths.\<close>

definition has_path :: "path list \<Rightarrow> path \<Rightarrow> bool" where
  "has_path ps p \<longleftrightarrow> list_ex (path_eq p) ps"

section \<open>The tests of the mark record\<close>

definition dir_entry :: "bool \<Rightarrow> mark_entry" where
  "dir_entry ok = \<lparr>me_kind = ObjDir, me_recursive = True, me_watch_root = ''/w'', me_ok = ok\<rparr>"

definition test_file_entry_reports_live_marked_none :: bool where
  "test_file_entry_reports_live_marked_none \<longleftrightarrow>
     (let ms = mark_set_record ''/w/token''
                 \<lparr>me_kind = ObjFile, me_recursive = False, me_watch_root = ''/w'', me_ok = True\<rparr> mark_set_new;
          objs = build_dump ms (\<lambda>_. True)
      in length objs = 1 \<and> wo_kind (objs ! 0) = ObjFile \<and> wo_live_marked (objs ! 0) = None \<and>
         wo_fanotify (objs ! 0))"

definition test_healthy_dir_is_live_marked_true :: bool where
  "test_healthy_dir_is_live_marked_true \<longleftrightarrow>
     (let objs = build_dump (mark_set_record ''/w/sub'' (dir_entry True) mark_set_new) (\<lambda>_. True)
      in wo_live_marked (objs ! 0) = Some True)"

definition test_dir_without_inotify_watch_is_live_marked_false :: bool where
  "test_dir_without_inotify_watch_is_live_marked_false \<longleftrightarrow>
     (let objs = build_dump (mark_set_record ''/w/sub'' (dir_entry True) mark_set_new) (\<lambda>_. False)
      in wo_live_marked (objs ! 0) = Some False \<and> wo_fanotify (objs ! 0))"

definition test_failed_mark_reports_fanotify_false :: bool where
  "test_failed_mark_reports_fanotify_false \<longleftrightarrow>
     (let objs = build_dump (mark_set_record ''/w/sub'' (dir_entry False) mark_set_new) (\<lambda>_. True)
      in \<not> wo_fanotify (objs ! 0))"

definition test_output_is_sorted_by_path :: bool where
  "test_output_is_sorted_by_path \<longleftrightarrow>
     (let ms = mark_set_record ''/w/a'' (dir_entry True) (mark_set_record ''/w/b'' (dir_entry True) mark_set_new);
          objs = build_dump ms (\<lambda>_. True)
      in wo_path (objs ! 0) = ''/w/a'' \<and> wo_path (objs ! 1) = ''/w/b'')"

section \<open>The tests of the walk and the pid file\<close>

definition watch_for :: "('g, 's) glob_api \<Rightarrow> path \<Rightarrow> string list \<Rightarrow> string + 's watch_policy" where
  "watch_for api root exclude = watch_policy_new api root [] ActPrompt KindFile False exclude []"

definition watch_with_patterns :: "('g, 's) glob_api \<Rightarrow> path \<Rightarrow> string list \<Rightarrow> string + 's watch_policy" where
  "watch_with_patterns api root pats = watch_policy_new api root [] ActPrompt KindFile False [] pats"

definition test_scan_watch_classifies_file_dir_and_missing :: "('g, 's) glob_api \<Rightarrow> path \<Rightarrow> bool" where
  "test_scan_watch_classifies_file_dir_and_missing api base \<longleftrightarrow>
     (let missing = path_join base ''nope''; file = path_join base ''token'';
          dir = path_join base ''tree''; cache = path_join dir ''Cache''; sub = path_join dir ''sub'';
          a = path_join dir ''a.txt''; junk = path_join dir ''Cache/junk''; empty = path_join base ''empty'';
          fs1 = disk [(base, [])] []; fs2 = disk [(base, [''token''])] [file];
          fs3 = disk [(base, [''token'', ''tree'']), (dir, [''Cache'', ''sub'', ''a.txt'']), (cache, [''junk'']), (sub, [])]
                  [file, a, junk];
          fs4 = disk [(base, [''token'', ''tree'', ''empty'']), (dir, [''Cache'', ''sub'', ''a.txt'']), (cache, [''junk'']),
                      (sub, []), (empty, [])] [file, a, junk]
      in unwrapped (watch_for api missing []) (\<lambda>w. scan_watch fs1 api w = Some ScanUnresolved) \<and>
         unwrapped (watch_for api file []) (\<lambda>w.
           case scan_watch fs2 api w of Some (ScanFile p) \<Rightarrow> path_eq p file | _ \<Rightarrow> False) \<and>
         unwrapped (watch_for api dir [''**/Cache'']) (\<lambda>w.
           case scan_watch fs3 api w of
             Some (ScanDir dirs) \<Rightarrow> has_path dirs dir \<and> has_path dirs sub \<and>
               \<not> list_ex (\<lambda>d. starts_with d cache) dirs \<and> \<not> has_path dirs a
           | _ \<Rightarrow> False) \<and>
         unwrapped (watch_for api empty []) (\<lambda>w.
           case scan_watch fs4 api w of Some (ScanDir d) \<Rightarrow> list_all2 path_eq d [empty] | _ \<Rightarrow> False))"

definition test_scan_watch_shallow_patterns_marks_only_root_deep_walks ::
    "('g, 's) glob_api \<Rightarrow> path \<Rightarrow> bool" where
  "test_scan_watch_shallow_patterns_marks_only_root_deep_walks api base \<longleftrightarrow>
     (let fs = disk [(base, [''sub'', ''.zsh_history'']), (path_join base ''sub'', [''deep'']), (path_join base ''sub/deep'', [])]
                 [path_join base ''.zsh_history'']
      in unwrapped (watch_with_patterns api base [''*_history'']) (\<lambda>w.
           case scan_watch fs api w of Some (ScanDir dirs) \<Rightarrow> list_all2 path_eq dirs [base] | _ \<Rightarrow> False) \<and>
         unwrapped (watch_with_patterns api base [''**/*_history'']) (\<lambda>w.
           case scan_watch fs api w of
             Some (ScanDir dirs) \<Rightarrow> has_path dirs base \<and> has_path dirs (path_join base ''sub'') \<and>
               has_path dirs (path_join base ''sub/deep'')
           | _ \<Rightarrow> False))"

definition test_walk_dirs_returns_root_and_subdirs_pruning_excluded :: "path \<Rightarrow> bool" where
  "test_walk_dirs_returns_root_and_subdirs_pruning_excluded root \<longleftrightarrow>
     (let fs = disk [(root, [''Cache'', ''sub'', ''keep.txt'']), (path_join root ''Cache'', [''junk'']),
                  (path_join root ''sub'', [''deep'', ''keep2.txt'']), (path_join root ''sub/deep'', [])]
                 [path_join root ''keep.txt'', path_join root ''Cache/junk'', path_join root ''sub/keep2.txt'']
      in case walk_dirs fs root (\<lambda>p. suffix ''/Cache'' (display p)) of
           None \<Rightarrow> False
         | Some names \<Rightarrow>
             has_path names root \<and> has_path names (path_join root ''sub'') \<and>
             has_path names (path_join root ''sub/deep'') \<and> \<not> has_path names (path_join root ''Cache'') \<and>
             \<not> has_path names (path_join root ''keep.txt'') \<and> \<not> has_path names (path_join root ''sub/keep2.txt''))"

definition test_pidfile_write_has_trailing_newline :: "io_kind option \<Rightarrow> write_outcome \<Rightarrow> path \<Rightarrow> file_map \<Rightarrow> bool" where
  "test_pidfile_write_has_trailing_newline mkdir w path fm \<longleftrightarrow>
     (let (result, states) = write_pidfile mkdir w path 4242 fm
      in is_ok result \<and>
         unwrapped (read_to_string (after_save (result, states) fm) path) (\<lambda>written.
           written = ''4242'' @ newline \<and> parse_signed 32 (trim written) = Some 4242))"

section \<open>The tests of live marking\<close>

definition test_is_watching_false_for_unknown_and_when_inert :: bool where
  "test_is_watching_false_for_unknown_and_when_inert \<longleftrightarrow>
     \<not> is_watching \<lparr>tw_inotify = False, tw_wd_map = []\<rparr> ''/anything''"

definition test_dirs_to_mark_recurses_into_populated_subtree :: "path \<Rightarrow> bool" where
  "test_dirs_to_mark_recurses_into_populated_subtree root \<longleftrightarrow>
     (let fs = disk [(root, [''a'']), (path_join root ''a'', [''b'', ''file.txt'']), (path_join root ''a/b'', [])]
                 [path_join root ''a/file.txt'']
      in case dirs_to_mark fs root (\<lambda>_. False) of
           None \<Rightarrow> False
         | Some dirs \<Rightarrow> has_path dirs root \<and> has_path dirs (path_join root ''a'') \<and>
             has_path dirs (path_join root ''a/b'') \<and> \<not> has_path dirs (path_join root ''a/file.txt''))"

definition test_dirs_to_mark_honors_excludes :: "path \<Rightarrow> bool" where
  "test_dirs_to_mark_honors_excludes root \<longleftrightarrow>
     (let fs = disk [(root, [''keep'', ''Cache'']), (path_join root ''keep'', []), (path_join root ''Cache'', [''inner'']),
                  (path_join root ''Cache/inner'', [])] []
      in case dirs_to_mark fs root (\<lambda>p. suffix ''/Cache'' (display p)) of
           None \<Rightarrow> False
         | Some dirs \<Rightarrow> has_path dirs root \<and> has_path dirs (path_join root ''keep'') \<and>
             \<not> has_path dirs (path_join root ''Cache'') \<and> \<not> has_path dirs (path_join root ''Cache/inner''))"

definition test_dirs_to_mark_empty_when_new_dir_itself_excluded :: "path \<Rightarrow> bool" where
  "test_dirs_to_mark_empty_when_new_dir_itself_excluded root \<longleftrightarrow>
     (let fs = disk [(root, [''child'']), (path_join root ''child'', [])] []
      in dirs_to_mark fs root (\<lambda>_. True) = Some [])"

section \<open>They pass\<close>

declare walk_loop.simps [code]

lemma mark_set_tests_pass:
  "test_file_entry_reports_live_marked_none" "test_healthy_dir_is_live_marked_true"
  "test_dir_without_inotify_watch_is_live_marked_false" "test_failed_mark_reports_fanotify_false"
  "test_output_is_sorted_by_path"
  by code_simp+

lemma scan_kinds_test_passes: "test_scan_watch_classifies_file_dir_and_missing star_globs ''/t''"
  by code_simp

lemma scan_depth_test_passes: "test_scan_watch_shallow_patterns_marks_only_root_deep_walks star_globs ''/t''"
  by code_simp

lemma walk_test_passes: "test_walk_dirs_returns_root_and_subdirs_pruning_excluded ''/t''"
  by code_simp

lemma moved_in_test_passes: "test_dirs_to_mark_recurses_into_populated_subtree ''/t''"
  by code_simp

lemma moved_in_excludes_test_passes: "test_dirs_to_mark_honors_excludes ''/t''"
  by code_simp

lemma live_marking_tests_pass:
  "test_is_watching_false_for_unknown_and_when_inert"
  "test_dirs_to_mark_empty_when_new_dir_itself_excluded root"
  by (simp_all add: test_is_watching_false_for_unknown_and_when_inert_def is_watching_def
      test_dirs_to_mark_empty_when_new_dir_itself_excluded_def dirs_to_mark_def)

lemma pidfile_test_passes:
  "test_pidfile_write_has_trailing_newline None WriteOk path fm"
proof -
  have "char_of (50::nat) = CHR ''2''" "char_of (52::nat) = CHR ''4''" by code_simp+
  then have "show_nat 4242 = ''4242''"
    by (simp add: show_nat.simps [of 4242] show_nat.simps [of 424] show_nat.simps [of 42] show_nat.simps [of 4]
        digit_char_def)
  then have digits: "show_nat 4242 = ''4242''" "parse_signed 32 (trim (''4242'' @ newline)) = Some 4242"
    using parse_pidfile_written [of 4242] by (simp_all add: parse_pidfile_def)
  have utf8: "valid_utf8 (''4242'' @ newline)" by code_simp
  have "after_save (write_pidfile None WriteOk path 4242 fm) fm = put_file path (''4242'' @ newline) fm"
    by (simp add: write_pidfile_def fs_write_def after_save_def write_states_def digits)
  then show ?thesis
    by (simp add: test_pidfile_write_has_trailing_newline_def write_pidfile_def fs_write_def digits(1)
        digits(2) [simplified] utf8 [simplified]
        read_to_string_def put_file_def is_ok_def)
qed

end
