(* ===== verification/FW_TestServer.thy ===== *)
theory FW_TestServer
  imports FW_Schema FW_Watcher FW_Policy
begin

text \<open>
  The unit tests of the daemon's ends of its connections (the \<open>tests\<close> modules of server.rs, fanotify.rs
  and watcher.rs in filewalld/src) run against the model. The client a test starts is the socket that
  \<open>accept\<close> returns, with what the client writes as what arrives; the retries of the test only wait for
  it to be there. A test that prompts is run for any JSON text form that obeys the law.
\<close>

section \<open>The tests of the prompt server\<close>

definition server_sample_req :: prompt_request where
  "server_sample_req =
     \<lparr>pr_pid = 4321, pr_exe = ''/usr/bin/node'', pr_cmdline = ''node evil.js'',
      pr_cwd = ''/home/user/projects/foo'', pr_path = ''/home/user/.ssh/id_ed25519'',
      pr_always_object = ''/home/user/.ssh'', pr_always_tree = True, pr_always_cwd_pinned = False,
      pr_ui_timeout_ms = 25000\<rparr>"

definition fresh_bind :: bind_env where
  "fresh_bind = \<lparr>be_mkdir = None, be_remove = Some NotFound, be_bind = None, be_chmod = None\<rparr>"

definition client_connects :: "ui_link \<Rightarrow> ui_server \<Rightarrow> ui_server" where
  "client_connects c srv = srv\<lparr>us_backlog := us_backlog srv @ [Inr c]\<rparr>"

text \<open>A client that answers, one that is silent, one that is gone: its writes may still be taken.\<close>

definition answering :: "json_text \<Rightarrow> decision \<Rightarrow> ui_link" where
  "answering jt d =
     \<lparr>sk_in = [Data (frame (js_print jt (enc_prompt_response \<lparr>pp_decision = d\<rparr>)))], sk_out = [], sk_room = None\<rparr>"

definition silent :: ui_link where
  "silent = \<lparr>sk_in = [Fail WouldBlock], sk_out = [], sk_room = None\<rparr>"

definition gone :: "(nat \<times> io_kind) option \<Rightarrow> ui_link" where
  "gone room = \<lparr>sk_in = [], sk_out = [], sk_room = room\<rparr>"

definition with_accepted :: "ui_server \<Rightarrow> (ui_link \<Rightarrow> ui_server \<Rightarrow> bool) \<Rightarrow> bool" where
  "with_accepted srv test =
     (case try_accept srv of (Inr (Some link), srv') \<Rightarrow> test link srv' | _ \<Rightarrow> False)"

text \<open>What the client reads of what the daemon sent.\<close>

definition client_reads :: "json_text \<Rightarrow> ui_link \<Rightarrow> prompt_request io_result" where
  "client_reads jt link =
     fst (read_msg sock_read (receive_as jt dec_prompt_request)
       \<lparr>sk_in = [Data (sk_out link)], sk_out = [], sk_room = None\<rparr>)"

definition test_prompt_roundtrip_returns_user_decision :: "json_text \<Rightarrow> path \<Rightarrow> bool" where
  "test_prompt_roundtrip_returns_user_decision jt sock \<longleftrightarrow>
     (case ui_bind fresh_bind sock 5 of Inl _ \<Rightarrow> False | Inr server \<Rightarrow>
        with_accepted (client_connects (answering jt AllowOnce) server) (\<lambda>link _.
          let (res, link) = link_prompt (ui_json jt) server_sample_req link
          in res = Inr AllowOnce \<and>
             (case client_reads jt link of Inl _ \<Rightarrow> False | Inr req \<Rightarrow> pr_exe req = ''/usr/bin/node'')))"

text \<open>The read timeout is 300 ms; the model counts it in seconds, and any that is not zero will do.\<close>

definition test_prompt_times_out_when_ui_silent :: "json_text \<Rightarrow> path \<Rightarrow> u64 \<Rightarrow> bool" where
  "test_prompt_times_out_when_ui_silent jt sock timeout \<longleftrightarrow>
     (case ui_bind fresh_bind sock timeout of Inl _ \<Rightarrow> False | Inr server \<Rightarrow>
        with_accepted (client_connects silent server) (\<lambda>link _.
          \<not> is_ok (fst (link_prompt (ui_json jt) server_sample_req link))))"

definition test_prompt_errors_when_ui_disconnects :: "json_text \<Rightarrow> path \<Rightarrow> (nat \<times> io_kind) option \<Rightarrow> bool" where
  "test_prompt_errors_when_ui_disconnects jt sock room \<longleftrightarrow>
     (case ui_bind fresh_bind sock 5 of Inl _ \<Rightarrow> False | Inr server \<Rightarrow>
        with_accepted (client_connects (gone room) server) (\<lambda>link _.
          \<not> is_ok (fst (link_prompt (ui_json jt) server_sample_req link))))"

definition test_is_disconnect_classifies_kinds :: bool where
  "test_is_disconnect_classifies_kinds \<longleftrightarrow>
     list_all is_disconnect [BrokenPipe, UnexpectedEof, ConnectionReset, ConnectionAborted, NotConnected] \<and>
     list_all (\<lambda>kind. \<not> is_disconnect kind) [WouldBlock, TimedOut]"

definition test_try_accept_none_when_no_client :: "path \<Rightarrow> bool" where
  "test_try_accept_none_when_no_client sock \<longleftrightarrow>
     (case ui_bind fresh_bind sock 5 of Inl _ \<Rightarrow> False | Inr server \<Rightarrow> fst (try_accept server) = Inr None)"

definition test_try_accept_picks_up_waiting_client :: "json_text \<Rightarrow> path \<Rightarrow> bool" where
  "test_try_accept_picks_up_waiting_client jt sock \<longleftrightarrow>
     (case ui_bind fresh_bind sock 5 of Inl _ \<Rightarrow> False | Inr server \<Rightarrow>
        with_accepted (client_connects (answering jt DenyOnce) server) (\<lambda>link _.
          fst (link_prompt (ui_json jt) server_sample_req link) = Inr DenyOnce))"

definition test_prompt_recovering_picks_up_new_ui_after_stale_link ::
    "json_text \<Rightarrow> path \<Rightarrow> (nat \<times> io_kind) option \<Rightarrow> bool" where
  "test_prompt_recovering_picks_up_new_ui_after_stale_link jt sock room \<longleftrightarrow>
     (case ui_bind fresh_bind sock 5 of Inl _ \<Rightarrow> False | Inr server \<Rightarrow>
        with_accepted (client_connects (gone room) server) (\<lambda>link server.
          let (res, ui, server) =
            prompt_recovering (ui_json jt) server_sample_req (Some link)
              (client_connects (answering jt AllowOnce) server)
          in res = Inr AllowOnce \<and> ui \<noteq> None))"

definition test_reconnect_after_disconnect :: "json_text \<Rightarrow> path \<Rightarrow> (nat \<times> io_kind) option \<Rightarrow> bool" where
  "test_reconnect_after_disconnect jt sock room \<longleftrightarrow>
     (case ui_bind fresh_bind sock 5 of Inl _ \<Rightarrow> False | Inr server \<Rightarrow>
        with_accepted (client_connects (gone room) server) (\<lambda>link1 server.
          (case fst (link_prompt (ui_json jt) server_sample_req link1) of
             Inl err \<Rightarrow> is_disconnect err | Inr _ \<Rightarrow> False) \<and>
          with_accepted (client_connects (answering jt AllowOnce) server) (\<lambda>link2 _.
            fst (link_prompt (ui_json jt) server_sample_req link2) = Inr AllowOnce)))"

section \<open>The tests of the process lookups\<close>

definition test_proc_cwd_resolves_own_process :: "proc_fs \<Rightarrow> u32 \<Rightarrow> path \<Rightarrow> bool" where
  "test_proc_cwd_resolves_own_process ps me current_dir \<longleftrightarrow> proc_cwd ps me = display current_dir"

definition test_proc_cwd_unknown_pid_is_placeholder :: "proc_fs \<Rightarrow> bool" where
  "test_proc_cwd_unknown_pid_is_placeholder ps \<longleftrightarrow> proc_cwd ps 0 = ''<unresolved>''"

section \<open>The tests of the file watcher\<close>

text \<open>Whether the watcher that is started on the two files raises \<open>RELOAD\<close> for the events.\<close>

definition reload_raised :: "inotify_kernel \<Rightarrow> path \<Rightarrow> inotify_event list \<Rightarrow> bool" where
  "reload_raised ik dir evs =
     (case watcher_start ik (path_join dir ''config.toml'') (path_join dir ''rules.toml'') of
        None \<Rightarrow> False
      | Some wa \<Rightarrow> watcher_loop wa [Inr evs] False)"

text \<open>The events of \<open>fs::write\<close> and of \<open>rename\<close> on a name in the watched directory.\<close>

definition file_written :: "string \<Rightarrow> inotify_event" where
  "file_written name = \<lparr>ie_wd = 1, ie_mask = in_close_write, ie_name = Some name\<rparr>"

definition file_moved_in :: "string \<Rightarrow> inotify_event" where
  "file_moved_in name = \<lparr>ie_wd = 1, ie_mask = in_moved_to, ie_name = Some name\<rparr>"

definition test_config_close_write_triggers_reload :: "inotify_kernel \<Rightarrow> path \<Rightarrow> bool" where
  "test_config_close_write_triggers_reload ik dir \<longleftrightarrow> reload_raised ik dir [file_written ''config.toml'']"

definition test_rules_moved_to_triggers_reload :: "inotify_kernel \<Rightarrow> path \<Rightarrow> bool" where
  "test_rules_moved_to_triggers_reload ik dir \<longleftrightarrow>
     reload_raised ik dir [file_written ''.rules.tmp'', file_moved_in ''rules.toml'']"

definition test_unrelated_file_does_not_trigger_reload :: "inotify_kernel \<Rightarrow> path \<Rightarrow> bool" where
  "test_unrelated_file_does_not_trigger_reload ik dir \<longleftrightarrow>
     \<not> reload_raised ik dir [file_written ''unrelated.txt'']"

definition test_shared_parent_both_files_trigger_reload :: "inotify_kernel \<Rightarrow> path \<Rightarrow> bool" where
  "test_shared_parent_both_files_trigger_reload ik dir \<longleftrightarrow>
     reload_raised ik dir [file_written ''config.toml''] \<and> reload_raised ik dir [file_written ''rules.toml'']"

section \<open>They pass\<close>

lemma accepted_client:
  "with_accepted (client_connects c \<lparr>us_backlog = [], us_nonblocking = None, us_timeout = t\<rparr>) f \<longleftrightarrow>
   t \<noteq> 0 \<and> f c \<lparr>us_backlog = [], us_nonblocking = None, us_timeout = t\<rparr>"
  by (simp add: with_accepted_def client_connects_def try_accept_def set_read_timeout_def)

lemma fresh_server:
  "ui_bind fresh_bind sock t = Inr \<lparr>us_backlog = [], us_nonblocking = None, us_timeout = t\<rparr>"
  by (simp add: ui_bind_def bind_socket_def fresh_bind_def)

lemma link_prompt_gone:
  assumes "uc_enc_request uc req = Inr out" and "length out \<le> unat max_msg_len"
    and "room \<in> {None, Some (0, BrokenPipe)}"
  shows "\<exists>e link'. link_prompt uc req (gone room) = (Inl e, link') \<and> is_disconnect e"
proof (cases room)
  case None
  have "write_msg sock_write sock_flush (uc_enc_request uc) req (gone None) =
      (Inr (), (gone None)\<lparr>sk_out := frame out\<rparr>)"
    using write_msg_fits [where enc = "uc_enc_request uc", OF assms(1,2), of "gone None"] by (simp add: gone_def)
  then show ?thesis
    by (simp add: None link_prompt_def read_msg_def read_msg_capped_def sock_read_def gone_def is_disconnect_def)
next
  case (Some r)
  have "unat max_msg_len < 2 ^ 32"
    by (rule order.strict_trans2 [OF unsigned_less]) simp
  then have "\<not> max_msg_len < (of_nat (length out) :: u32)" "length out < 2 ^ 32"
    using assms(2) by (simp_all add: word_less_nat_alt unat_of_len)
  then show ?thesis
    using assms(1,3) Some
    by (simp add: link_prompt_def write_msg_def write_msg_capped_def Let_def sock_write_def gone_def
        is_disconnect_def)
qed

lemma server_tests_pass:
  assumes "json_law jt"
    and "length (js_print jt (enc_prompt_request server_sample_req)) \<le> unat max_msg_len"
    and "\<And>d. length (js_print jt (enc_prompt_response \<lparr>pp_decision = d\<rparr>)) \<le> unat max_msg_len"
    and "room \<in> {None, Some (0, BrokenPipe)}" and "timeout \<noteq> 0"
  shows "test_prompt_roundtrip_returns_user_decision jt sock"
    "test_prompt_times_out_when_ui_silent jt sock timeout"
    "test_prompt_errors_when_ui_disconnects jt sock room"
    "test_try_accept_picks_up_waiting_client jt sock"
    "test_prompt_recovering_picks_up_new_ui_after_stale_link jt sock room"
    "test_reconnect_after_disconnect jt sock room"
proof -
  let ?out = "js_print jt (enc_prompt_request server_sample_req)"
  have utf8: "request_text_ok server_sample_req" by code_simp
  have enc: "uc_enc_request (ui_json jt) server_sample_req = Inr ?out"
    by (simp add: ui_json_def send_as_def)
  have "uc_dec_response (ui_json jt) (js_print jt (enc_prompt_response \<lparr>pp_decision = d\<rparr>)) = Some \<lparr>pp_decision = d\<rparr>" for d
    using responses.received [OF assms(1) TrueI] by (simp add: ui_json_def)
  then have ok: "\<exists>link'. link_prompt (ui_json jt) server_sample_req (answering jt d) = (Inr d, link')" for d
    using link_prompt_ok [OF enc assms(2), of "answering jt d"
        "js_print jt (enc_prompt_response \<lparr>pp_decision = d\<rparr>)" "[]" "\<lparr>pp_decision = d\<rparr>"] assms(3)
    by (auto simp: answering_def)
  obtain asked where asked: "link_prompt (ui_json jt) server_sample_req (answering jt AllowOnce) = (Inr AllowOnce, asked)"
    using ok by blast
  then have "sk_out asked = frame ?out"
    using link_prompt_answered [OF asked] enc by (auto simp: answered_by_def answering_def)
  moreover have "\<exists>r'. read_msg_capped sock_read (receive_as jt dec_prompt_request) max_msg_len
      \<lparr>sk_in = [Data (frame ?out)], sk_out = [], sk_room = None\<rparr> = (Inr server_sample_req, r') \<and>
      arriving (sk_in r') = []"
    by (rule receiving.read_msg_frame [where body = ?out])
      (simp_all add: assms(2) requests.received [OF assms(1) utf8])
  ultimately have "client_reads jt asked = Inr server_sample_req"
    by (auto simp: client_reads_def read_msg_def)
  then show "test_prompt_roundtrip_returns_user_decision jt sock"
    by (simp add: test_prompt_roundtrip_returns_user_decision_def fresh_server accepted_client asked)
      (simp add: server_sample_req_def)
  have "fst (link_prompt (ui_json jt) server_sample_req silent) = Inl WouldBlock"
    using link_prompt_timeout [OF enc assms(2), of silent "[]"] by (simp add: silent_def)
  then show "test_prompt_times_out_when_ui_silent jt sock timeout"
    using assms(5) by (simp add: test_prompt_times_out_when_ui_silent_def fresh_server accepted_client is_ok_def)
  obtain e dead where dead: "link_prompt (ui_json jt) server_sample_req (gone room) = (Inl e, dead)" "is_disconnect e"
    using link_prompt_gone [OF enc assms(2,4)] by blast
  then show "test_prompt_errors_when_ui_disconnects jt sock room"
    by (simp add: test_prompt_errors_when_ui_disconnects_def fresh_server accepted_client is_ok_def)
  show "test_try_accept_picks_up_waiting_client jt sock"
    using ok [of DenyOnce] by (auto simp: test_try_accept_picks_up_waiting_client_def fresh_server accepted_client)
  show "test_prompt_recovering_picks_up_new_ui_after_stale_link jt sock room"
    using prompt_recovering_stale [OF dead, of "client_connects (answering jt AllowOnce)
        \<lparr>us_backlog = [], us_nonblocking = None, us_timeout = 5\<rparr>" "answering jt AllowOnce" "[]" AllowOnce asked] asked
    by (simp add: test_prompt_recovering_picks_up_new_ui_after_stale_link_def fresh_server accepted_client)
      (simp add: client_connects_def)
  show "test_reconnect_after_disconnect jt sock room"
    by (simp add: test_reconnect_after_disconnect_def fresh_server accepted_client dead asked)
qed

lemma accept_tests_pass: "test_try_accept_none_when_no_client sock" "test_is_disconnect_classifies_kinds"
  by (simp_all add: test_try_accept_none_when_no_client_def fresh_server try_accept_def
      test_is_disconnect_classifies_kinds_def is_disconnect_def)

lemma proc_cwd_tests_pass:
  "ps_link ps (''/proc/'' @ show_nat (unat me) @ ''/cwd'') = Inr current_dir \<Longrightarrow>
   test_proc_cwd_resolves_own_process ps me current_dir"
  "ps_link ps (''/proc/'' @ show_nat 0 @ ''/cwd'') = Inl e \<Longrightarrow> test_proc_cwd_unknown_pid_is_placeholder ps"
  by (simp_all add: test_proc_cwd_resolves_own_process_def test_proc_cwd_unknown_pid_is_placeholder_def
      proc_cwd_def unresolved_def)

lemma watcher_tests_pass:
  assumes "ik = \<lparr>ik_init = None, ik_add = (\<lambda>ws p m. Inr 1)\<rparr>"
  shows "test_config_close_write_triggers_reload ik ''/t''" "test_rules_moved_to_triggers_reload ik ''/t''"
    "test_unrelated_file_does_not_trigger_reload ik ''/t''" "test_shared_parent_both_files_trigger_reload ik ''/t''"
  unfolding assms by code_simp+

end
