(* ===== verification/FW_TestCtl.thy ===== *)
theory FW_TestCtl
  imports FW_Report
begin

text \<open>
  The unit tests of \<open>filewallctl\<close> (the \<open>tests\<close> modules of filewallctl/src/main.rs, format.rs and
  render.rs) run against the model. A test that looks for \<open>"key":value\<close> in compact JSON looks for the
  member in the tree. The two tests of \<open>emit\<close> that call the encoders on a struct of their own say
  nothing about this program and are left out.
\<close>

section \<open>The tests of the commands\<close>

definition a_rule :: "string \<Rightarrow> learned_rule" where
  "a_rule exe =
     \<lparr>lr_id = 0, lr_created_unix = 0, lr_action = RuleAllow, lr_exe = exe, lr_object = ''/home/u/.ssh'',
      lr_object_kind = KindTree, lr_cwd = None\<rparr>"

definition test_parse_pidfile_trims_and_parses :: bool where
  "test_parse_pidfile_trims_and_parses \<longleftrightarrow>
     parse_pidfile (''4242'' @ newline) = Some 4242 \<and> parse_pidfile ''not-a-pid'' = None"

definition test_remove_ids_removes_matched_reports_missing :: bool where
  "test_remove_ids_removes_matched_reports_missing \<longleftrightarrow>
     (let rs = rules_push (a_rule ''/usr/bin/a'') rules_default;
          rs = rules_push (a_rule ''/usr/bin/b'') rs;
          rs = rules_push (a_rule ''/usr/bin/c'') rs;
          (rs, removed, missing) = remove_ids rs [1, 3, 99]
      in map lr_exe removed = [''/usr/bin/a'', ''/usr/bin/c''] \<and> missing = [99] \<and>
         length (rs_rules rs) = 1 \<and> lr_exe (rs_rules rs ! 0) = ''/usr/bin/b'')"

definition test_eperm_means_running_not_stale :: bool where
  "test_eperm_means_running_not_stale \<longleftrightarrow> classify_liveness (Some EPERM) = Running"

definition test_esrch_means_stale :: bool where
  "test_esrch_means_stale \<longleftrightarrow> classify_liveness (Some ESRCH) = Stale"

definition test_ok_means_running :: bool where
  "test_ok_means_running \<longleftrightarrow> classify_liveness None = Running"

definition test_other_errno_is_unknown :: bool where
  "test_other_errno_is_unknown \<longleftrightarrow> classify_liveness (Some EINVAL) = Unknown EINVAL"

definition has_member :: "json \<Rightarrow> string \<Rightarrow> json \<Rightarrow> bool" where
  "has_member v key x \<longleftrightarrow> (case v of JObj kvs \<Rightarrow> list_ex (\<lambda>kv. kv = (key, x)) kvs | _ \<Rightarrow> False)"

definition test_status_report_serializes :: bool where
  "test_status_report_serializes \<longleftrightarrow>
     (let json = enc_status_report \<lparr>sr_running = True, sr_pid = Some 42, sr_state = ''running''\<rparr>
      in has_member json ''running'' (JBool True) \<and> has_member json ''pid'' (JNum 42) \<and>
         has_member json ''state'' (JStr ''running''))"

definition test_ack_report_serializes :: bool where
  "test_ack_report_serializes \<longleftrightarrow>
     (let json = enc_ack \<lparr>ak_ok = True, ak_pid = Some 7, ak_detail = ''reloaded'', ak_removed = [], ak_missing = []\<rparr>
      in has_member json ''ok'' (JBool True) \<and> has_member json ''detail'' (JStr ''reloaded''))"

definition text_lines :: "string \<Rightarrow> string list" where
  "text_lines s = (let ws = split_on (CHR 0x0A) s in if last ws = [] then butlast ws else ws)"

definition test_list_table_renders_aligned_columns :: bool where
  "test_list_table_renders_aligned_columns \<longleftrightarrow>
     (let rs = rules_push (a_rule ''/usr/bin/ssh'') rules_default;
          out = list_table (rs_rules rs) ''/var/lib/filewall/rules.toml'';
          lines = text_lines out
      in prefix ''ID  ACTION'' (lines ! 0) \<and> str_contains ''OBJECT'' (lines ! 0) \<and>
         prefix ''1   allow'' (lines ! 1) \<and> str_contains ''/usr/bin/ssh'' (lines ! 1) \<and>
         str_contains ''/home/u/.ssh'' (lines ! 1) \<and> str_contains ''tree'' (lines ! 1) \<and>
         str_contains ''1 rule(s) (/var/lib/filewall/rules.toml)'' out)"

definition healthy_dump :: dump_response where
  "healthy_dump =
     \<lparr>dr_pid = 7, dr_generated_unix = 0,
      dr_objects =
        [\<lparr>wo_path = ''/home/u/.ssh'', wo_kind = ObjDir, wo_recursive = True, wo_watch = ''/home/u/.ssh'',
          wo_fanotify = True, wo_live_marked = Some True\<rparr>,
         \<lparr>wo_path = ''/home/u/.vault-token'', wo_kind = ObjFile, wo_recursive = False,
          wo_watch = ''/home/u/.vault-token'', wo_fanotify = True, wo_live_marked = None\<rparr>]\<rparr>"

definition test_dump_table_renders_objects_with_health :: bool where
  "test_dump_table_renders_objects_with_health \<longleftrightarrow>
     (let out = dump_table healthy_dump
      in str_contains ''PATH'' out \<and> str_contains ''/home/u/.ssh'' out \<and> str_contains ''dir'' out \<and>
         str_contains ''yes'' out \<and> str_contains ''-'' out)"

definition test_remove_ids_all_missing_removes_nothing :: bool where
  "test_remove_ids_all_missing_removes_nothing \<longleftrightarrow>
     (let (rs, removed, missing) = remove_ids (rules_push (a_rule ''/usr/bin/a'') rules_default) [7, 8]
      in removed = [] \<and> missing = [7, 8] \<and> length (rs_rules rs) = 1)"

section \<open>The tests of the formats and the tables\<close>

definition test_default_is_table :: bool where
  "test_default_is_table \<longleftrightarrow> parse_format [''dump''] = (FmtTable, [''dump''])"

definition test_json_flag_anywhere_is_extracted :: bool where
  "test_json_flag_anywhere_is_extracted \<longleftrightarrow>
     parse_format [''list'', ''--json'', ''/path''] = (FmtJson, [''list'', ''/path''])"

definition test_last_flag_wins :: bool where
  "test_last_flag_wins \<longleftrightarrow> fst (parse_format [''--json'', ''dump'', ''--yaml'']) = FmtYaml"

definition test_yaml_flag :: bool where
  "test_yaml_flag \<longleftrightarrow> parse_format [''status'', ''--yaml''] = (FmtYaml, [''status''])"

definition test_table_aligns_columns_and_has_header :: bool where
  "test_table_aligns_columns_and_has_header \<longleftrightarrow>
     (let out = render_table [''PATH'', ''KIND''] [[''/a'', ''dir''], [''/longer/path'', ''file'']];
          lines = text_lines out
      in lines ! 0 = ''PATH          KIND'' \<and> lines ! 1 = ''/a            dir'' \<and>
         lines ! 2 = ''/longer/path  file'')"

section \<open>They pass\<close>

lemma ctl_removal_tests_pass:
  "test_remove_ids_removes_matched_reports_missing" "test_remove_ids_all_missing_removes_nothing"
  by code_simp+

lemma ctl_liveness_tests_pass:
  "test_eperm_means_running_not_stale" "test_esrch_means_stale" "test_ok_means_running"
  "test_other_errno_is_unknown"
  by code_simp+

lemma ctl_report_tests_pass: "test_status_report_serializes" "test_ack_report_serializes"
  by code_simp+

lemma ctl_format_tests_pass:
  "test_default_is_table" "test_json_flag_anywhere_is_extracted" "test_last_flag_wins" "test_yaml_flag"
  by code_simp+

lemma ctl_aligned_test_passes: "test_table_aligns_columns_and_has_header"
  by code_simp

lemma ctl_list_test_passes: "test_list_table_renders_aligned_columns"
  by code_simp

text \<open>The first occurrence is enough.\<close>

lemma str_contains_first:
  "str_contains needle (c # s) = (if prefix needle (c # s) then True else str_contains needle s)"
  by simp

lemma healthy_rows:
  "map dump_row (dr_objects healthy_dump) =
     [[''/home/u/.ssh'', ''dir'', ''yes'', ''yes'', ''yes'', ''/home/u/.ssh''],
      [''/home/u/.vault-token'', ''file'', ''no'', ''yes'', ''-'', ''/home/u/.vault-token'']]"
  by (simp add: healthy_dump_def dump_row_def yes_no_def)

lemma healthy_widths:
  "column_widths [''PATH'', ''KIND'', ''RECURSIVE'', ''FANOTIFY'', ''LIVE'', ''WATCH'']
     (map dump_row (dr_objects healthy_dump)) = [20, 4, 9, 8, 4, 20]"
  by (simp add: column_widths_def healthy_rows)

text \<open>Blanks at the end go away; the letters the rows end with stay.\<close>

lemma trim_end_blank: "trim_end (s @ '' '') = trim_end s"
proof -
  define as where "as = take 5 spaces"
  define bs where "bs = drop 6 spaces"
  have sp: "spaces = as @ '' '' # bs"
    unfolding as_def bs_def by code_simp
  have "list_all (\<lambda>w. w \<noteq> [] \<and> last w \<noteq> CHR '' '') as"
    unfolding as_def by code_simp
  then have "List.find (\<lambda>w. suffix w (s @ '' '')) as = None"
    by (auto simp: find_None_iff list_all_iff suffix_def dest!: arg_cong [where f = last])
  then have "List.find (\<lambda>w. suffix w (s @ '' '')) spaces = Some '' ''"
    unfolding sp by (simp add: find_append suffix_def)
  then show ?thesis
    by (subst trim_end.simps) simp
qed

lemma trim_end_blanks: "trim_end (s @ replicate k (CHR '' '')) = trim_end s"
proof (induction k)
  case (Suc k)
  then show ?case
    using trim_end_blank [of "s @ replicate k (CHR '' '')"] by (simp add: replicate_append_same [symmetric])
qed simp

lemma trim_end_letter:
  assumes "c \<in> set ''Hhn''"
  shows "trim_end (s @ [c]) = s @ [c]"
proof -
  have "list_all (\<lambda>w. w \<noteq> [] \<and> last w \<notin> set ''Hhn'') spaces"
    by code_simp
  then have "List.find (\<lambda>w. suffix w (s @ [c])) spaces = None"
    using assms by (auto simp: find_None_iff list_all_iff suffix_def dest!: arg_cong [where f = last])
  then show ?thesis by (subst trim_end.simps) simp
qed

lemma healthy_header:
  "fmt_row [20, 4, 9, 8, 4, 20] [''PATH'', ''KIND'', ''RECURSIVE'', ''FANOTIFY'', ''LIVE'', ''WATCH''] =
     ''PATH                  KIND  RECURSIVE  FANOTIFY  LIVE  WATCH''"
  using trim_end_letter [of "CHR ''H''" "''PATH                  KIND  RECURSIVE  FANOTIFY  LIVE  WATC''"]
    trim_end_blanks [of "''PATH                  KIND  RECURSIVE  FANOTIFY  LIVE  WATCH''" 15]
  by (simp add: fmt_row_def pad_to_def char_count_ascii ascii_def numeral_eq_Suc)

lemma healthy_first_row:
  "fmt_row [20, 4, 9, 8, 4, 20] [''/home/u/.ssh'', ''dir'', ''yes'', ''yes'', ''yes'', ''/home/u/.ssh''] =
     ''/home/u/.ssh          dir   yes        yes       yes   /home/u/.ssh''"
  using trim_end_letter [of "CHR ''h''" "''/home/u/.ssh          dir   yes        yes       yes   /home/u/.ss''"]
    trim_end_blanks [of "''/home/u/.ssh          dir   yes        yes       yes   /home/u/.ssh''" 8]
  by (simp add: fmt_row_def pad_to_def char_count_ascii ascii_def numeral_eq_Suc)

lemma healthy_second_row:
  "fmt_row [20, 4, 9, 8, 4, 20] [''/home/u/.vault-token'', ''file'', ''no'', ''yes'', ''-'', ''/home/u/.vault-token''] =
     ''/home/u/.vault-token  file  no         yes       -     /home/u/.vault-token''"
  using trim_end_letter [of "CHR ''n''"
      "''/home/u/.vault-token  file  no         yes       -     /home/u/.vault-toke''"]
  by (simp add: fmt_row_def pad_to_def char_count_ascii ascii_def numeral_eq_Suc)

lemma healthy_dump_table:
  "dump_table healthy_dump =
     ''PATH                  KIND  RECURSIVE  FANOTIFY  LIVE  WATCH'' @ newline @
     ''/home/u/.ssh          dir   yes        yes       yes   /home/u/.ssh'' @ newline @
     ''/home/u/.vault-token  file  no         yes       -     /home/u/.vault-token'' @ newline @
     newline @ show_nat 2 @ '' object(s) (pid '' @ show_nat 7 @ '')'' @ newline"
proof -
  have "length (dr_objects healthy_dump) = 2" "unat (dr_pid healthy_dump) = 7"
    by (simp_all add: healthy_dump_def)
  then show ?thesis
    unfolding dump_table_def render_table_def Let_def healthy_widths healthy_header
    by (simp only: healthy_rows list.map concat.simps healthy_first_row healthy_second_row append_assoc append_Nil2)
qed

lemma ctl_dump_test_passes: "test_dump_table_renders_objects_with_health"
  unfolding test_dump_table_renders_objects_with_health_def healthy_dump_table Let_def newline_def
  by (simp add: str_contains_first del: str_contains.simps(2))

end
