(* ===== verification/FW_TestUi.thy ===== *)
theory FW_TestUi
  imports FW_Iced FW_Policy
begin

text \<open>
  The unit tests of the two helpers (the \<open>tests\<close> modules of filewall-ui/src/main.rs and of model.rs and
  theme.rs in filewall-ui-iced/src) run against the model.
\<close>

section \<open>The tests of the yad helper\<close>

definition test_pango_escape_handles_markup_metachars :: bool where
  "test_pango_escape_handles_markup_metachars \<longleftrightarrow>
     pango_escape ''a & b'' = ''a &amp; b'' \<and>
     pango_escape ''<b>x</b>'' = ''&lt;b&gt;x&lt;/b&gt;'' \<and>
     pango_escape (''evil & <span foreground='' @ quote_mark @ ''red'' @ quote_mark @ ''>'') =
       ''evil &amp; &lt;span foreground='' @ quote_mark @ ''red'' @ quote_mark @ ''&gt;'' \<and>
     pango_escape ''plain text'' = ''plain text''"

definition test_classify_maps_button_codes :: bool where
  "test_classify_maps_button_codes \<longleftrightarrow>
     classify (Some 10) = AllowOnce \<and> classify (Some 12) = AllowAlways \<and> classify (Some 13) = DenyAlways"

definition test_classify_fails_closed_on_everything_else :: bool where
  "test_classify_fails_closed_on_everything_else \<longleftrightarrow>
     classify (Some 11) = DenyOnce \<and> classify (Some 252) = DenyOnce \<and> classify None = DenyOnce \<and>
     classify (Some 1) = DenyOnce"

definition test_abbrev_replaces_home_prefix_only :: bool where
  "test_abbrev_replaces_home_prefix_only \<longleftrightarrow>
     abbrev ''/home/alice/.ssh/id'' ''/home/alice'' = ''~/.ssh/id'' \<and>
     abbrev ''/home/alice'' ''/home/alice'' = ''~'' \<and>
     abbrev ''/etc/hosts'' ''/home/alice'' = ''/etc/hosts'' \<and>
     abbrev ''/home/alice2/x'' ''/home/alice'' = ''/home/alice2/x'' \<and>
     abbrev ''/home/alice/.ssh'' '''' = ''/home/alice/.ssh''"

definition req_fixture :: prompt_request where
  "req_fixture =
     \<lparr>pr_pid = 7, pr_exe = ''/usr/bin/node'', pr_cmdline = ''node app.js'', pr_cwd = ''/home/u/work'',
      pr_path = ''/home/u/.ssh/id_ed25519'', pr_always_object = ''/home/u/.ssh'', pr_always_tree = True,
      pr_always_cwd_pinned = False, pr_ui_timeout_ms = 0\<rparr>"

definition test_dialog_text_tree_grant_shows_red_all_files_warning :: bool where
  "test_dialog_text_tree_grant_shows_red_all_files_warning \<longleftrightarrow>
     (let t = build_dialog_text req_fixture ''/home/u''
      in str_contains ''GRANTS ACCESS TO ALL FILES'' t \<and> str_contains ''#cc0000'' t \<and>
         str_contains ''~/.ssh'' t \<and> \<not> str_contains ''remembers only this one file'' t)"

definition test_dialog_text_file_grant_is_neutral_no_warning :: bool where
  "test_dialog_text_file_grant_is_neutral_no_warning \<longleftrightarrow>
     (let t = build_dialog_text (req_fixture\<lparr>pr_always_tree := False, pr_always_object := ''/home/u/.ssh/id_ed25519''\<rparr>)
                ''/home/u''
      in str_contains ''remembers only this one file'' t \<and> \<not> str_contains ''ALL FILES'' t \<and>
         \<not> str_contains ''#cc0000'' t)"

definition test_dialog_text_cwd_pin_line_present_only_when_pinned :: bool where
  "test_dialog_text_cwd_pin_line_present_only_when_pinned \<longleftrightarrow>
     (let t = build_dialog_text (req_fixture\<lparr>pr_always_cwd_pinned := True\<rparr>) ''/home/u'';
          t2 = build_dialog_text (req_fixture\<lparr>pr_always_cwd_pinned := False\<rparr>) ''/home/u''
      in str_contains ''and only while it runs from'' t \<and> str_contains ''~/work'' t \<and>
         \<not> str_contains ''and only while it runs from'' t2)"

definition test_dialog_text_escapes_malicious_cmdline :: bool where
  "test_dialog_text_escapes_malicious_cmdline \<longleftrightarrow>
     (let t = build_dialog_text (req_fixture\<lparr>pr_cmdline := ''node </span><b>SPOOF''\<rparr>) ''/home/u''
      in \<not> str_contains ''</span><b>SPOOF'' t \<and> str_contains ''&lt;/span&gt;&lt;b&gt;SPOOF'' t)"

section \<open>The tests of the native helper\<close>

definition test_iced_abbrev_replaces_home_prefix_only :: bool where
  "test_iced_abbrev_replaces_home_prefix_only \<longleftrightarrow>
     iced_abbrev ''/home/alice/.ssh/id'' ''/home/alice'' = ''~/.ssh/id'' \<and>
     iced_abbrev ''/home/alice'' ''/home/alice'' = ''~'' \<and>
     iced_abbrev ''/etc/hosts'' ''/home/alice'' = ''/etc/hosts'' \<and>
     iced_abbrev ''/home/alice2/x'' ''/home/alice'' = ''/home/alice2/x'' \<and>
     iced_abbrev ''/home/alice/.ssh'' '''' = ''/home/alice/.ssh''"

definition test_tree_scope_selects_all_labels_and_warning :: bool where
  "test_tree_scope_selects_all_labels_and_warning \<longleftrightarrow>
     (let v = view_build req_fixture ''/home/u''
      in pv_scope v = ScopeTree \<and> allow_always_label v = ''Always allow ALL'' \<and>
         deny_always_label v = ''Always deny ALL'' \<and> pv_object v = ''~/.ssh'' \<and> pv_proc_name v = ''node'')"

definition test_file_scope_selects_file_labels :: bool where
  "test_file_scope_selects_file_labels \<longleftrightarrow>
     (let req = req_fixture\<lparr>pr_always_tree := False, pr_always_object := ''/home/u/.ssh/id_ed25519''\<rparr>;
          v = view_build req ''/home/u''
      in pv_scope v = ScopeFile \<and> allow_always_label v = ''Always allow file'' \<and> pv_path v = ''~/.ssh/id_ed25519'')"

definition test_cwd_pin_flag_is_carried :: bool where
  "test_cwd_pin_flag_is_carried \<longleftrightarrow>
     (let v = view_build (req_fixture\<lparr>pr_always_cwd_pinned := True\<rparr>) ''/home/u''
      in pv_cwd_pinned v \<and> pv_cwd v = ''~/work'')"

definition test_markup_metachars_are_shown_verbatim_not_escaped :: bool where
  "test_markup_metachars_are_shown_verbatim_not_escaped \<longleftrightarrow>
     (let v = view_build (req_fixture\<lparr>pr_cmdline := ''node </span><b>SPOOF''\<rparr>) ''/home/u''
      in pv_cmdline v = ''node </span><b>SPOOF'')"

definition test_empty_cmdline_shows_placeholder :: bool where
  "test_empty_cmdline_shows_placeholder \<longleftrightarrow>
     pv_cmdline (view_build (req_fixture\<lparr>pr_cmdline := []\<rparr>) ''/home/u'') = ''<unavailable>''"

definition test_overlong_field_is_truncated :: bool where
  "test_overlong_field_is_truncated \<longleftrightarrow>
     (let v = view_build (req_fixture\<lparr>pr_cmdline := replicate (max_field + 50) (CHR ''a'')\<rparr>) ''/home/u''
      in char_count (pv_cmdline v) = max_field + 1 \<and> suffix ellipsis (pv_cmdline v))"

definition test_scheme_mapping :: bool where
  "test_scheme_mapping \<longleftrightarrow>
     theme_from_scheme 1 = CatppuccinMocha \<and> theme_from_scheme 2 = CatppuccinLatte \<and>
     theme_from_scheme 0 = fallback_theme \<and> theme_from_scheme 99 = fallback_theme"

text \<open>A boolean is one of the values that are neither a number nor a variant.\<close>

definition test_unwrap_handles_single_and_double_variant_wrap :: bool where
  "test_unwrap_handles_single_and_double_variant_wrap \<longleftrightarrow>
     unwrap_u32 (VU32 1) = Some 1 \<and> unwrap_u32 (VValue (VU32 2)) = Some 2 \<and> unwrap_u32 VOther = None"

section \<open>They pass\<close>

lemma yad_text_tests_pass:
  "test_pango_escape_handles_markup_metachars" "test_classify_maps_button_codes"
  "test_classify_fails_closed_on_everything_else"
  by code_simp+

lemma dialog_tree_test_passes: "test_dialog_text_tree_grant_shows_red_all_files_warning"
  by code_simp

lemma dialog_file_test_passes: "test_dialog_text_file_grant_is_neutral_no_warning"
  by code_simp

lemma dialog_pin_test_passes: "test_dialog_text_cwd_pin_line_present_only_when_pinned"
  by code_simp

lemma dialog_escape_test_passes: "test_dialog_text_escapes_malicious_cmdline"
  by code_simp

lemma abbrev_tests_pass: "test_abbrev_replaces_home_prefix_only" "test_iced_abbrev_replaces_home_prefix_only"
  by code_simp+

lemma iced_view_tests_pass:
  "test_tree_scope_selects_all_labels_and_warning" "test_file_scope_selects_file_labels"
  "test_cwd_pin_flag_is_carried" "test_markup_metachars_are_shown_verbatim_not_escaped"
  "test_empty_cmdline_shows_placeholder"
  by code_simp+

lemma theme_tests_pass: "test_scheme_mapping" "test_unwrap_handles_single_and_double_variant_wrap"
  by (simp_all add: test_scheme_mapping_def theme_from_scheme_def
      test_unwrap_handles_single_and_double_variant_wrap_def)

lemma iced_truncation_test_passes: "test_overlong_field_is_truncated"
proof -
  let ?c = "replicate (max_field + 50) (CHR ''a'')"
  have a: "char_count (replicate n (CHR ''a'')) = n" for n
    by (rule char_count_ascii [THEN trans]) (simp_all add: ascii_def list_all_iff)
  have e: "char_count ellipsis = 1"
    by code_simp
  have "pv_cmdline (view_build (req_fixture\<lparr>pr_cmdline := ?c\<rparr>) ''/home/u'') = take_chars max_field ?c @ ellipsis"
    unfolding view_build_def cap_def Let_def by (simp add: a)
  then show ?thesis
    unfolding test_overlong_field_is_truncated_def Let_def by (simp add: char_count_take_chars a e suffix_def)
qed

end
