(* ===== verification/Spec2Isabelle.thy ===== *)
theory Spec2Isabelle
  imports FW_Loop FW_Ctl FW_Prompting FW_Demo FW_Wire FW_Store FW_Report FW_Process FW_Shell
    FW_TestRules FW_TestProto FW_TestPolicy FW_TestConfig FW_TestMarks FW_TestServer FW_TestCtl FW_TestUi
begin

text \<open>
  filewall: file access mediated by fanotify.

  The program. The daemon \<open>filewalld\<close> marks the files and directories of its configuration, gets a
  permission event for each open of them, and answers allow or deny. What the configuration and the
  learned rules leave open it asks a helper in the user's session, over a Unix socket
  (\<open>filewall-ui\<close> shows yad dialogs, \<open>filewall-ui-iced\<close> a native window). "Always" answers become
  learned rules, which are saved to a file. The tool \<open>filewallctl\<close> lists, removes, reloads and
  dumps. Rules are in \<open>filewall-rules\<close>, the messages and their framing in \<open>filewall-proto\<close>.

  The theories, in the order of their imports, and what they model (all paths under src/):
    FW_Prelude: integer types, IO errors, sums, list lemmas, the locales of machines;
    FW_Path, FW_Text, FW_Files: the parts of the Rust standard library the program rests on
      (\<open>Path\<close> by components, lossy UTF-8, decimal numbers, \<open>trim\<close>, files with the states a write
      passes through);
    FW_Rules: filewall-rules/src/lib.rs (records \<open>learned_rule\<close>, \<open>rules\<close>; matching, evaluation, ids,
      load, atomic save);
    FW_Proto: filewall-proto/src/lib.rs (messages; \<open>write_msg_capped\<close>, \<open>read_msg_capped\<close>), over byte
      sinks and sources as locales, interpreted on a stream socket that delivers data in pieces,
      fails, times out and closes;
    FW_Policy: filewalld/src/policy.rs; FW_Config: filewalld/src/config.rs;
    FW_Walk, FW_Marks: \<open>walk_dirs\<close>, \<open>scan_watch\<close>, \<open>mark_all\<close> of filewalld/src/main.rs, and markset.rs;
    FW_Fanotify: filewalld/src/fanotify.rs (events parsed from bytes, answers, marks, /proc);
    FW_Server, FW_Control: filewalld/src/server.rs and control.rs;
    FW_TreeWatch, FW_Watcher: filewalld/src/treewatch.rs and watcher.rs;
    FW_Daemon: one access, as the body of the loop over events in \<open>event_loop\<close> (record \<open>daemon\<close>:
      policy, rules, marks, inotify set, UI link, listeners, disk, reload flag);
    FW_Loop: \<open>run\<close> (\<open>startup\<close>), the reload, one turn of \<open>event_loop\<close> (\<open>iteration\<close>), and the states the
      daemon reaches (\<open>daemon_reach\<close>);
    FW_Ctl: filewallctl/src (every command as a function from what it finds to what it prints, the
      files it leaves and the signals it sends);
    FW_Ui: what the two helpers share (\<open>serve\<close>, \<open>connect_forever\<close>, \<open>abbrev\<close>);
    FW_Yad: filewall-ui/src/main.rs; FW_Iced: filewall-ui-iced/src (model.rs, theme.rs, worker.rs, the
      \<open>App\<close> of main.rs); FW_Shell: its windows and the events that become messages; FW_Prompting: worker, application and their channels as a step relation;
      FW_Demo: its \<open>--demo\<close> mode;
    FW_Schema: the JSON trees of the messages (what \<open>derive(Serialize, Deserialize)\<close> makes of the
      structs of filewall-proto); FW_Wire: the prompt and its answer over JSON, daemon and helper at
      the two ends;
    FW_Store: the TOML tables of the rule file and of the configuration (filewall-rules/src/lib.rs,
      filewalld/src/config.rs); FW_Report: the trees of the reports of \<open>filewallctl\<close>;
    FW_Process: \<open>main\<close> of filewalld/src/main.rs, the loop until it fails, the socket files;
    FW_TestRules, FW_TestProto, FW_TestPolicy, FW_TestConfig, FW_TestMarks, FW_TestServer, FW_TestCtl,
      FW_TestUi: the unit tests of the repository, each as a statement over the model, and that it
      holds (all but two that only call the encoders): the model computes what the program is tested
      to compute;
    this theory: properties that span programs.

  How the code is rendered. A struct is a record, an enum a datatype, \<open>u32\<close> and \<open>u64\<close> are words, a
  \<open>Result\<close> is a sum with the error on the left, a \<open>String\<close> or path the list of its bytes. An operation
  on \<open>&mut self\<close> returns the changed record. What the world answers (system calls, clocks, other
  processes, peers) is an argument: a record of functions for what is fixed (\<open>services\<close>, \<open>fan_kernel\<close>,
  \<open>inotify_kernel\<close>, \<open>fs_view\<close>), one record per step for what differs from step to step (\<open>access_env\<close>,
  \<open>iter\<close>, \<open>gui_env\<close>). Sockets are scripts of what arrives, so that partial reads, read timeouts
  (\<open>WouldBlock\<close>) and hang-ups are values; a socket takes so many bytes more (\<open>sk_room\<close>) and then fails,
  or, when its peer has stopped reading and no write timeout is set, blocks the writer for ever
  (\<open>write_stalls\<close>). The marks of the fanotify group are those in place (\<open>fa_marks\<close>) and those the kernel
  has dropped because the object is gone (\<open>fa_dropped\<close>); between two turns the kernel drops what it
  likes (\<open>it_gone\<close>), and its answers may change (\<open>world\<close>). A save is the list of the disk states it passes through, so
  that a crash between two of them is covered.

  Libraries that are not under src/ are parameters: globset (\<open>glob_api\<close>), toml and serde_json, the
  kernel's fanotify and inotify, yad, iced, zbus. Of serde_json and toml only the text form of a tree
  is left open (\<open>json_text\<close>, \<open>toml_text\<close>), with the law that a tree whose tables have no key twice and which is nested no deeper than
  \<open>max_nesting\<close> is read back as it was printed (\<open>json_law\<close>, \<open>toml_law\<close>, \<open>pretty_law\<close>); which tree a value has, and which trees are refused, is
  defined field by field. Statements about one component take its codec as an argument.

  Loops. Recursion over data is structural; \<open>walk_loop\<close> is a partial function and is proved to return
  on every file system with paths of bounded length and directories of bounded width
  (\<open>fs_bounded\<close>, the kernel's limits); the parser's loops, the serving loops and \<open>trim\<close> are functions
  with termination proofs. No fuel is used. \<open>event_loop\<close> itself runs for ever: it is modelled by its
  turns, and the states by induction over them. A turn does not return (\<open>iteration\<close> is \<open>None\<close>) when a
  prompt of its batch blocks in a write (\<open>events_stall\<close>); it is proved to return when the UIs keep
  reading or fail with an error (\<open>uis_read\<close>, \<open>news_read\<close>).

  What is shown. Safety of decisions: an access is allowed for a reason only, a deny rule denies, no
  answer denies, the dialog decides what it was shown for, an "Always" answer settles the access and
  survives a restart (FW_Daemon, this theory). Invariants: in every reachable state of the daemon each
  mark on record is in place or was dropped by the kernel since, the inotify table is well-formed and the policy comes from a
  configuration (FW_Loop); ids of rules stay distinct (FW_Rules); each prompt gets one decision
  (FW_Prompting), and has a window as long as it is pending (FW_Shell). Functional and refinement results: the decision against a vote of rules and
  configuration, the walk against the reachable directories, the parser against the kernel's layout,
  messages over the wire, marking, live marking, the dump from the mark record to the terminal, the
  commands of filewallctl, the policy against the keys of the configuration. Errors: atomic save, all-or-nothing reload, prompts that are too long, rules that cannot be
  saved, a daemon that ends on an error removes its socket files unless their removal fails.
  Termination of an iteration. Bounds of the time given to a
  UI. Each property stands after a text block with its claim id; a witness applies it
  to a concrete case.

  The findings that the model exposed are stated as theorems too: a UI that never reads stops the
  daemon (\<open>silent_ui_stops_the_daemon\<close>), answers are not matched with
  requests (\<open>late_answer_settles_next_access\<close>, \<open>late_click_answers_next_prompt\<close>), a path that cannot
  be resolved is allowed (\<open>unresolvable_access_is_allowed\<close>), removing rules races with learning them
  (\<open>concurrent_removal_loses_a_rule\<close>), a long command line is denied without a prompt
  (\<open>long_command_line_is_never_shown\<close>), an object that is not UTF-8 stops every later save
  (\<open>unprintable_object_blocks_saving\<close>).

  Not modelled. Logging and the texts of log messages; fonts, colours and layout of the native helper;
  the connection to the session bus; the watches the kernel has in the inotify instance (\<open>wd_map\<close>, the
  daemon's own table, is modelled); real time beyond the timeouts that are values here; concurrency
  inside the daemon other than the reload flag, which the watcher thread and a signal raise between
  turns. The failing conversions that no reachable value meets (a length over 32 bits, an instant
  that overflows) are errors or unbounded numbers as noted where they occur.
\<close>

section \<open>The daemon and the command line tool\<close>

lemma pidfile_written:
  assumes "fst (write_pidfile mkdir w p pid fm) = Inr ()"
  shows "after_save (write_pidfile mkdir w p pid fm) fm (components p) = Some (show_nat (unat pid) @ newline)"
  using assms
  by (auto simp: write_pidfile_def fs_write_def after_save_def put_file_def
      split: option.split_asm if_split_asm write_outcome.split_asm)

lemma show_nat_newline_ascii: "ascii (show_nat n @ newline)"
  using show_nat_ascii [of n] by (simp add: ascii_def newline_def)

text \<open>
  C33: the pidfile the daemon writes at its start is what the command line tool reads to find it:
  \<open>reload\<close> signals exactly the daemon's pid and \<open>status\<close> reports it as running, whenever the kernel
  confirms the process.
\<close>

theorem pidfile_leads_to_the_daemon:
  assumes "fst (write_pidfile mkdir w p pid fm) = Inr ()" and "unat pid < 2 ^ 31"
    and "ce_hup ce (int (unat pid)) = None" and "ce_probe ce (int (unat pid)) \<in> {None, Some EPERM}"
  shows "ct_hups (cmd_reload ce (after_save (write_pidfile mkdir w p pid fm) fm) p fmt) = [int (unat pid)] \<and>
    status_report_of ce (after_save (write_pidfile mkdir w p pid fm) fm) p =
      \<lparr>sr_running = True, sr_pid = Some (int (unat pid)), sr_state = ''running''\<rparr>"
proof -
  let ?fm = "after_save (write_pidfile mkdir w p pid fm) fm"
  have content: "read_to_string ?fm p = Inr (show_nat (unat pid) @ newline)"
    using pidfile_written [OF assms(1)] ascii_valid_utf8 [OF show_nat_newline_ascii]
    by (simp add: read_to_string_def)
  note pid = parse_pidfile_written [OF assms(2)]
  have "classify_liveness (ce_probe ce (int (unat pid))) = Running"
    using assms(4) by (auto simp: classify_liveness_def)
  moreover have "send_sighup ce ?fm p = Inr (int (unat pid))"
    unfolding send_sighup_def content sum.case pid option.case assms(3) ..
  ultimately show ?thesis
    unfolding emit_other_files status_report_of_def content sum.case pid option.case
    by (simp add: hups_of_def)
qed

theorem pidfile_leads_to_the_daemon_witness:
  "ct_hups (cmd_reload demo_ctl (after_save (write_pidfile None WriteOk pidfile_path 4711 (\<lambda>_. None)) (\<lambda>_. None))
     pidfile_path FmtTable) = [4711]"
proof -
  have "fst (write_pidfile None WriteOk pidfile_path 4711 (\<lambda>_. None)) = Inr ()"
    by (simp add: write_pidfile_def fs_write_def)
  from pidfile_leads_to_the_daemon [OF this, of demo_ctl FmtTable] show ?thesis
    by (simp add: demo_ctl_def)
qed

section \<open>From an edited file to the policy in force\<close>

text \<open>
  C35: an edit of the configuration takes effect at the next check of the flag. When the watcher thread,
  set up at the start, has read a batch with an event named as the configuration or the rule file,
  and the configuration on disk loads and compiles, then every turn of the event loop that ends with
  a next state ends on the policy compiled from what is on disk then, with the flag down and with
  all the rules that are on disk, to which the accesses of the turn may only add; a turn whose poll
  times out does end, with exactly these rules. Only base names are compared, so a file of the same
  name in the other watched directory counts too; after a batch without such a name, a turn whose
  poll times out and for which the flag was not up changes nothing.
\<close>

theorem edited_configuration_takes_effect:
  assumes "watcher_start ik (su_config_path su) (su_rules_path su) = Some wa"
    and "it_raise it = watcher_loop wa [Inr evs] False" and "fs_bounded path_max width (it_fs_reload it)"
    and "config_load (sv_config_from_toml sv) (it_edit it (dm_files dm)) (su_config_path su) = Inr cfg"
    and "build_policy (sv_api sv) (sv_host sv) cfg = Inr p"
    and "rs = rules_load (sv_rules_from_toml sv) (it_edit it (dm_files dm)) (su_rules_path su)"
  shows "if \<exists>ev \<in> set evs. ie_name ev \<in> {file_name (su_config_path su), file_name (su_rules_path su)}
    then (\<forall>dm'. iteration sv su it dm = Some (Inr dm') \<longrightarrow>
        dm_policy dm' = p \<and> \<not> dm_reload dm' \<and> set (rs_rules rs) \<subseteq> set (rs_rules (dm_rules dm'))) \<and>
      (it_poll it = PollTimeout \<longrightarrow>
        (\<exists>dm'. iteration sv su it dm = Some (Inr dm') \<and> dm_policy dm' = p \<and> dm_rules dm' = rs))
    else it_poll it = PollTimeout \<and> \<not> dm_reload dm \<longrightarrow>
      iteration sv su it dm = Some (Inr ((meanwhile it dm)\<lparr>dm_reload := False\<rparr>))"
proof -
  have raised: "it_raise it \<longleftrightarrow>
      (\<exists>ev \<in> set evs. ie_name ev \<in> {file_name (su_config_path su), file_name (su_rules_path su)})"
    unfolding assms(2) watcher_start_names [OF assms(1)] by (simp add: watcher_events_iff)
  show ?thesis
  proof (cases "it_raise it")
    case False
    then show ?thesis
      unfolding raised [symmetric] by (auto simp: iteration_def gather_def Let_def)
  next
    case True
    have any: "dm_policy dm' = p \<and> \<not> dm_reload dm' \<and> set (rs_rules rs) \<subseteq> set (rs_rules (dm_rules dm'))"
      if "iteration sv su it dm = Some (Inr dm')" for dm'
      using raised_turn [OF that True assms(3)] assms(4-6) by simp
    obtain dm' where "reload sv su (it_fs_reload it) ((meanwhile it dm)\<lparr>dm_reload := False\<rparr>) = Some dm'"
      "dm_policy dm' = p" "dm_rules dm' = rs"
      using reload_success [OF assms(3), of sv "(meanwhile it dm)\<lparr>dm_reload := False\<rparr>" su cfg p] assms(4-6)
      by auto
    then have "\<exists>dm'. iteration sv su it dm = Some (Inr dm') \<and> dm_policy dm' = p \<and> dm_rules dm' = rs"
      if "it_poll it = PollTimeout"
      using that True by (simp add: iteration_def gather_def Let_def)
    with any show ?thesis
      unfolding raised [symmetric] using True by simp
  qed
qed

definition demo_watched :: params where
  "demo_watched = demo_params\<lparr>su_config_path := ''/etc/fw/c.toml'', su_rules_path := ''/etc/fw/r.toml''\<rparr>"

theorem edited_configuration_takes_effect_witness:
  "\<exists>wa dm'. watcher_start \<lparr>ik_init = None, ik_add = (\<lambda>ws p m. Inr 1)\<rparr> ''/etc/fw/c.toml'' ''/etc/fw/r.toml'' = Some wa \<and>
     iteration demo_services demo_watched
       ((demo_iter [] (watcher_loop wa [Inr [\<lparr>ie_wd = 1, ie_mask = in_moved_to, ie_name = Some ''c.toml''\<rparr>]] False))
          \<lparr>it_poll := PollTimeout, it_edit := (\<lambda>_ _. Some [])\<rparr>)
       (demo_daemon rules_default None) = Some (Inr dm') \<and> dm_rules dm' = rules_default"
proof -
  let ?ik = "\<lparr>ik_init = None, ik_add = (\<lambda>ws p m. Inr 1)\<rparr>" and ?dm = "demo_daemon rules_default None"
  let ?evs = "[\<lparr>ie_wd = 1, ie_mask = in_moved_to, ie_name = Some ''c.toml''\<rparr>]"
  have paths: "nonempty_parent ''/etc/fw/c.toml'' = Some ''/etc/fw''" "file_name ''/etc/fw/c.toml'' = Some ''c.toml''"
    "nonempty_parent ''/etc/fw/r.toml'' = Some ''/etc/fw''" "file_name ''/etc/fw/r.toml'' = Some ''r.toml''"
    by code_simp+
  then obtain wa where wa: "watcher_start ?ik ''/etc/fw/c.toml'' ''/etc/fw/r.toml'' = Some wa"
    by (simp add: watcher_start_def)
  let ?it = "(demo_iter [] (watcher_loop wa [Inr ?evs] False))\<lparr>it_poll := PollTimeout, it_edit := (\<lambda>_ _. Some [])\<rparr>"
  have su: "su_config_path demo_watched = ''/etc/fw/c.toml''" "su_rules_path demo_watched = ''/etc/fw/r.toml''"
    by (simp_all add: demo_watched_def)
  obtain cfg pol where
    cfg: "config_load (sv_config_from_toml demo_services) (\<lambda>_. Some []) ''/etc/fw/c.toml'' = Inr cfg"
    and pol: "build_policy (sv_api demo_services) (sv_host demo_services) cfg = Inr pol"
    using demo_config_loads [of "''/c.toml''"]
    by (auto simp: config_load_def read_to_string_def demo_files_def)
  have no_rules: "rules_load (sv_rules_from_toml demo_services) fm q = rules_default" for fm q
    by (simp add: rules_load_def demo_services_def split: sum.split)
  have facts: "it_raise ?it = watcher_loop wa [Inr ?evs] False" "fs_bounded 4 3 (it_fs_reload ?it)"
    using demo_fs_bounded by (simp_all add: demo_iter_def)
  have load: "config_load (sv_config_from_toml demo_services) (it_edit ?it (dm_files ?dm))
      (su_config_path demo_watched) = Inr cfg"
    using cfg by (simp add: su)
  have named: "\<exists>ev \<in> set ?evs. ie_name ev \<in> {file_name (su_config_path demo_watched), file_name (su_rules_path demo_watched)}"
    unfolding su by (simp add: paths)
  have "\<exists>dm'. iteration demo_services demo_watched ?it ?dm = Some (Inr dm') \<and> dm_policy dm' = pol \<and>
      dm_rules dm' = rules_default"
    using edited_configuration_takes_effect [OF wa [folded su] facts load pol refl] named
    by (simp add: no_rules del: watcher_loop.simps)
  then show ?thesis
    using wa by blast
qed

section \<open>From an access to the dialog and back\<close>

text \<open>
  C6: an access that needs the user is decided by the dialog that is shown for it. With the daemon
  and the yad helper at the two ends of a connection on which nothing else is on its way, the access
  is allowed exactly when yad, started with the dialog for this very program and path, ends with the
  code of one of the two allow buttons.
\<close>

theorem dialog_decides_the_access:
  assumes "\<not> passes_by sv su ae ev dm" and "outcome_of sv ae ev dm = OutPrompt"
    and "req = access_request su (covering_watch (dm_policy dm) (event_path (ae_proc ae) ev)) (ae_proc ae) ev
      (event_path (ae_proc ae) ev) (event_exe (ae_proc ae) ev) (event_cwd (ae_proc ae) ev)"
    and "dm_ui dm = Some link" "sk_room link = None"
    and "uc_enc_request (sv_codec sv) req = Inr out" "length out \<le> unat max_msg_len"
      "hc_dec_request hc out = Some req"
    and "\<And>resp. hc_enc_response hc resp = Inr (enc resp) \<and> length (enc resp) \<le> unat max_msg_len \<and>
      uc_dec_response (sv_codec sv) (enc resp) = Some resp"
    and "arriving (sk_in helper) = frame out" "sk_out helper = []" "sk_room helper = None"
    and "arriving (sk_in link) = sk_out (yad_serve hc (\<lambda>_. ye) helper)"
  shows "fst (decide_event sv su ae ev dm) \<longleftrightarrow>
    ye_run ye (yad_args req (build_dialog_text req (case ye_home ye of None \<Rightarrow> [] | Some h \<Rightarrow> h)))
      \<in> {Inr (Some 10), Inr (Some 12)}"
proof -
  have "sk_out (yad_serve hc (\<lambda>_. ye) helper) = sk_out helper @ replies enc (\<lambda>_. ask ye) 0 [req]"
    using assms(7-10,12) by (intro yad_serve_all [where bodies = "[out]"]) auto
  then have "arriving (sk_in link) = frame (enc \<lparr>pp_decision = ask ye req\<rparr>) @ []"
    using assms(11,13) by simp
  from link_prompt_ok [OF assms(6,7,5) this] obtain link' where
    "link_prompt (sv_codec sv) req link = (Inr (ask ye req), link')"
    using assms(9) by auto
  then have "prompt_recovering (sv_codec sv) req (dm_ui dm) (dm_server dm) =
      (Inr (ask ye req), Some link', dm_server dm)"
    using assms(4) by (simp add: prompt_recovering_def ensure_link_def)
  then have "fst (decide_event sv su ae ev dm) \<longleftrightarrow> decision_allows (ask ye req)"
    using assms(1,2) unfolding assms(3) by (simp add: decide_event_def ask_user_eq Let_def)
  then show ?thesis
    by (simp add: ask_allows_iff)
qed

definition demo_prompt :: prompt_request where
  "demo_prompt = access_request demo_params (Some (demo_watch ''/w'' KindFile True)) demo_proc demo_event
     ''/w/k'' ''/bin/cat'' ''/home''"

text \<open>A codec: one byte for each decision.\<close>

definition demo_enc :: "prompt_response \<Rightarrow> bytes" where
  "demo_enc r = (case pp_decision r of AllowOnce \<Rightarrow> [10] | DenyOnce \<Rightarrow> [11] | AllowAlways \<Rightarrow> [12] | DenyAlways \<Rightarrow> [13])"

definition demo_dec :: "bytes \<Rightarrow> prompt_response option" where
  "demo_dec bs =
     map_option (\<lambda>d. \<lparr>pp_decision = d\<rparr>)
       (if bs = [10] then Some AllowOnce else if bs = [11] then Some DenyOnce
        else if bs = [12] then Some AllowAlways else if bs = [13] then Some DenyAlways else None)"

definition demo_prompt_services :: "(string, unit) services" where
  "demo_prompt_services =
     demo_services\<lparr>sv_codec := \<lparr>uc_enc_request = (\<lambda>_. Inr [1]), uc_dec_response = demo_dec\<rparr>\<rparr>"

theorem dialog_decides_the_access_witness:
  "fst (decide_event demo_prompt_services demo_params demo_access demo_event
     (demo_daemon rules_default (Some (demo_link [Data [0, 0, 0, 1, 10]]))))"
proof -
  let ?dm = "demo_daemon rules_default (Some (demo_link [Data [0, 0, 0, 1, 10]]))"
  let ?hc = "\<lparr>hc_dec_request = (\<lambda>_. Some demo_prompt), hc_enc_response = (\<lambda>r. Inr (demo_enc r))\<rparr>"
  let ?ye = "\<lparr>ye_home = None, ye_run = (\<lambda>_. Inr (Some 10))\<rparr>"
  have p: "dm_policy ?dm = demo_policy" "dm_rules ?dm = rules_default"
    by (simp_all add: demo_daemon_def)
  have api: "sv_api demo_prompt_services = sv_api demo_services"
    by (simp add: demo_prompt_services_def)
  have same: "passes_by demo_prompt_services su ae ev dm = passes_by demo_services su ae ev dm"
    "access_outcome demo_prompt_services dm x y z = access_outcome demo_services dm x y z" for su ae ev dm x y z
    unfolding passes_by_def access_outcome_def api by (rule refl)+
  have out: "outcome_of demo_prompt_services demo_access demo_event ?dm = OutPrompt"
    using demo_prompts [OF p] by (simp add: same demo_access_def demo_names)
  have req: "demo_prompt = access_request demo_params (covering_watch (dm_policy ?dm)
      (event_path (ae_proc demo_access) demo_event)) (ae_proc demo_access) demo_event
      (event_path (ae_proc demo_access) demo_event) (event_exe (ae_proc demo_access) demo_event)
      (event_cwd (ae_proc demo_access) demo_event)"
    by (simp add: p(1) demo_prompt_def demo_access_def demo_names demo_cover)
  have dec: "uc_dec_response (sv_codec demo_prompt_services) (demo_enc r) = Some r" and len: "length (demo_enc r) = 1"
    for r :: prompt_response
    by (cases r; cases "pp_decision r"; simp add: demo_prompt_services_def demo_dec_def demo_enc_def)+
  have yad: "sk_out (yad_serve ?hc (\<lambda>_. ?ye) (demo_link [Data [0, 0, 0, 1, 1]])) = [0, 0, 0, 1, 10]"
    using yad_serve_all [of ?hc "[[1]]" "[demo_prompt]" "demo_link [Data [0, 0, 0, 1, 1]]" demo_enc "\<lambda>_. ?ye"]
    by (simp add: demo_link_def demo_frame max_msg_len_def ask_def classify_def Let_def len)
      (simp add: demo_enc_def demo_frame)
  have "\<not> passes_by demo_prompt_services demo_params demo_access demo_event ?dm"
    by (simp add: same demo_not_passed [OF p(1)])
  from dialog_decides_the_access [OF this out req, of "demo_link [Data [0, 0, 0, 1, 10]]" "[1]" ?hc demo_enc
      "demo_link [Data [0, 0, 0, 1, 1]]" ?ye]
  show ?thesis
    using dec yad len
    by (simp add: demo_daemon_def demo_link_def demo_frame max_msg_len_def)
      (simp add: demo_prompt_services_def)
qed

section \<open>Learned rules across restarts and across the two programs\<close>

text \<open>
  What an "Always" answer taught the daemon survives a restart: once the save has succeeded,
  loading the rule file gives back exactly the rules the daemon runs on, the new one included.
\<close>

theorem always_answer_survives_restart:
  assumes "always_action d = Some act" and "covering = Some watch"
    and "rules_inv (dm_rules dm)" and "id_room 1 (dm_rules dm)"
    and "file_name (su_rules_path su) \<noteq> Some (tmp_name (ae_save ae))"
    and "\<And>rs body. sv_rules_to_toml sv rs = Some body \<Longrightarrow>
           sv_rules_from_toml sv body = Some rs \<and> valid_utf8 body"
    and "sv_rules_to_toml sv (dm_rules (remember sv su ae d covering path exe cwd dm)) \<noteq> None"
    and "se_mkdir (ae_save ae) = None" "se_write (ae_save ae) = WriteOk" "se_rename (ae_save ae) = None"
  shows "rules_load (sv_rules_from_toml sv) (dm_files (remember sv su ae d covering path exe cwd dm))
       (su_rules_path su) = dm_rules (remember sv su ae d covering path exe cwd dm) \<and>
    (\<exists>r \<in> set (rs_rules (dm_rules (remember sv su ae d covering path exe cwd dm))).
       lr_action r = act \<and> lr_exe r = exe \<and> lr_object r = fst (always_target watch path))"
proof -
  let ?r = "watch_learned_rule (ae_clock ae) watch act exe path (Some cwd)"
  let ?rs = "rules_push ?r (dm_rules dm)"
  have rules: "dm_rules (remember sv su ae d covering path exe cwd dm) = ?rs"
    using assms(1,2) by (simp add: remember_def Let_def)
  then obtain body where body: "sv_rules_to_toml sv ?rs = Some body" "sv_rules_from_toml sv body = Some ?rs"
    "valid_utf8 body"
    using assms(6,7) by auto
  have inv: "rules_inv ?rs"
    by (rule rules_inv_push [OF assms(3,4)])
  have next0: "rs_next_id ?rs \<noteq> 0"
    using fresh_id_next [OF assms(4), of ?r] by (auto simp: word_less_nat_alt)
  have "fst (save_atomic (sv_rules_to_toml sv) (ae_save ae) ?rs (su_rules_path su) (dm_files dm)) = Inr ()"
    using body(1) assms(8-10) by (simp add: save_atomic_def fs_write_def Let_def)
  then have "rules_load (sv_rules_from_toml sv)
      (after_save (save_atomic (sv_rules_to_toml sv) (ae_save ae) ?rs (su_rules_path su) (dm_files dm)) (dm_files dm))
      (su_rules_path su) = ?rs"
    using load_after_save [where to_toml = "sv_rules_to_toml sv" and from_toml = "sv_rules_from_toml sv"]
      assms(5) body inv next0 by blast
  then show ?thesis
    using assms(1,2) by (simp add: remember_def Let_def rules_push_simps learned_rule_object)
qed

definition demo_learned :: rules where
  "demo_learned = rules_push (watch_learned_rule 0 (demo_watch ''/w'' KindFile True) RuleAllow ''/bin/cat''
     ''/w/k'' (Some ''/home'')) rules_default"

theorem always_answer_survives_restart_witness:
  "rules_load (\<lambda>_. Some demo_learned)
     (dm_files (remember (demo_services\<lparr>sv_rules_to_toml := (\<lambda>rs. if rs = demo_learned then Some ''x'' else None),
        sv_rules_from_toml := (\<lambda>_. Some demo_learned)\<rparr>) demo_params demo_access AllowAlways
        (Some (demo_watch ''/w'' KindFile True)) ''/w/k'' ''/bin/cat'' ''/home'' (demo_daemon rules_default None)))
     ''/r.toml'' = demo_learned"
proof -
  let ?sv = "demo_services\<lparr>sv_rules_to_toml := (\<lambda>rs. if rs = demo_learned then Some ''x'' else None),
        sv_rules_from_toml := (\<lambda>_. Some demo_learned)\<rparr>"
  let ?dm = "remember ?sv demo_params demo_access AllowAlways (Some (demo_watch ''/w'' KindFile True))
      ''/w/k'' ''/bin/cat'' ''/home'' (demo_daemon rules_default None)"
  have rules: "dm_rules ?dm = demo_learned"
    by (simp add: remember_def always_action_def demo_learned_def demo_daemon_def demo_access_def Let_def)
  have "file_name (su_rules_path demo_params) \<noteq> Some (tmp_name (ae_save demo_access))"
    by (simp add: tmp_name_def demo_params_def demo_access_def) code_simp
  then have "rules_load (sv_rules_from_toml ?sv) (dm_files ?dm) (su_rules_path demo_params) = dm_rules ?dm"
    by (rule always_answer_survives_restart [where act = RuleAllow, OF _ refl, THEN conjunct1, rotated 3])
      (simp_all only: rules, auto simp: always_action_def demo_daemon_def id_room_def rules_default_def rules_inv_def
         ascii_valid_utf8 ascii_def demo_access_def demo_save_env_def split: if_splits)
  then have "rules_load (sv_rules_from_toml ?sv) (dm_files ?dm) (su_rules_path demo_params) = demo_learned"
    unfolding rules .
  moreover have "su_rules_path demo_params = ''/r.toml''" "sv_rules_from_toml ?sv = (\<lambda>_. Some demo_learned)"
    by (simp_all add: demo_params_def)
  ultimately show ?thesis
    by simp
qed

text \<open>
  C38: the daemon and the command line tool each rewrite the whole rule file from what they read
  before. A rule the daemon learns and saves between the tool's reading and writing is gone from the
  file afterwards.
\<close>

theorem concurrent_removal_loses_a_rule:
  assumes "remove_ids rs ids = (rest, removed, missing)"
    and "file_name path \<noteq> Some (tmp_name env)"
    and "to_toml rest = Some body" and "from_toml body = Some rest" and "valid_utf8 body"
    and "se_mkdir env = None" "se_write env = WriteOk" "se_rename env = None"
    and "rules_inv rs" and "rs_next_id rs \<noteq> 0"
  shows "let fm1 = after_save (save_atomic to_toml env1 (rules_push r rs) path fm) fm;
             fm2 = after_save (save_atomic to_toml env rest path fm1) fm1
         in rules_load from_toml fm2 path = rest \<and>
            lr_id (last (rs_rules (rules_push r rs))) \<notin> lr_id ` set (rs_rules rest)"
proof -
  let ?fm1 = "after_save (save_atomic to_toml env1 (rules_push r rs) path fm) fm"
  have rest: "rest = rs\<lparr>rs_rules := filter (\<lambda>r. lr_id r \<notin> set ids) (rs_rules rs)\<rparr>"
    using assms(1) by (auto simp: remove_ids_eq)
  have inv: "rules_inv rest" "rs_next_id rest \<noteq> 0"
    using rules_inv_remove [OF assms(9), of ids] assms(1,10) rest by simp_all
  have ok: "fst (save_atomic to_toml env rest path ?fm1) = Inr ()"
    using assms(3,6-8) by (simp add: save_atomic_def fs_write_def Let_def)
  have "lr_id q < max (rs_next_id rs) 1" if "q \<in> set (rs_rules rs)" for q
    using assms(9) that by (auto simp: rules_inv_def less_max_iff_disj)
  then have "max (rs_next_id rs) 1 \<notin> lr_id ` set (rs_rules rest)"
    using order.irrefl rest by fastforce
  then show ?thesis
    using load_after_save [where to_toml = to_toml and from_toml = from_toml, OF assms(2) ok assms(3)]
      assms(4,5) inv
    by (simp add: rules_push_simps Let_def)
qed

theorem concurrent_removal_loses_a_rule_witness:
  "rules_load (\<lambda>_. Some \<lparr>rs_next_id = 8, rs_rules = []\<rparr>)
     (let fm1 = after_save (save_atomic (\<lambda>_. Some ''x'') demo_save_env
            (rules_push (demo_rule 0 RuleDeny ''/a'' KindFile)
               \<lparr>rs_next_id = 8, rs_rules = [demo_rule 7 RuleAllow ''/b'' KindFile]\<rparr>) ''/r.toml'' (\<lambda>_. None)) (\<lambda>_. None)
      in after_save (save_atomic (\<lambda>_. Some ''x'') demo_save_env \<lparr>rs_next_id = 8, rs_rules = []\<rparr> ''/r.toml'' fm1) fm1)
     ''/r.toml'' = \<lparr>rs_next_id = 8, rs_rules = []\<rparr>"
proof -
  let ?rs = "\<lparr>rs_next_id = 8, rs_rules = [demo_rule 7 RuleAllow ''/b'' KindFile]\<rparr>"
  have rem: "remove_ids ?rs [7] = (\<lparr>rs_next_id = 8, rs_rules = []\<rparr>, [demo_rule 7 RuleAllow ''/b'' KindFile], [])"
    by (simp add: remove_ids_eq) (simp add: demo_rule_def)
  have name: "file_name ''/r.toml'' \<noteq> Some (tmp_name demo_save_env)"
    by (simp add: tmp_name_def) code_simp
  have inv: "rules_inv ?rs" "rs_next_id ?rs \<noteq> 0"
    by (simp_all add: rules_inv_def demo_rule_def)
  show ?thesis
    using concurrent_removal_loses_a_rule [where to_toml = "\<lambda>_. Some ''x''" and body = "''x''"
        and from_toml = "\<lambda>_. Some \<lparr>rs_next_id = 8, rs_rules = []\<rparr>", OF rem name refl refl _ _ _ _ inv,
        of demo_save_env "demo_rule 0 RuleDeny ''/a'' KindFile" "\<lambda>_. None"]
    by (simp add: demo_save_env_def ascii_valid_utf8 ascii_def Let_def)
qed

end
